(* ===== verification/Py_Prelude.thy ===== *)
theory Py_Prelude
  imports Main "HOL-Library.Sublist"
begin

text \<open>
  Shared vocabulary of the development: the Python runtime facts that every component of
  the scraper relies on.  Python \<open>str\<close> values are modelled as \<open>string\<close>
  (\<open>char list\<close>), read as code points below 256 (Latin-1); the character classes below
  (\<open>str.isspace\<close>, \<open>str.lower\<close>, the \<open>re\<close> classes \<open>\d\<close>, \<open>\s\<close>, \<open>\w\<close>) are
  Python's Unicode classes restricted to that range.  Exceptions are values of
  \<open>py_exc\<close>, fallible code returns \<open>py_exc + 'a\<close> (\<open>Inl\<close> is the raised exception),
  and a Python \<open>dict\<close> whose iteration order matters is an association list updated
  with \<open>dict_set\<close>, which keeps the position of an existing key as CPython does.
\<close>

named_theorems py_simps "evaluation rules of the Python runtime model"

section \<open>Exceptions and the result type\<close>

datatype py_exc =
    RequestException      \<comment> \<open>\<open>requests.RequestException\<close> and its subclasses\<close>
  | ValidationError       \<comment> \<open>\<open>pydantic.ValidationError\<close>\<close>
  | AttributeError
  | IndexError
  | KeyError
  | TypeError
  | ValueError
  | IntegrityError        \<comment> \<open>\<open>sqlalchemy.exc.IntegrityError\<close> on a unique column\<close>
  | ClientError           \<comment> \<open>\<open>aiohttp.ClientError\<close>\<close>
  | HTTPException nat     \<comment> \<open>\<open>fastapi.HTTPException\<close> with its status code\<close>

type_synonym 'a res = "py_exc + 'a"

type_synonym url = string

definition bind_res :: "'a res \<Rightarrow> ('a \<Rightarrow> 'b res) \<Rightarrow> 'b res" where
  "bind_res r f = (case r of Inl e \<Rightarrow> Inl e | Inr x \<Rightarrow> f x)"

lemma bind_res_simps [simp, py_simps]:
  "bind_res (Inl e) f = Inl e"
  "bind_res (Inr x) f = f x"
  by (simp_all add: bind_res_def)

lemma bind_res_eq_Inr [simp]:
  "bind_res r f = Inr y \<longleftrightarrow> (\<exists>x. r = Inr x \<and> f x = Inr y)"
  by (cases r) auto

text \<open>
  A Python loop that appends \<open>f x\<close> for each \<open>x\<close> and lets an exception of \<open>f\<close>
  propagate: the first exception wins and the partial list is lost.
\<close>

fun map_res :: "('a \<Rightarrow> 'b res) \<Rightarrow> 'a list \<Rightarrow> 'b list res" where
  "map_res f [] = Inr []"
| "map_res f (x # xs) =
     (case f x of Inl e \<Rightarrow> Inl e
      | Inr y \<Rightarrow> (case map_res f xs of Inl e \<Rightarrow> Inl e | Inr ys \<Rightarrow> Inr (y # ys)))"

lemma map_res_Inr_D:
  "map_res f xs = Inr ys \<Longrightarrow> list_all2 (\<lambda>x y. f x = Inr y) xs ys"
  by (induction xs arbitrary: ys) (auto split: sum.splits)

lemma map_res_Inr_I:
  "list_all2 (\<lambda>x y. f x = Inr y) xs ys \<Longrightarrow> map_res f xs = Inr ys"
  by (induction rule: list_all2_induct) auto

lemma map_res_Inr_iff:
  "map_res f xs = Inr ys \<longleftrightarrow> list_all2 (\<lambda>x y. f x = Inr y) xs ys"
  using map_res_Inr_D map_res_Inr_I by blast

lemma map_res_length:
  "map_res f xs = Inr ys \<Longrightarrow> length ys = length xs"
  by (auto simp: map_res_Inr_iff dest: list_all2_lengthD)

lemma map_res_map:
  "map_res (\<lambda>x. Inr (g x)) xs = Inr (map g xs)"
  by (induction xs) auto

lemma map_res_Inl_ex:
  "map_res f xs = Inl e \<Longrightarrow> \<exists>x \<in> set xs. f x = Inl e"
  by (induction xs) (auto split: sum.splits)

lemma map_res_Inl_first:
  "f x = Inl e \<Longrightarrow> (\<forall>y \<in> set pre. \<exists>z. f y = Inr z) \<Longrightarrow> map_res f (pre @ x # post) = Inl e"
  by (induction pre) auto

section \<open>Characters and strings\<close>

text \<open>\<open>str.isspace\<close> on code points below 256.\<close>

definition py_isspace :: "char \<Rightarrow> bool" where
  "py_isspace c \<longleftrightarrow>
     (let n = of_char c :: nat in
      (9 \<le> n \<and> n \<le> 13) \<or> (28 \<le> n \<and> n \<le> 32) \<or> n = 133 \<or> n = 160)"

definition is_ascii_digit :: "char \<Rightarrow> bool" where
  "is_ascii_digit c \<longleftrightarrow> (let n = of_char c :: nat in 48 \<le> n \<and> n \<le> 57)"

definition is_ascii_upper :: "char \<Rightarrow> bool" where
  "is_ascii_upper c \<longleftrightarrow> (let n = of_char c :: nat in 65 \<le> n \<and> n \<le> 90)"

definition is_ascii_lower :: "char \<Rightarrow> bool" where
  "is_ascii_lower c \<longleftrightarrow> (let n = of_char c :: nat in 97 \<le> n \<and> n \<le> 122)"

definition is_ascii_alpha :: "char \<Rightarrow> bool" where
  "is_ascii_alpha c \<longleftrightarrow> is_ascii_upper c \<or> is_ascii_lower c"

text \<open>
  \<open>str.lower\<close> below 256: ASCII capitals and the Latin-1 capitals
  \<open>0xC0\<close>--\<open>0xDE\<close> except the multiplication sign \<open>0xD7\<close> move up by 32.
\<close>

definition py_lower_char :: "char \<Rightarrow> char" where
  "py_lower_char c =
     (let n = of_char c :: nat in
      if (65 \<le> n \<and> n \<le> 90) \<or> (192 \<le> n \<and> n \<le> 222 \<and> n \<noteq> 215) then char_of (n + 32) else c)"

definition py_lower :: "string \<Rightarrow> string" where
  "py_lower s = map py_lower_char s"

text \<open>\<open>s.strip()\<close>: whitespace removed at both ends.\<close>

definition py_strip :: "string \<Rightarrow> string" where
  "py_strip s = rev (dropWhile py_isspace (rev (dropWhile py_isspace s)))"

text \<open>\<open>s.rstrip(chars)\<close>: every trailing character that is one of \<open>chars\<close> removed.\<close>

definition py_rstrip :: "string \<Rightarrow> string \<Rightarrow> string" where
  "py_rstrip chars s = rev (dropWhile (\<lambda>c. c \<in> set chars) (rev s))"

text \<open>\<open>s.startswith(p)\<close> and the substring test \<open>needle in hay\<close>.\<close>

definition py_startswith :: "string \<Rightarrow> string \<Rightarrow> bool" where
  "py_startswith s p \<longleftrightarrow> take (length p) s = p"

fun py_contains :: "string \<Rightarrow> string \<Rightarrow> bool" where
  "py_contains hay [] = True"
| "py_contains [] (n # ns) = False"
| "py_contains (h # hs) (n # ns) =
     (py_startswith (h # hs) (n # ns) \<or> py_contains hs (n # ns))"

lemma py_startswith_prefix: "py_startswith s p \<longleftrightarrow> prefix p s"
proof
  assume "py_startswith s p"
  then have "s = p @ drop (length p) s"
    by (metis append_take_drop_id py_startswith_def)
  then show "prefix p s" by (rule prefixI)
next
  assume "prefix p s"
  then show "py_startswith s p" by (auto simp: py_startswith_def prefix_def)
qed

lemma py_contains_sublist: "py_contains hay needle \<longleftrightarrow> sublist needle hay"
proof (induction hay needle rule: py_contains.induct)
  case (3 h hs n ns)
  then show ?case
    by (auto simp: py_startswith_prefix sublist_Cons_right)
qed simp_all

lemma py_contains_append_left [intro]:
  "py_contains hay needle \<Longrightarrow> py_contains (pre @ hay) needle"
  by (meson py_contains_sublist sublist_append_leftI sublist_order.order_trans)

lemma py_contains_self [simp]: "py_contains s s"
  by (simp add: py_contains_sublist)

subsection \<open>Facts about strip and rstrip\<close>

lemma prefix_hd: "prefix r d \<Longrightarrow> r \<noteq> [] \<Longrightarrow> hd r = hd d"
  by (auto simp: prefix_def)

lemma rev_dropWhile_rev_prefix: "prefix (rev (dropWhile P (rev t))) t"
  by (metis prefix_def rev_append rev_rev_ident takeWhile_dropWhile_id)

lemma py_strip_sublist: "sublist (py_strip s) s"
proof -
  have "suffix (dropWhile py_isspace s) s"
    by (metis suffix_def takeWhile_dropWhile_id)
  then show ?thesis
    unfolding py_strip_def
    by (meson prefix_imp_sublist rev_dropWhile_rev_prefix sublist_order.dual_order.trans
        suffix_imp_sublist)
qed

lemma py_strip_no_leading_space:
  "py_strip s \<noteq> [] \<Longrightarrow> \<not> py_isspace (hd (py_strip s))"
proof -
  assume ne: "py_strip s \<noteq> []"
  let ?d = "dropWhile py_isspace s"
  have "prefix (py_strip s) ?d"
    unfolding py_strip_def by (rule rev_dropWhile_rev_prefix)
  moreover from this ne have "?d \<noteq> []"
    by (metis prefix_Nil)
  ultimately have "hd (py_strip s) = hd ?d"
    using ne by (simp add: prefix_hd)
  with \<open>?d \<noteq> []\<close> show ?thesis by (metis hd_dropWhile)
qed

lemma py_strip_no_trailing_space:
  "py_strip s \<noteq> [] \<Longrightarrow> \<not> py_isspace (last (py_strip s))"
proof -
  assume ne: "py_strip s \<noteq> []"
  then have "dropWhile py_isspace (rev (dropWhile py_isspace s)) \<noteq> []"
    by (simp add: py_strip_def)
  then show ?thesis
    by (simp add: py_strip_def last_rev hd_dropWhile)
qed

lemma py_rstrip_no_trailing:
  "py_rstrip cs s \<noteq> [] \<Longrightarrow> last (py_rstrip cs s) \<notin> set cs"
proof -
  assume ne: "py_rstrip cs s \<noteq> []"
  then have "dropWhile (\<lambda>c. c \<in> set cs) (rev s) \<noteq> []"
    by (simp add: py_rstrip_def)
  then show ?thesis
    by (metis (mono_tags, lifting) hd_dropWhile last_rev py_rstrip_def)
qed

lemma py_rstrip_prefix: "prefix (py_rstrip cs s) s"
  unfolding py_rstrip_def by (rule rev_dropWhile_rev_prefix)

lemma py_rstrip_idem: "py_rstrip cs (py_rstrip cs s) = py_rstrip cs s"
proof -
  have "dropWhile P (dropWhile P xs) = dropWhile P xs" for P and xs :: "char list"
    by (induction xs) auto
  then show ?thesis by (simp add: py_rstrip_def)
qed

text \<open>\<open>sep.join(xs)\<close>.\<close>

fun py_join :: "string \<Rightarrow> string list \<Rightarrow> string" where
  "py_join sep [] = []"
| "py_join sep [x] = x"
| "py_join sep (x # y # xs) = x @ sep @ py_join sep (y # xs)"

section \<open>Dictionaries with insertion order\<close>

text \<open>
  \<open>d[k] = v\<close> on a Python \<open>dict\<close>: an existing key keeps its position and gets the new
  value; a new key goes to the end.
\<close>

fun dict_set :: "('k \<times> 'v) list \<Rightarrow> 'k \<Rightarrow> 'v \<Rightarrow> ('k \<times> 'v) list" where
  "dict_set [] k v = [(k, v)]"
| "dict_set ((k', v') # d) k v =
     (if k' = k then (k, v) # d else (k', v') # dict_set d k v)"

lemma keys_dict_set [simp]:
  "map fst (dict_set d k v) = (if k \<in> set (map fst d) then map fst d else map fst d @ [k])"
  by (induction d) (force simp: image_iff)+

lemma map_of_dict_set [simp]: "map_of (dict_set d k v) = (map_of d)(k \<mapsto> v)"
  by (induction d) (auto simp: fun_eq_iff)

lemma distinct_dict_set [simp]:
  "distinct (map fst d) \<Longrightarrow> distinct (map fst (dict_set d k v))"
  by simp

lemma length_dict_set:
  "length (dict_set d k v) = (if k \<in> set (map fst d) then length d else Suc (length d))"
  by (metis keys_dict_set length_map length_append_singleton)

end
