(* ===== verification/Url.thy ===== *)
theory Url
  imports Py_Prelude
begin

text \<open>
  \<open>urllib.parse.urljoin\<close>, which the scraper uses to resolve the \<open>href\<close> of a link
  against the store root (hero products and important links).  The model follows
  CPython 3.11: \<open>urlsplit\<close> (leading control characters and spaces stripped, tab, CR and
  LF removed, scheme, network location, fragment and query split off, the unmatched
  bracket check of the network location that raises \<open>ValueError\<close>), \<open>urlparse\<close> (the
  \<open>;params\<close> of the last path segment for the schemes that use them), \<open>urlunsplit\<close>,
  \<open>urlunparse\<close> and the RFC 3986 merge and dot-segment removal of \<open>urljoin\<close>.  Not
  modelled: the validation of a bracketed IPv6 host and the NFKC check of non-ASCII
  network locations (both only raise on malformed input).
\<close>

section \<open>String helpers of \<open>urllib.parse\<close>\<close>

text \<open>\<open>s.split(c)\<close> for a one-character separator: always at least one field.\<close>

fun split_on :: "char \<Rightarrow> string \<Rightarrow> string list" where
  "split_on c [] = [[]]"
| "split_on c (x # xs) =
     (if x = c then [] # split_on c xs
      else (case split_on c xs of [] \<Rightarrow> [[x]] | w # ws \<Rightarrow> (x # w) # ws))"

text \<open>\<open>a, b = s.split(c, 1)\<close> where \<open>c in s\<close>.\<close>

definition split_first :: "char \<Rightarrow> string \<Rightarrow> string \<times> string" where
  "split_first c s = (takeWhile (\<lambda>x. x \<noteq> c) s, drop 1 (dropWhile (\<lambda>x. x \<noteq> c) s))"

definition scheme_char :: "char \<Rightarrow> bool" where
  "scheme_char c \<longleftrightarrow> is_ascii_alpha c \<or> is_ascii_digit c \<or> c \<in> set ''+-.''"

definition uses_relative :: "string list" where
  "uses_relative = ['''', ''ftp'', ''http'', ''gopher'', ''nntp'', ''imap'', ''wais'', ''file'',
     ''https'', ''shttp'', ''mms'', ''prospero'', ''rtsp'', ''rtsps'', ''rtspu'', ''sftp'', ''svn'',
     ''svn+ssh'', ''ws'', ''wss'']"

definition uses_netloc :: "string list" where
  "uses_netloc = ['''', ''ftp'', ''http'', ''gopher'', ''nntp'', ''telnet'', ''imap'', ''wais'',
     ''file'', ''mms'', ''https'', ''shttp'', ''snews'', ''prospero'', ''rtsp'', ''rtsps'', ''rtspu'',
     ''rsync'', ''svn'', ''svn+ssh'', ''sftp'', ''nfs'', ''git'', ''git+ssh'', ''ws'', ''wss'',
     ''itms-services'']"

definition uses_params :: "string list" where
  "uses_params = ['''', ''ftp'', ''hdl'', ''prospero'', ''http'', ''imap'', ''https'', ''shttp'',
     ''rtsp'', ''rtsps'', ''rtspu'', ''sip'', ''sips'', ''mms'', ''sftp'', ''tel'']"

section \<open>Splitting and unsplitting\<close>

record split_url =
  u_scheme :: string
  u_netloc :: string
  u_path :: string
  u_params :: string
  u_query :: string
  u_fragment :: string

text \<open>The scheme prefix \<open>url[:i]\<close> before the first colon, when it is one.\<close>

definition split_scheme :: "string \<Rightarrow> (string \<times> string) option" where
  "split_scheme u =
     (let i = length (takeWhile (\<lambda>c. c \<noteq> CHR '':'') u) in
      if i < length u \<and> 0 < i \<and> is_ascii_alpha (hd u) \<and> (\<forall>c \<in> set (take i u). scheme_char c)
      then Some (py_lower (take i u), drop (Suc i) u) else None)"

text \<open>\<open>_splitnetloc(url, 2)\<close>: the network location runs to the first \<open>/\<close>, \<open>?\<close> or \<open>#\<close>.\<close>

definition split_netloc :: "string \<Rightarrow> string \<times> string" where
  "split_netloc u =
     (let r = drop 2 u in
      (takeWhile (\<lambda>c. c \<notin> set ''/?#'') r, dropWhile (\<lambda>c. c \<notin> set ''/?#'') r))"

definition c0_or_space :: "char \<Rightarrow> bool" where
  "c0_or_space c \<longleftrightarrow> (of_char c :: nat) \<le> 32"

definition unsafe_char :: "char \<Rightarrow> bool" where
  "unsafe_char c \<longleftrightarrow> c \<in> set [CHR 0x09, CHR 0x0D, CHR 0x0A]"

definition urlsplit :: "string \<Rightarrow> string \<Rightarrow> split_url res" where
  "urlsplit url0 dflt =
     (let url1 = filter (\<lambda>c. \<not> unsafe_char c) (dropWhile c0_or_space url0);
          (sch, u2) = (case split_scheme url1 of Some (a, b) \<Rightarrow> (a, b)
                       | None \<Rightarrow> (filter (\<lambda>c. \<not> unsafe_char c) dflt, url1));
          (net, u3) = (if take 2 u2 = ''//'' then split_netloc u2 else ('''', u2))
      in if (CHR ''['' \<in> set net) \<noteq> (CHR '']'' \<in> set net) then Inl ValueError
         else
           let (u4, frag) = (if CHR ''#'' \<in> set u3 then split_first CHR ''#'' u3 else (u3, ''''));
               (path, qry) = (if CHR ''?'' \<in> set u4 then split_first CHR ''?'' u4 else (u4, ''''))
           in Inr \<lparr>u_scheme = sch, u_netloc = net, u_path = path, u_params = '''',
                   u_query = qry, u_fragment = frag\<rparr>)"

text \<open>\<open>_splitparams\<close>: the parameters start at the first \<open>;\<close> of the last segment.\<close>

definition split_params :: "string \<Rightarrow> string \<times> string" where
  "split_params u =
     (if CHR ''/'' \<in> set u then
        (let r = length u - Suc (length (takeWhile (\<lambda>c. c \<noteq> CHR ''/'') (rev u)));
             tl' = drop r u
         in if CHR '';'' \<in> set tl'
            then (take r u @ fst (split_first CHR '';'' tl'), snd (split_first CHR '';'' tl'))
            else (u, ''''))
      else split_first CHR '';'' u)"

definition urlparse :: "string \<Rightarrow> string \<Rightarrow> split_url res" where
  "urlparse url dflt =
     bind_res (urlsplit url dflt) (\<lambda>p.
       if u_scheme p \<in> set uses_params \<and> CHR '';'' \<in> set (u_path p)
       then (let (pa, pr) = split_params (u_path p) in Inr (p\<lparr>u_path := pa, u_params := pr\<rparr>))
       else Inr p)"

definition urlunsplit :: "string \<Rightarrow> string \<Rightarrow> string \<Rightarrow> string \<Rightarrow> string \<Rightarrow> string" where
  "urlunsplit sch net url qry frag =
     (let u1 = (if net \<noteq> [] \<or> (sch \<noteq> [] \<and> sch \<in> set uses_netloc \<and> take 2 url \<noteq> ''//'')
                then ''//'' @ net @ (if url \<noteq> [] \<and> take 1 url \<noteq> ''/'' then CHR ''/'' # url else url)
                else url);
          u2 = (if sch \<noteq> [] then sch @ '':'' @ u1 else u1);
          u3 = (if qry \<noteq> [] then u2 @ ''?'' @ qry else u2)
      in if frag \<noteq> [] then u3 @ ''#'' @ frag else u3)"

definition urlunparse :: "split_url \<Rightarrow> string" where
  "urlunparse p =
     urlunsplit (u_scheme p) (u_netloc p)
       (if u_params p \<noteq> [] then u_path p @ '';'' @ u_params p else u_path p)
       (u_query p) (u_fragment p)"

section \<open>Joining\<close>

text \<open>\<open>segments[1:-1] = filter(None, segments[1:-1])\<close>.\<close>

definition drop_inner_empty :: "string list \<Rightarrow> string list" where
  "drop_inner_empty xs =
     (case xs of [] \<Rightarrow> [] | [x] \<Rightarrow> [x]
      | x # rest \<Rightarrow> x # filter (\<lambda>w. w \<noteq> []) (butlast rest) @ [last rest])"

text \<open>The dot-segment loop: \<open>..\<close> pops (nothing when empty), \<open>.\<close> is skipped.\<close>

fun resolve_segments :: "string list \<Rightarrow> string list \<Rightarrow> string list" where
  "resolve_segments [] acc = acc"
| "resolve_segments (seg # segs) acc =
     (if seg = ''..'' then resolve_segments segs (butlast acc)
      else if seg = ''.'' then resolve_segments segs acc
      else resolve_segments segs (acc @ [seg]))"

definition merge_path :: "string \<Rightarrow> string \<Rightarrow> string" where
  "merge_path bpath path =
     (let bparts0 = split_on CHR ''/'' bpath;
          bparts = (if last bparts0 \<noteq> [] then butlast bparts0 else bparts0);
          segs = (if take 1 path = ''/'' then split_on CHR ''/'' path
                  else drop_inner_empty (bparts @ split_on CHR ''/'' path));
          res0 = resolve_segments segs [];
          res = (if last segs \<in> {''.'', ''..''} then res0 @ [''''] else res0);
          joined = py_join ''/'' res
      in if joined = [] then ''/'' else joined)"

definition urljoin :: "string \<Rightarrow> string \<Rightarrow> string res" where
  "urljoin base url =
     (if base = [] then Inr url else if url = [] then Inr base else
      bind_res (urlparse base '''') (\<lambda>b.
      bind_res (urlparse url (u_scheme b)) (\<lambda>p.
        if u_scheme p \<noteq> u_scheme b \<or> u_scheme p \<notin> set uses_relative then Inr url
        else if u_scheme p \<in> set uses_netloc \<and> u_netloc p \<noteq> [] then Inr (urlunparse p)
        else
          let p1 = (if u_scheme p \<in> set uses_netloc then p\<lparr>u_netloc := u_netloc b\<rparr> else p)
          in if u_path p1 = [] \<and> u_params p1 = []
             then Inr (urlunparse (p1\<lparr>u_path := u_path b, u_params := u_params b,
                         u_query := (if u_query p1 = [] then u_query b else u_query p1)\<rparr>))
             else Inr (urlunparse (p1\<lparr>u_path := merge_path (u_path b) (u_path p1)\<rparr>)))))"

end
