(* ===== verification/Models.thy ===== *)
theory Models
  imports Json Url
begin

text \<open>
  The pydantic models of \<open>src/pydantic_models.py\<close> as records, and their constructors
  as functions that validate.  What pydantic accepts depends on its version (v1 coerces an
  \<open>int\<close> to \<open>str\<close>, v2 does not; the two normalise an \<open>HttpUrl\<close> differently; \<open>EmailStr\<close>
  delegates to the \<open>email-validator\<close> package), so the three field validators the models
  use are an interface, the record \<open>pyd\<close>: \<open>v_str\<close> for a \<open>str\<close> field given a decoded
  JSON value, \<open>v_url\<close> for an \<open>HttpUrl\<close> field given a string (the stored, normalised
  URL, or \<open>None\<close>), \<open>v_email\<close> for an \<open>EmailStr\<close> field.  Two more observations of the
  version enter the request handler: \<open>url_is_str\<close>, whether an \<open>HttpUrl\<close> value is a
  \<open>str\<close> (v1) or not (v2, where it has no \<open>rstrip\<close>), and \<open>url_host\<close>, the \<open>.host\<close> of a
  validated URL.  The theorems about the scraper hold for every validator, or for every validator that is \<open>pyd_sane\<close>: a string is a
  valid \<open>str\<close> and \<open>None\<close> is not, which both major versions satisfy.
  \<open>pyd_example\<close> is one concrete validator, used by the examples.
\<close>

record pyd =
  v_str :: "json \<Rightarrow> string option"
  v_url :: "string \<Rightarrow> string option"
  v_email :: "string \<Rightarrow> string option"
  url_is_str :: bool
  url_host :: "string \<Rightarrow> string"

definition pyd_sane :: "pyd \<Rightarrow> bool" where
  "pyd_sane pv \<longleftrightarrow> (\<forall>s. v_str pv (JStr s) = Some s) \<and> v_str pv JNull = None"

section \<open>The models\<close>

record faq =
  question :: string
  answer :: string

record social_handle =
  platform :: string
  handle_url :: string

record contact_detail =
  emails :: "string list"
  phone_numbers :: "string list"

record product =
  prod_id :: "string option"
  title :: string
  price :: "string option"
  description :: "string option"
  prod_url :: "string option"

record brand_context =
  store_url :: string
  product_catalog :: "product list"
  hero_products :: "product list"
  privacy_policy :: "string option"
  return_policy :: "string option"
  faqs :: "faq list"
  social_handles :: "social_handle list"
  contact_details :: contact_detail
  brand_description :: "string option"
  important_links :: "(string \<times> string) list"

section \<open>Validating constructors\<close>

text \<open>An \<open>Optional[str]\<close> and an \<open>Optional[HttpUrl]\<close> field: \<open>None\<close> is allowed.\<close>

definition opt_str :: "pyd \<Rightarrow> json \<Rightarrow> string option option" where
  "opt_str pv v = (case v of JNull \<Rightarrow> Some None | _ \<Rightarrow> map_option Some (v_str pv v))"

definition opt_url :: "pyd \<Rightarrow> json \<Rightarrow> string option option" where
  "opt_url pv v = (case v of JNull \<Rightarrow> Some None | JStr s \<Rightarrow> map_option Some (v_url pv s) | _ \<Rightarrow> None)"

text \<open>\<open>Product(id=, title=, price=, description=, url=)\<close>; an omitted field is \<open>None\<close>.\<close>

definition mk_product :: "pyd \<Rightarrow> json \<Rightarrow> json \<Rightarrow> json \<Rightarrow> json \<Rightarrow> json \<Rightarrow> product res" where
  "mk_product pv i t p d u =
     (case (opt_str pv i, v_str pv t, opt_str pv p, opt_str pv d, opt_url pv u) of
        (Some i', Some t', Some p', Some d', Some u') \<Rightarrow>
          Inr \<lparr>prod_id = i', title = t', price = p', description = d', prod_url = u'\<rparr>
      | _ \<Rightarrow> Inl ValidationError)"

definition mk_social_handle :: "pyd \<Rightarrow> string \<Rightarrow> string \<Rightarrow> social_handle res" where
  "mk_social_handle pv p u =
     (case v_url pv u of None \<Rightarrow> Inl ValidationError
      | Some u' \<Rightarrow> Inr \<lparr>platform = p, handle_url = u'\<rparr>)"

definition mk_contact_detail :: "pyd \<Rightarrow> string list \<Rightarrow> string list \<Rightarrow> contact_detail res" where
  "mk_contact_detail pv es ps =
     (if list_all (\<lambda>e. v_email pv e \<noteq> None) es
      then Inr \<lparr>emails = map (\<lambda>e. the (v_email pv e)) es, phone_numbers = ps\<rparr>
      else Inl ValidationError)"

text \<open>
  \<open>BrandContext(...)\<close>: \<open>store_url\<close> and every value of \<open>important_links\<close>
  (a \<open>Dict[str, HttpUrl]\<close>) are validated as URLs; the nested models are already valid.
\<close>

definition mk_brand_context ::
  "pyd \<Rightarrow> string \<Rightarrow> product list \<Rightarrow> product list \<Rightarrow> string option \<Rightarrow> string option \<Rightarrow>
   faq list \<Rightarrow> social_handle list \<Rightarrow> contact_detail \<Rightarrow> string option \<Rightarrow>
   (string \<times> string) list \<Rightarrow> brand_context res" where
  "mk_brand_context pv su cat hero pp rp fq sh cd bd links =
     (case v_url pv su of None \<Rightarrow> Inl ValidationError
      | Some su' \<Rightarrow>
          if list_all (\<lambda>kv. v_url pv (snd kv) \<noteq> None) links
          then Inr \<lparr>store_url = su', product_catalog = cat, hero_products = hero,
                    privacy_policy = pp, return_policy = rp, faqs = fq, social_handles = sh,
                    contact_details = cd, brand_description = bd,
                    important_links = map (\<lambda>kv. (fst kv, the (v_url pv (snd kv)))) links\<rparr>
          else Inl ValidationError)"

section \<open>An example validator\<close>

text \<open>
  For the examples: \<open>str\<close> coercion as in pydantic v1 (\<open>str\<close>, and \<open>int\<close> and \<open>bool\<close>
  through \<open>str()\<close>), an \<open>HttpUrl\<close> check reduced to an \<open>http\<close> or \<open>https\<close> scheme with
  a non-empty host and no change to the string, an \<open>EmailStr\<close> check reduced to a
  single \<open>@\<close>, and v1's \<open>HttpUrl\<close>, a subclass of \<open>str\<close>.
\<close>

definition example_url_ok :: "string \<Rightarrow> bool" where
  "example_url_ok u \<longleftrightarrow>
     (case urlsplit u '''' of Inl e \<Rightarrow> False
      | Inr p \<Rightarrow> u_scheme p \<in> {''http'', ''https''} \<and> u_netloc p \<noteq> [])"

text \<open>The host of a URL: its network location without user information and port.\<close>

definition example_host :: "string \<Rightarrow> string" where
  "example_host u =
     (case urlsplit u [] of Inl e \<Rightarrow> []
      | Inr p \<Rightarrow> takeWhile (\<lambda>c. c \<noteq> CHR '':'') (rev (takeWhile (\<lambda>c. c \<noteq> CHR ''@'') (rev (u_netloc p)))))"

definition pyd_example :: pyd where
  "pyd_example =
     \<lparr>v_str = (\<lambda>v. case v of JStr s \<Rightarrow> Some s | JInt i \<Rightarrow> Some (int_to_str i)
                  | JBool b \<Rightarrow> Some (py_repr (JBool b)) | _ \<Rightarrow> None),
      v_url = (\<lambda>u. if example_url_ok u then Some u else None),
      v_email = (\<lambda>e. if length (filter (\<lambda>c. c = CHR ''@'') e) = 1 then Some e else None),
      url_is_str = True, url_host = example_host\<rparr>"

lemma pyd_example_sane: "pyd_sane pyd_example"
  by (simp add: pyd_sane_def pyd_example_def)

end
