(* ===== verification/Persistence.thy ===== *)
theory Persistence
  imports Models
begin

text \<open>
  The database side: the SQLAlchemy tables of \<open>src/sqlalchemy_models.py\<close> as records,
  the store as a record of tables, a session with its pending objects (\<open>db.add\<close>) and
  \<open>db.commit\<close>, and \<open>save_to_db\<close> of \<open>src/main.py\<close>.  A commit inserts the pending rows in
  the order they were added, gives each row the next primary key of its table
  (SQLite's \<open>max(rowid) + 1\<close> for an \<open>INTEGER PRIMARY KEY\<close>), and raises
  \<open>IntegrityError\<close> on a second brand with the same \<open>store_url\<close> (the \<open>unique=True\<close>
  column); the failed transaction is rolled back, so the committed tables are unchanged
  and nothing stays pending.  The foreign keys are not enforced (SQLite's default), and
  no other constraint can fail for the rows \<open>save_to_db\<close> builds: every \<open>nullable=False\<close>
  column receives a Python \<open>str\<close>.  A new object's \<open>id\<close> is \<open>None\<close> until the insert;
  the model writes it \<open>0\<close>.

  The abstract view of the store is the list \<open>abs_db\<close> of the brands with the data read
  back through their relationships; the main lemmas show that \<open>save_to_db\<close> preserves
  the integrity invariant \<open>db_inv\<close> (\<open>db_ok\<close> and every child row owned by a brand)
  on every branch and refines appending the saved
  brand context to that list.
\<close>

section \<open>Rows\<close>

record brand_row =
  brand_pk :: nat
  b_store_url :: string
  b_brand_description :: "string option"
  b_privacy_policy :: "string option"
  b_return_policy :: "string option"

record product_row =
  product_pk :: nat
  pr_brand_id :: "nat option"
  pr_title :: string
  pr_price :: "string option"
  pr_description :: "string option"
  pr_url :: "string option"

record hero_row =
  hero_pk :: nat
  hp_brand_id :: "nat option"
  hp_title :: string
  hp_price :: "string option"
  hp_description :: "string option"
  hp_url :: "string option"

record faq_row =
  faq_pk :: nat
  fq_brand_id :: "nat option"
  fq_question :: string
  fq_answer :: string

record handle_row =
  handle_pk :: nat
  sh_brand_id :: "nat option"
  sh_platform :: string
  sh_url :: string

record contact_row =
  contact_pk :: nat
  cd_brand_id :: "nat option"
  cd_email :: "string option"
  cd_phone_number :: "string option"

record link_row =
  link_pk :: nat
  il_brand_id :: "nat option"
  il_name :: string
  il_url :: string

text \<open>An object given to \<open>db.add\<close>: a brand or a row of one of the six child tables.\<close>

datatype child_row =
    CProduct product_row
  | CHero hero_row
  | CFaq faq_row
  | CHandle handle_row
  | CContact contact_row
  | CLink link_row

datatype row = RBrand brand_row | RChild child_row

record db =
  t_brands :: "brand_row list"
  t_products :: "product_row list"
  t_hero_products :: "hero_row list"
  t_faqs :: "faq_row list"
  t_social_handles :: "handle_row list"
  t_contact_details :: "contact_row list"
  t_important_links :: "link_row list"

text \<open>\<open>Base.metadata.create_all\<close> on a new database: every table empty.\<close>

definition empty_db :: db where
  "empty_db = \<lparr>t_brands = [], t_products = [], t_hero_products = [], t_faqs = [],
     t_social_handles = [], t_contact_details = [], t_important_links = []\<rparr>"

definition stored_urls :: "db \<Rightarrow> string list" where
  "stored_urls d = map b_store_url (t_brands d)"

section \<open>Inserting and committing\<close>

definition next_pk :: "nat list \<Rightarrow> nat" where
  "next_pk ks = Suc (foldr max ks 0)"

text \<open>Append a row to a table with the next primary key.\<close>

definition app_pk :: "('r \<Rightarrow> nat) \<Rightarrow> (nat \<Rightarrow> 'r \<Rightarrow> 'r) \<Rightarrow> 'r list \<Rightarrow> 'r \<Rightarrow> 'r list" where
  "app_pk pk set_pk xs r = xs @ [set_pk (next_pk (map pk xs)) r]"

fun insert_child :: "db \<Rightarrow> child_row \<Rightarrow> db" where
  "insert_child d (CProduct r) =
     d\<lparr>t_products := app_pk product_pk (\<lambda>n r. r\<lparr>product_pk := n\<rparr>) (t_products d) r\<rparr>"
| "insert_child d (CHero r) =
     d\<lparr>t_hero_products := app_pk hero_pk (\<lambda>n r. r\<lparr>hero_pk := n\<rparr>) (t_hero_products d) r\<rparr>"
| "insert_child d (CFaq r) =
     d\<lparr>t_faqs := app_pk faq_pk (\<lambda>n r. r\<lparr>faq_pk := n\<rparr>) (t_faqs d) r\<rparr>"
| "insert_child d (CHandle r) =
     d\<lparr>t_social_handles := app_pk handle_pk (\<lambda>n r. r\<lparr>handle_pk := n\<rparr>) (t_social_handles d) r\<rparr>"
| "insert_child d (CContact r) =
     d\<lparr>t_contact_details := app_pk contact_pk (\<lambda>n r. r\<lparr>contact_pk := n\<rparr>) (t_contact_details d) r\<rparr>"
| "insert_child d (CLink r) =
     d\<lparr>t_important_links := app_pk link_pk (\<lambda>n r. r\<lparr>link_pk := n\<rparr>) (t_important_links d) r\<rparr>"

text \<open>The \<open>INSERT\<close> of one pending object; only \<open>brands.store_url\<close> is unique.\<close>

fun insert_row :: "db \<Rightarrow> row \<Rightarrow> db res" where
  "insert_row d (RBrand b) =
     (if b_store_url b \<in> set (stored_urls d) then Inl IntegrityError
      else Inr (d\<lparr>t_brands := app_pk brand_pk (\<lambda>n b. b\<lparr>brand_pk := n\<rparr>) (t_brands d) b\<rparr>))"
| "insert_row d (RChild c) = Inr (insert_child d c)"

fun flush :: "db \<Rightarrow> row list \<Rightarrow> db res" where
  "flush d [] = Inr d"
| "flush d (r # rs) = bind_res (insert_row d r) (\<lambda>d'. flush d' rs)"

record session =
  s_db :: db
  s_pending :: "row list"

text \<open>A session operation: its result or exception, and the session after it.\<close>

type_synonym 'a st = "session \<Rightarrow> 'a res \<times> session"

definition db_add :: "row \<Rightarrow> session \<Rightarrow> session" where
  "db_add r s = s\<lparr>s_pending := s_pending s @ [r]\<rparr>"

definition commit :: "unit st" where
  "commit s =
     (case flush (s_db s) (s_pending s) of
        Inl e \<Rightarrow> (Inl e, s\<lparr>s_pending := []\<rparr>)
      | Inr d \<Rightarrow> (Inr (), \<lparr>s_db = d, s_pending = []\<rparr>))"

section \<open>\<open>save_to_db\<close>\<close>

definition brand_row_of :: "brand_context \<Rightarrow> brand_row" where
  "brand_row_of bc =
     \<lparr>brand_pk = 0, b_store_url = store_url bc, b_brand_description = brand_description bc,
      b_privacy_policy = privacy_policy bc, b_return_policy = return_policy bc\<rparr>"

text \<open>The child objects of the seven loops, in the order they are added.\<close>

definition child_rows :: "nat \<Rightarrow> brand_context \<Rightarrow> child_row list" where
  "child_rows bid bc =
     map (\<lambda>p. CProduct \<lparr>product_pk = 0, pr_brand_id = Some bid, pr_title = title p,
            pr_price = price p, pr_description = description p, pr_url = prod_url p\<rparr>)
       (product_catalog bc) @
     map (\<lambda>p. CHero \<lparr>hero_pk = 0, hp_brand_id = Some bid, hp_title = title p,
            hp_price = price p, hp_description = description p, hp_url = prod_url p\<rparr>)
       (hero_products bc) @
     map (\<lambda>f. CFaq \<lparr>faq_pk = 0, fq_brand_id = Some bid, fq_question = question f,
            fq_answer = answer f\<rparr>) (faqs bc) @
     map (\<lambda>h. CHandle \<lparr>handle_pk = 0, sh_brand_id = Some bid, sh_platform = platform h,
            sh_url = handle_url h\<rparr>) (social_handles bc) @
     map (\<lambda>e. CContact \<lparr>contact_pk = 0, cd_brand_id = Some bid, cd_email = Some e,
            cd_phone_number = None\<rparr>) (emails (contact_details bc)) @
     map (\<lambda>ph. CContact \<lparr>contact_pk = 0, cd_brand_id = Some bid, cd_email = None,
            cd_phone_number = Some ph\<rparr>) (phone_numbers (contact_details bc)) @
     map (\<lambda>kv. CLink \<lparr>link_pk = 0, il_brand_id = Some bid, il_name = fst kv,
            il_url = snd kv\<rparr>) (important_links bc)"

text \<open>
  Add the brand and commit; \<open>db.refresh(brand)\<close> reads back the inserted row, the last
  of \<open>brands\<close>; add the children and commit again.
\<close>

definition save_to_db :: "brand_context \<Rightarrow> unit st" where
  "save_to_db bc s =
     (case commit (db_add (RBrand (brand_row_of bc)) s) of
        (Inl e, s1) \<Rightarrow> (Inl e, s1)
      | (Inr u, s1) \<Rightarrow>
          (let bid = brand_pk (last (t_brands (s_db s1)))
           in commit (fold db_add (map RChild (child_rows bid bc)) s1)))"

section \<open>Integrity and the abstract view\<close>

text \<open>The columns of a row other than its primary key.\<close>

definition product_cols :: "product_row \<Rightarrow> nat option \<times> string \<times> string option \<times> string option \<times> string option" where
  "product_cols r = (pr_brand_id r, pr_title r, pr_price r, pr_description r, pr_url r)"

definition hero_cols :: "hero_row \<Rightarrow> nat option \<times> string \<times> string option \<times> string option \<times> string option" where
  "hero_cols r = (hp_brand_id r, hp_title r, hp_price r, hp_description r, hp_url r)"

definition faq_cols :: "faq_row \<Rightarrow> nat option \<times> string \<times> string" where
  "faq_cols r = (fq_brand_id r, fq_question r, fq_answer r)"

definition handle_cols :: "handle_row \<Rightarrow> nat option \<times> string \<times> string" where
  "handle_cols r = (sh_brand_id r, sh_platform r, sh_url r)"

definition contact_cols :: "contact_row \<Rightarrow> nat option \<times> string option \<times> string option" where
  "contact_cols r = (cd_brand_id r, cd_email r, cd_phone_number r)"

definition link_cols :: "link_row \<Rightarrow> nat option \<times> string \<times> string" where
  "link_cols r = (il_brand_id r, il_name r, il_url r)"

definition child_brand_ids :: "db \<Rightarrow> nat option list" where
  "child_brand_ids d =
     map fst (map product_cols (t_products d)) @ map fst (map hero_cols (t_hero_products d)) @
     map fst (map faq_cols (t_faqs d)) @ map fst (map handle_cols (t_social_handles d)) @
     map fst (map contact_cols (t_contact_details d)) @ map fst (map link_cols (t_important_links d))"

definition fk_ok :: "nat list \<Rightarrow> nat option \<Rightarrow> bool" where
  "fk_ok ks b = (case b of None \<Rightarrow> True | Some k \<Rightarrow> k \<in> set ks)"

definition child_pks_ok :: "db \<Rightarrow> bool" where
  "child_pks_ok d \<longleftrightarrow>
     distinct (map product_pk (t_products d)) \<and> distinct (map hero_pk (t_hero_products d)) \<and>
     distinct (map faq_pk (t_faqs d)) \<and> distinct (map handle_pk (t_social_handles d)) \<and>
     distinct (map contact_pk (t_contact_details d)) \<and> distinct (map link_pk (t_important_links d))"

text \<open>
  The integrity of the store: primary keys distinct in every table, store URLs
  distinct, and every child's \<open>brand_id\<close> the key of a brand.
\<close>

definition db_ok :: "db \<Rightarrow> bool" where
  "db_ok d \<longleftrightarrow>
     distinct (map brand_pk (t_brands d)) \<and> distinct (stored_urls d) \<and> child_pks_ok d \<and>
     list_all (fk_ok (map brand_pk (t_brands d))) (child_brand_ids d)"

text \<open>
  \<open>db_ok\<close> allows a child row whose \<open>brand_id\<close> is \<open>NULL\<close> (the column is nullable);
  \<open>db_inv\<close> adds that every child row's \<open>brand_id\<close> is set, so that with \<open>db_ok\<close> every
  child row belongs to a stored brand.
\<close>

definition db_inv :: "db \<Rightarrow> bool" where
  "db_inv d \<longleftrightarrow> db_ok d \<and> list_all (\<lambda>b. b \<noteq> None) (child_brand_ids d)"

record stored_brand =
  sb_store_url :: string
  sb_brand_description :: "string option"
  sb_privacy_policy :: "string option"
  sb_return_policy :: "string option"
  sb_products :: "(string \<times> string option \<times> string option \<times> string option) list"
  sb_hero_products :: "(string \<times> string option \<times> string option \<times> string option) list"
  sb_faqs :: "(string \<times> string) list"
  sb_social_handles :: "(string \<times> string) list"
  sb_emails :: "string list"
  sb_phone_numbers :: "string list"
  sb_important_links :: "(string \<times> string) list"

text \<open>The rows of a child table (without their keys) whose \<open>brand_id\<close> is \<open>k\<close>.\<close>

definition owned :: "nat option \<Rightarrow> (nat option \<times> 'v) list \<Rightarrow> 'v list" where
  "owned k cs = [snd c. c \<leftarrow> cs, fst c = k]"

text \<open>A brand as read back through its relationships (\<open>brand.products\<close>, ...).\<close>

definition load_brand :: "db \<Rightarrow> brand_row \<Rightarrow> stored_brand" where
  "load_brand d b =
     (let k = Some (brand_pk b) in
      \<lparr>sb_store_url = b_store_url b, sb_brand_description = b_brand_description b,
       sb_privacy_policy = b_privacy_policy b, sb_return_policy = b_return_policy b,
       sb_products = owned k (map product_cols (t_products d)),
       sb_hero_products = owned k (map hero_cols (t_hero_products d)),
       sb_faqs = owned k (map faq_cols (t_faqs d)),
       sb_social_handles = owned k (map handle_cols (t_social_handles d)),
       sb_emails = List.map_filter fst (owned k (map contact_cols (t_contact_details d))),
       sb_phone_numbers = List.map_filter snd (owned k (map contact_cols (t_contact_details d))),
       sb_important_links = owned k (map link_cols (t_important_links d))\<rparr>)"

definition abs_db :: "db \<Rightarrow> stored_brand list" where
  "abs_db d = map (load_brand d) (t_brands d)"

text \<open>What a saved brand context should read back as.\<close>

definition stored_of :: "brand_context \<Rightarrow> stored_brand" where
  "stored_of bc =
     \<lparr>sb_store_url = store_url bc, sb_brand_description = brand_description bc,
      sb_privacy_policy = privacy_policy bc, sb_return_policy = return_policy bc,
      sb_products = map (\<lambda>p. (title p, price p, description p, prod_url p)) (product_catalog bc),
      sb_hero_products = map (\<lambda>p. (title p, price p, description p, prod_url p)) (hero_products bc),
      sb_faqs = map (\<lambda>f. (question f, answer f)) (faqs bc),
      sb_social_handles = map (\<lambda>h. (platform h, handle_url h)) (social_handles bc),
      sb_emails = emails (contact_details bc), sb_phone_numbers = phone_numbers (contact_details bc),
      sb_important_links = important_links bc\<rparr>"

section \<open>Lemmas on inserting\<close>

lemma le_foldr_max: "k \<in> set ks \<Longrightarrow> k \<le> foldr max ks (0::nat)"
  by (induction ks) auto

lemma next_pk_fresh [simp]: "next_pk ks \<notin> set ks"
  unfolding next_pk_def using le_foldr_max by fastforce

lemma next_pk_fresh_image [simp]: "next_pk (map f xs) \<notin> f ` set xs"
  using next_pk_fresh [of "map f xs"] by simp

lemma cols_set_pk [simp]:
  "product_cols (r\<lparr>product_pk := n\<rparr>) = product_cols r"
  "hero_cols (h\<lparr>hero_pk := n\<rparr>) = hero_cols h"
  "faq_cols (f\<lparr>faq_pk := n\<rparr>) = faq_cols f"
  "handle_cols (sh\<lparr>handle_pk := n\<rparr>) = handle_cols sh"
  "contact_cols (c\<lparr>contact_pk := n\<rparr>) = contact_cols c"
  "link_cols (l\<lparr>link_pk := n\<rparr>) = link_cols l"
  by (simp_all add: product_cols_def hero_cols_def faq_cols_def handle_cols_def contact_cols_def
      link_cols_def)

lemma concat_map_Nil [simp]: "concat (map (\<lambda>x. []) xs) = []"
  by (induction xs) simp_all

lemma foldl_insert_child_cols:
  "t_brands (foldl insert_child d cs) = t_brands d \<and>
   map product_cols (t_products (foldl insert_child d cs)) =
     map product_cols (t_products d) @ [product_cols r. CProduct r \<leftarrow> cs] \<and>
   map hero_cols (t_hero_products (foldl insert_child d cs)) =
     map hero_cols (t_hero_products d) @ [hero_cols r. CHero r \<leftarrow> cs] \<and>
   map faq_cols (t_faqs (foldl insert_child d cs)) = map faq_cols (t_faqs d) @ [faq_cols r. CFaq r \<leftarrow> cs] \<and>
   map handle_cols (t_social_handles (foldl insert_child d cs)) =
     map handle_cols (t_social_handles d) @ [handle_cols r. CHandle r \<leftarrow> cs] \<and>
   map contact_cols (t_contact_details (foldl insert_child d cs)) =
     map contact_cols (t_contact_details d) @ [contact_cols r. CContact r \<leftarrow> cs] \<and>
   map link_cols (t_important_links (foldl insert_child d cs)) =
     map link_cols (t_important_links d) @ [link_cols r. CLink r \<leftarrow> cs]"
proof (induction cs arbitrary: d)
  case Nil
  then show ?case by simp
next
  case (Cons c cs)
  show ?case using Cons.IH [of "insert_child d c"]
    by (cases c) (simp_all add: app_pk_def)
qed

lemma foldl_insert_child_pks_ok: "child_pks_ok d \<Longrightarrow> child_pks_ok (foldl insert_child d cs)"
proof (induction cs arbitrary: d)
  case Nil
  then show ?case by simp
next
  case (Cons c cs)
  have "child_pks_ok (insert_child d c)"
    using Cons.prems by (cases c) (simp_all add: child_pks_ok_def app_pk_def)
  from Cons.IH [OF this] show ?case by simp
qed

lemma fold_db_add: "fold db_add rs s = s\<lparr>s_pending := s_pending s @ rs\<rparr>"
  by (induction rs arbitrary: s) (simp_all add: db_add_def)

lemma flush_children: "flush d (map RChild cs) = Inr (foldl insert_child d cs)"
  by (induction cs arbitrary: d) simp_all

text \<open>The row the first commit of \<open>save_to_db\<close> inserts.\<close>

definition new_brand_row :: "db \<Rightarrow> brand_context \<Rightarrow> brand_row" where
  "new_brand_row d bc = (brand_row_of bc)\<lparr>brand_pk := next_pk (map brand_pk (t_brands d))\<rparr>"

lemma save_to_db_eq:
  assumes "s_pending s = []"
  shows "save_to_db bc s =
    (if store_url bc \<in> set (stored_urls (s_db s)) then (Inl IntegrityError, s)
     else (Inr (), \<lparr>s_db = foldl insert_child
                     ((s_db s)\<lparr>t_brands := t_brands (s_db s) @ [new_brand_row (s_db s) bc]\<rparr>)
                     (child_rows (brand_pk (new_brand_row (s_db s) bc)) bc),
                   s_pending = []\<rparr>))"
  using assms
  by (simp add: save_to_db_def commit_def db_add_def fold_db_add flush_children app_pk_def
      new_brand_row_def brand_row_of_def)

lemma child_rows_cols:
  "[product_cols r. CProduct r \<leftarrow> child_rows bid bc] =
     map (\<lambda>p. (Some bid, title p, price p, description p, prod_url p)) (product_catalog bc)"
  "[hero_cols r. CHero r \<leftarrow> child_rows bid bc] =
     map (\<lambda>p. (Some bid, title p, price p, description p, prod_url p)) (hero_products bc)"
  "[faq_cols r. CFaq r \<leftarrow> child_rows bid bc] = map (\<lambda>f. (Some bid, question f, answer f)) (faqs bc)"
  "[handle_cols r. CHandle r \<leftarrow> child_rows bid bc] =
     map (\<lambda>h. (Some bid, platform h, handle_url h)) (social_handles bc)"
  "[contact_cols r. CContact r \<leftarrow> child_rows bid bc] =
     map (\<lambda>e. (Some bid, Some e, None)) (emails (contact_details bc)) @
     map (\<lambda>p. (Some bid, None, Some p)) (phone_numbers (contact_details bc))"
  "[link_cols r. CLink r \<leftarrow> child_rows bid bc] =
     map (\<lambda>kv. (Some bid, fst kv, snd kv)) (important_links bc)"
  by (simp_all add: child_rows_def product_cols_def hero_cols_def faq_cols_def handle_cols_def
      contact_cols_def link_cols_def comp_def)

lemma map_filter_append [simp]:
  "List.map_filter f (xs @ ys) = List.map_filter f xs @ List.map_filter f ys"
  by (simp add: map_filter_def)

lemma owned_append [simp]: "owned k (xs @ ys) = owned k xs @ owned k ys"
  by (simp add: owned_def)

lemma owned_tagged [simp]: "owned k (map (\<lambda>x. (k', f x)) xs) = (if k' = k then map f xs else [])"
  by (induction xs) (auto simp: owned_def)

lemma owned_none: "k \<notin> set (map fst cs) \<Longrightarrow> owned k cs = []"
  by (induction cs) (auto simp: owned_def)

lemma load_brand_update_brands [simp]: "load_brand (d\<lparr>t_brands := bs\<rparr>) b = load_brand d b"
  by (simp add: load_brand_def)

lemma load_brand_other:
  assumes "brand_pk b \<noteq> bid"
  shows "load_brand (foldl insert_child d (child_rows bid bc)) b = load_brand d b"
  using assms foldl_insert_child_cols [of d "child_rows bid bc"]
  by (simp add: load_brand_def child_rows_cols)

lemma load_brand_new:
  assumes "Some (brand_pk b) \<notin> set (child_brand_ids d)"
    and "b_store_url b = store_url bc" and "b_brand_description b = brand_description bc"
    and "b_privacy_policy b = privacy_policy bc" and "b_return_policy b = return_policy bc"
  shows "load_brand (foldl insert_child d (child_rows (brand_pk b) bc)) b = stored_of bc"
  using assms foldl_insert_child_cols [of d "child_rows (brand_pk b) bc"]
  by (simp add: load_brand_def stored_of_def child_rows_cols child_brand_ids_def owned_none
      map_filter_def comp_def)

lemma child_brand_ids_update_brands [simp]: "child_brand_ids (d\<lparr>t_brands := bs\<rparr>) = child_brand_ids d"
  by (simp add: child_brand_ids_def)

lemma child_brand_ids_save:
  "set (child_brand_ids (foldl insert_child d (child_rows bid bc))) \<subseteq>
     insert (Some bid) (set (child_brand_ids d))"
  using foldl_insert_child_cols [of d "child_rows bid bc"]
  by (auto simp: child_brand_ids_def child_rows_cols)

lemma fk_fresh:
  assumes "list_all (fk_ok ks) ids"
  shows "Some (next_pk ks) \<notin> set ids"
  using assms by (auto simp: list_all_iff fk_ok_def)

lemma new_brand_row_simps [simp]:
  "brand_pk (new_brand_row d bc) = next_pk (map brand_pk (t_brands d))"
  "b_store_url (new_brand_row d bc) = store_url bc"
  "b_brand_description (new_brand_row d bc) = brand_description bc"
  "b_privacy_policy (new_brand_row d bc) = privacy_policy bc"
  "b_return_policy (new_brand_row d bc) = return_policy bc"
  by (simp_all add: new_brand_row_def brand_row_of_def)

lemma save_to_db_dup:
  assumes "s_pending s = []" and "store_url bc \<in> set (stored_urls (s_db s))"
  shows "save_to_db bc s = (Inl IntegrityError, s)"
  using assms by (simp add: save_to_db_eq)

text \<open>
  C14: saving a brand context whose \<open>store_url\<close> is already stored raises
  \<open>IntegrityError\<close> at the first commit and leaves the store as it was.  Every request
  for a store that was fetched before therefore fails, although the specification asks
  for a new brand per successful fetch.
\<close>

theorem save_to_db_duplicate:
  assumes "s_pending s = []" and "store_url bc \<in> set (stored_urls (s_db s))"
  shows "save_to_db bc s = (Inl IntegrityError, s)"
  using assms by (rule save_to_db_dup)

lemma save_to_db_keeps_ok:
  assumes "db_ok (s_db s)" and "s_pending s = []"
  shows "db_ok (s_db (snd (save_to_db bc s))) \<and> s_pending (snd (save_to_db bc s)) = []"
proof (cases "store_url bc \<in> set (stored_urls (s_db s))")
  case True
  then show ?thesis using assms by (simp add: save_to_db_eq)
next
  case False
  let ?d = "s_db s"
  let ?b = "new_brand_row ?d bc"
  let ?bid = "next_pk (map brand_pk (t_brands ?d))"
  let ?d1 = "?d\<lparr>t_brands := t_brands ?d @ [?b]\<rparr>"
  let ?d' = "foldl insert_child ?d1 (child_rows ?bid bc)"
  have ok: "distinct (map brand_pk (t_brands ?d))" "distinct (stored_urls ?d)" "child_pks_ok ?d"
    "list_all (fk_ok (map brand_pk (t_brands ?d))) (child_brand_ids ?d)"
    using assms(1) by (simp_all add: db_ok_def)
  have brands: "t_brands ?d' = t_brands ?d @ [?b]"
    using foldl_insert_child_cols [of ?d1] by simp
  have "child_pks_ok ?d1"
    using ok(3) by (simp add: child_pks_ok_def)
  then have pks: "child_pks_ok ?d'"
    by (rule foldl_insert_child_pks_ok)
  have "list_all (fk_ok (map brand_pk (t_brands ?d'))) (child_brand_ids ?d')"
    unfolding list_all_iff
  proof
    fix k assume k: "k \<in> set (child_brand_ids ?d')"
    have "set (child_brand_ids ?d') \<subseteq> insert (Some ?bid) (set (child_brand_ids ?d))"
      using child_brand_ids_save [of ?d1 ?bid bc] by simp
    then have "k = Some ?bid \<or> k \<in> set (child_brand_ids ?d)"
      using k by blast
    then show "fk_ok (map brand_pk (t_brands ?d')) k"
      unfolding brands using ok(4) by (auto simp: fk_ok_def list_all_iff split: option.splits)
  qed
  with brands pks ok(1,2) False show ?thesis
    using assms(2) by (simp add: save_to_db_eq db_ok_def stored_urls_def)
qed

lemma save_to_db_ok_any:
  "save_to_db bc s = (r, s') \<Longrightarrow> db_ok (s_db s) \<Longrightarrow> s_pending s = [] \<Longrightarrow>
     db_ok (s_db s') \<and> s_pending s' = []"
  using save_to_db_keeps_ok [of s bc] by simp

lemma save_to_db_inv_any:
  assumes "save_to_db bc s = (r, s')" and "db_inv (s_db s)" and "s_pending s = []"
  shows "db_inv (s_db s') \<and> s_pending s' = []"
proof (cases "store_url bc \<in> set (stored_urls (s_db s))")
  case True
  then show ?thesis using assms by (simp add: save_to_db_eq)
next
  case False
  let ?d = "s_db s"
  let ?d1 = "?d\<lparr>t_brands := t_brands ?d @ [new_brand_row ?d bc]\<rparr>"
  let ?bid = "next_pk (map brand_pk (t_brands ?d))"
  have s': "s_db s' = foldl insert_child ?d1 (child_rows ?bid bc)"
    using assms(1,3) False by (auto simp: save_to_db_eq)
  have "set (child_brand_ids (s_db s')) \<subseteq> insert (Some ?bid) (set (child_brand_ids ?d))"
    using child_brand_ids_save [of ?d1 ?bid bc] s' by simp
  then have "list_all (\<lambda>b. b \<noteq> None) (child_brand_ids (s_db s'))"
    using assms(2) by (auto simp: db_inv_def list_all_iff)
  moreover have "db_ok (s_db s') \<and> s_pending s' = []"
    using save_to_db_ok_any [OF assms(1) _ assms(3)] assms(2) by (simp add: db_inv_def)
  ultimately show ?thesis by (simp add: db_inv_def)
qed

text \<open>
  C15: \<open>save_to_db\<close> preserves the integrity of the store on every branch: primary keys
  and store URLs stay distinct, and every child row's \<open>brand_id\<close> is set and is the key
  of a stored brand; nothing is left pending.
\<close>

theorem save_to_db_invariant:
  assumes "db_inv (s_db s)" and "s_pending s = []"
  shows "db_inv (s_db (snd (save_to_db bc s))) \<and> s_pending (snd (save_to_db bc s)) = []"
  using save_to_db_inv_any [OF prod.collapse [symmetric] assms] .

lemma save_to_db_abs:
  assumes "db_ok (s_db s)" and "s_pending s = []" and "store_url bc \<notin> set (stored_urls (s_db s))"
  shows "\<exists>s'. save_to_db bc s = (Inr (), s') \<and> s_pending s' = [] \<and>
           abs_db (s_db s') = abs_db (s_db s) @ [stored_of bc]"
proof -
  let ?d = "s_db s"
  let ?b = "new_brand_row ?d bc"
  let ?bid = "next_pk (map brand_pk (t_brands ?d))"
  let ?d1 = "?d\<lparr>t_brands := t_brands ?d @ [?b]\<rparr>"
  let ?d' = "foldl insert_child ?d1 (child_rows ?bid bc)"
  have brands: "t_brands ?d' = t_brands ?d @ [?b]"
    using foldl_insert_child_cols [of ?d1] by simp
  have "brand_pk b0 \<noteq> brand_pk ?b" if "b0 \<in> set (t_brands ?d)" for b0
    using that by (metis image_eqI next_pk_fresh_image new_brand_row_simps(1))
  then have old: "map (load_brand ?d') (t_brands ?d) = map (load_brand ?d) (t_brands ?d)"
    by (simp add: load_brand_other)
  have "list_all (fk_ok (map brand_pk (t_brands ?d))) (child_brand_ids ?d)"
    using assms(1) by (simp add: db_ok_def)
  then have "Some (brand_pk ?b) \<notin> set (child_brand_ids ?d1)"
    using fk_fresh by simp
  then have "load_brand (foldl insert_child ?d1 (child_rows (brand_pk ?b) bc)) ?b = stored_of bc"
    by (rule load_brand_new) simp_all
  then have new: "load_brand ?d' ?b = stored_of bc"
    by simp
  show ?thesis
    using assms(2,3) by (simp add: save_to_db_eq abs_db_def brands old new)
qed

text \<open>
  C16: on a consistent store with nothing pending, saving a brand context whose
  \<open>store_url\<close> is new succeeds, and the brands read back from the store are the ones
  before followed by exactly the saved context: \<open>save_to_db\<close> refines appending to the
  abstract list \<open>abs_db\<close>.
\<close>

theorem save_to_db_refines:
  assumes "db_ok (s_db s)" and "s_pending s = []" and "store_url bc \<notin> set (stored_urls (s_db s))"
  shows "\<exists>s'. save_to_db bc s = (Inr (), s') \<and> s_pending s' = [] \<and>
           abs_db (s_db s') = abs_db (s_db s) @ [stored_of bc]"
  using assms by (rule save_to_db_abs)

text \<open>
  C17: a successful save adds one brand row and one child row per element of each
  collection of the context; in particular one contact row per email and one per phone
  number.
\<close>

theorem save_to_db_rows:
  assumes "s_pending s = []" and "save_to_db bc s = (Inr u, s')"
  shows "length (t_brands (s_db s')) = Suc (length (t_brands (s_db s))) \<and>
    length (t_products (s_db s')) = length (t_products (s_db s)) + length (product_catalog bc) \<and>
    length (t_hero_products (s_db s')) = length (t_hero_products (s_db s)) + length (hero_products bc) \<and>
    length (t_faqs (s_db s')) = length (t_faqs (s_db s)) + length (faqs bc) \<and>
    length (t_social_handles (s_db s')) = length (t_social_handles (s_db s)) + length (social_handles bc) \<and>
    length (t_contact_details (s_db s')) = length (t_contact_details (s_db s)) +
      length (emails (contact_details bc)) + length (phone_numbers (contact_details bc)) \<and>
    length (t_important_links (s_db s')) = length (t_important_links (s_db s)) + length (important_links bc)"
proof -
  let ?d = "s_db s"
  let ?d1 = "?d\<lparr>t_brands := t_brands ?d @ [new_brand_row ?d bc]\<rparr>"
  let ?cs = "child_rows (brand_pk (new_brand_row ?d bc)) bc"
  have "s' = \<lparr>s_db = foldl insert_child ?d1 ?cs, s_pending = []\<rparr>"
    using assms by (simp add: save_to_db_eq split: if_splits)
  then have s': "s_db s' = foldl insert_child ?d1 ?cs"
    by simp
  have len: "length (map f xs) = length ys" if "map f xs = ys" for f :: "'r \<Rightarrow> 'c" and xs ys
    using that by simp
  from foldl_insert_child_cols [of ?d1 ?cs] show ?thesis
    unfolding s' child_rows_cols by (auto dest!: len)
qed

section \<open>The store only grows\<close>

lemma abs_db_urls: "map sb_store_url (abs_db d) = stored_urls d"
  by (simp add: abs_db_def load_brand_def stored_urls_def Let_def)

lemma save_to_db_prefix:
  assumes "save_to_db bc s = (r, s')" and "db_ok (s_db s)" and "s_pending s = []"
  shows "prefix (abs_db (s_db s)) (abs_db (s_db s'))"
proof (cases "store_url bc \<in> set (stored_urls (s_db s))")
  case True
  then show ?thesis using assms by (simp add: save_to_db_eq)
next
  case False
  from save_to_db_abs [OF assms(2,3) False] assms(1) show ?thesis by auto
qed

lemma prefix_stored_urls:
  "prefix (abs_db d) (abs_db d') \<Longrightarrow> set (stored_urls d) \<subseteq> set (stored_urls d')"
  by (metis abs_db_urls map_mono_prefix set_mono_prefix)

section \<open>Example\<close>

definition demo_bc :: brand_context where
  "demo_bc =
     \<lparr>store_url = ''https://s.com'',
      product_catalog = [\<lparr>prod_id = Some ''7'', title = ''Shirt'', price = Some ''5.00'',
        description = Some [], prod_url = Some ''https://s.com/products/shirt''\<rparr>],
      hero_products = [], privacy_policy = None, return_policy = Some ''30 days'',
      faqs = [\<lparr>question = ''Ship?'', answer = ''Yes.''\<rparr>], social_handles = [],
      contact_details = \<lparr>emails = [''a@b.co''], phone_numbers = [''1234567890'']\<rparr>,
      brand_description = None,
      important_links = [(''contact us'', ''https://s.com/pages/contact'')]\<rparr>"

definition demo_session :: session where
  "demo_session = \<lparr>s_db = empty_db, s_pending = []\<rparr>"

lemma demo_session_inv: "db_inv (s_db demo_session) \<and> s_pending demo_session = []"
  by (simp add: demo_session_def empty_db_def db_inv_def db_ok_def child_pks_ok_def
      child_brand_ids_def stored_urls_def)

lemma demo_session_ok: "db_ok (s_db demo_session) \<and> s_pending demo_session = []"
  using demo_session_inv by (simp add: db_inv_def)

theorem save_to_db_duplicate_witness:
  "save_to_db demo_bc (snd (save_to_db demo_bc demo_session)) =
     (Inl IntegrityError, snd (save_to_db demo_bc demo_session))"
proof -
  have "s_pending (snd (save_to_db demo_bc demo_session)) = [] \<and>
    store_url demo_bc \<in> set (stored_urls (s_db (snd (save_to_db demo_bc demo_session))))"
    by code_simp
  then show ?thesis using save_to_db_duplicate by blast
qed

theorem save_to_db_invariant_witness:
  "db_inv (s_db (snd (save_to_db demo_bc demo_session))) \<and>
   s_pending (snd (save_to_db demo_bc demo_session)) = []"
  using save_to_db_invariant [OF conjunct1 [OF demo_session_inv] conjunct2 [OF demo_session_inv]] .

theorem save_to_db_refines_witness:
  "store_url demo_bc \<notin> set (stored_urls (s_db demo_session)) \<and>
   (\<exists>s'. save_to_db demo_bc demo_session = (Inr (), s') \<and> s_pending s' = [] \<and>
      abs_db (s_db s') = abs_db (s_db demo_session) @ [stored_of demo_bc])"
proof -
  have "store_url demo_bc \<notin> set (stored_urls (s_db demo_session))"
    by (simp add: demo_session_def empty_db_def stored_urls_def)
  with save_to_db_refines demo_session_ok show ?thesis by blast
qed

theorem save_to_db_rows_witness:
  "length (t_contact_details (s_db (snd (save_to_db demo_bc demo_session)))) = 2"
proof -
  have e: "save_to_db demo_bc demo_session =
      (Inr (), snd (save_to_db demo_bc demo_session))" by code_simp
  have "length (t_contact_details (s_db (snd (save_to_db demo_bc demo_session)))) =
    length (t_contact_details (s_db demo_session)) + length (emails (contact_details demo_bc)) +
    length (phone_numbers (contact_details demo_bc))"
    using save_to_db_rows [OF _ e] demo_session_ok by blast
  then show ?thesis by (simp add: demo_session_def empty_db_def demo_bc_def)
qed

end
