(* ===== verification/Html.thy ===== *)
theory Html
  imports Py_Prelude
begin

text \<open>
  The parsed page that \<open>BeautifulSoup(response.text, "html.parser")\<close> returns, and the
  three BeautifulSoup operations the scraper applies to it: \<open>select\<close> (soupsieve's
  CSS matching over the descendants of a tag, in document order), \<open>select_one\<close> (its
  first result) and \<open>.text\<close>/\<open>get_text()\<close> (the concatenated strings below a tag).
  A page is a list of nodes: elements with their tag name (lower-case, as html.parser
  reports it), their attributes (the parser's attribute dictionary, so each name at
  most once) and their children, and text nodes.  The HTML parser itself is not
  modelled: a fetched page is given as its tree.  Comments, scripts and style sheets,
  whose strings \<open>get_text()\<close> skips, are not represented.

  Only the selector forms that occur in the scraper are modelled: a class selector
  \<open>.c\<close>, a type selector \<open>h3\<close>, and a type selector with an attribute-substring test
  \<open>a[href*='x']\<close>; a comma-separated group is a list of them.
\<close>

datatype node =
    Elem string "(string \<times> string) list" "node list"
  | Text string

type_synonym doc = "node list"

datatype simple_sel =
    SelClass string                        \<comment> \<open>\<open>.c\<close>\<close>
  | SelTag string                        \<comment> \<open>\<open>t\<close>\<close>
  | SelAttrContains string string string  \<comment> \<open>\<open>t[a*='v']\<close>\<close>

type_synonym selector = "simple_sel list"

section \<open>Tree traversal\<close>

text \<open>All nodes below a node list, in document order (pre-order).\<close>

fun descendants :: "node list \<Rightarrow> node list" where
  "descendants [] = []"
| "descendants (Text s # ns) = Text s # descendants ns"
| "descendants (Elem t as cs # ns) = Elem t as cs # descendants cs @ descendants ns"

lemma descendants_append [simp]:
  "descendants (xs @ ys) = descendants xs @ descendants ys"
proof (induction xs rule: descendants.induct)
  case (3 t as cs ns)
  then show ?case by simp
qed simp_all

lemma descendants_Cons_Elem_subset:
  "set (descendants cs) \<subseteq> set (descendants (Elem t as cs # ns))"
  by auto

text \<open>\<open>tag.get(name)\<close>, \<open>tag[name]\<close> (\<open>KeyError\<close> when absent) and the class list.\<close>

definition attr :: "(string \<times> string) list \<Rightarrow> string \<Rightarrow> string option" where
  "attr as k = map_of as k"

fun node_attr :: "node \<Rightarrow> string \<Rightarrow> string res" where
  "node_attr (Elem t as cs) k = (case attr as k of None \<Rightarrow> Inl KeyError | Some v \<Rightarrow> Inr v)"
| "node_attr (Text s) k = Inl TypeError"

text \<open>
  The \<open>class\<close> attribute is multi-valued: the builder splits it at whitespace
  (\<open>str.split()\<close>).
\<close>

fun py_split_acc :: "string \<Rightarrow> string \<Rightarrow> string list" where
  "py_split_acc cur [] = (if cur = [] then [] else [rev cur])"
| "py_split_acc cur (c # cs) =
     (if py_isspace c then (if cur = [] then py_split_acc [] cs else rev cur # py_split_acc [] cs)
      else py_split_acc (c # cur) cs)"

definition py_split :: "string \<Rightarrow> string list" where
  "py_split s = py_split_acc [] s"

section \<open>Selectors\<close>

fun match_simple :: "simple_sel \<Rightarrow> node \<Rightarrow> bool" where
  "match_simple (SelClass c) (Elem t as cs) =
     (case attr as ''class'' of None \<Rightarrow> False | Some v \<Rightarrow> c \<in> set (py_split v))"
| "match_simple (SelTag t') (Elem t as cs) = (t = t')"
| "match_simple (SelAttrContains t' a v) (Elem t as cs) =
     (t = t' \<and> v \<noteq> [] \<and> (case attr as a of None \<Rightarrow> False | Some x \<Rightarrow> py_contains x v))"
| "match_simple _ (Text s) = False"

definition match_sel :: "selector \<Rightarrow> node \<Rightarrow> bool" where
  "match_sel sel n \<longleftrightarrow> list_ex (\<lambda>s. match_simple s n) sel"

text \<open>
  \<open>soup.select(sel)\<close>: the descendants (the node itself excluded) that match some
  member of the group, in document order, each once.  \<open>tag.select(sel)\<close> on an
  element is the same over its children.
\<close>

definition select :: "selector \<Rightarrow> node list \<Rightarrow> node list" where
  "select sel ns = filter (match_sel sel) (descendants ns)"

definition select_one :: "selector \<Rightarrow> node list \<Rightarrow> node option" where
  "select_one sel ns = (case select sel ns of [] \<Rightarrow> None | n # _ \<Rightarrow> Some n)"

fun children :: "node \<Rightarrow> node list" where
  "children (Elem t as cs) = cs"
| "children (Text s) = []"

text \<open>\<open>get_text()\<close> of a page, and \<open>tag.text\<close> of one node.\<close>

definition get_text :: "node list \<Rightarrow> string" where
  "get_text ns = concat [s. Text s \<leftarrow> descendants ns]"

fun node_text :: "node \<Rightarrow> string" where
  "node_text (Elem t as cs) = get_text cs"
| "node_text (Text s) = s"

section \<open>Facts about selection\<close>

lemma select_append [simp]:
  "select sel (xs @ ys) = select sel xs @ select sel ys"
  by (simp add: select_def)

lemma select_subset: "set (select sel ns) \<subseteq> set (descendants ns)"
  by (auto simp: select_def)

lemma select_matches: "n \<in> set (select sel ns) \<Longrightarrow> match_sel sel n"
  by (simp add: select_def)

lemma match_sel_Text [simp]: "\<not> match_sel sel (Text s)"
  by (simp add: match_sel_def list_ex_iff)

lemma select_elements: "n \<in> set (select sel ns) \<Longrightarrow> \<exists>t as cs. n = Elem t as cs"
  by (cases n) (auto dest: select_matches)

lemma filter_first_iff:
  "(\<exists>ys. filter P xs = n # ys) \<longleftrightarrow>
     (\<exists>pre post. xs = pre @ n # post \<and> P n \<and> (\<forall>m \<in> set pre. \<not> P m))"
  by (auto simp: filter_eq_Cons_iff)

lemma select_one_Some_iff:
  "select_one sel ns = Some n \<longleftrightarrow>
     (\<exists>pre post. descendants ns = pre @ n # post \<and> match_sel sel n \<and>
        (\<forall>m \<in> set pre. \<not> match_sel sel m))"
proof -
  have "select_one sel ns = Some n \<longleftrightarrow> (\<exists>ys. select sel ns = n # ys)"
    by (auto simp: select_one_def split: list.splits)
  then show ?thesis
    unfolding select_def by (simp only: filter_first_iff)
qed

lemma select_one_None_iff:
  "select_one sel ns = None \<longleftrightarrow> (\<forall>m \<in> set (descendants ns). \<not> match_sel sel m)"
proof -
  have "select_one sel ns = None \<longleftrightarrow> select sel ns = []"
    by (auto simp: select_one_def split: list.splits)
  then show ?thesis
    unfolding select_def by (simp only: filter_empty_conv)
qed

lemma select_one_in_select:
  "select_one sel ns = Some n \<Longrightarrow> n \<in> set (select sel ns)"
  by (auto simp: select_one_def split: list.splits)

end
