(* ===== verification/Regex.thy ===== *)
theory Regex
  imports Py_Prelude
begin

text \<open>
  Python's \<open>re.findall\<close> for the patterns the scraper uses on a contact page.  The
  fragment of the regular-expression language those patterns need is a datatype
  \<open>re\<close>: a one-character class, concatenation, alternation \<open>|\<close>, a greedy repetition
  \<open>{lo,hi}\<close> of a character class (\<open>+\<close> is \<open>{1,}\<close>, \<open>?\<close> is \<open>{0,1}\<close>) and the word
  boundary \<open>\b\<close>.  Three semantics are given and related:
  \<^item> \<open>mt\<close>, the matcher: the backtracking search of CPython's \<open>sre\<close> engine in
    continuation-passing style.  \<open>mt r s i k\<close> tries the ways \<open>r\<close> can match \<open>s\<close>
    from position \<open>i\<close> in \<open>sre\<close>'s order (left alternative first, greedy repetition
    longest first) and returns the first result of the continuation \<open>k\<close> that succeeds;
  \<^item> \<open>ends\<close>, the reference: the list of all end positions of a match from \<open>i\<close>, in the
    order in which a backtracking engine visits them;
  \<^item> \<open>matches\<close>, the relational semantics: which spans \<open>r\<close> matches, order ignored.
  \<open>findall\<close> scans the string left to right as \<open>sre\<close>'s search does, including its
  rule for empty matches (after an empty match, the next match must advance).
\<close>

datatype re =
    Cls "char \<Rightarrow> bool"
  | Seq re re
  | Alt re re
  | Rep "char \<Rightarrow> bool" nat "nat option"
  | WordB

section \<open>Character classes of Python's \<open>re\<close> below code point 256\<close>

text \<open>
  \<open>\w\<close>: Unicode letters, digits and numerics, and the underscore.  Below 256 these
  are the ASCII letters and digits, \<open>_\<close>, the Latin-1 letters
  (\<open>0xAA\<close>, \<open>0xB5\<close>, \<open>0xBA\<close>, \<open>0xC0\<close>--\<open>0xFF\<close> without \<open>0xD7\<close> and \<open>0xF7\<close>) and the
  numerics \<open>0xB2\<close>, \<open>0xB3\<close>, \<open>0xB9\<close>, \<open>0xBC\<close>--\<open>0xBE\<close>.
\<close>

definition py_isword :: "char \<Rightarrow> bool" where
  "py_isword c \<longleftrightarrow>
     is_ascii_alpha c \<or> is_ascii_digit c \<or> c = CHR ''_'' \<or>
     (let n = of_char c :: nat in
        n \<in> {170, 178, 179, 181, 185, 186, 188, 189, 190} \<or>
        (192 \<le> n \<and> n \<noteq> 215 \<and> n \<noteq> 247))"

definition word_at :: "string \<Rightarrow> nat \<Rightarrow> bool" where
  "word_at s i \<longleftrightarrow> i < length s \<and> py_isword (s ! i)"

text \<open>\<open>\b\<close> at position \<open>i\<close>: the characters on the two sides differ in being word characters.\<close>

definition at_boundary :: "string \<Rightarrow> nat \<Rightarrow> bool" where
  "at_boundary s i \<longleftrightarrow> (0 < i \<and> word_at s (i - 1)) \<noteq> word_at s i"

section \<open>The backtracking matcher\<close>

text \<open>How many characters from position \<open>i\<close> on are in the class, capped by the repetition bound.\<close>

definition run_len :: "(char \<Rightarrow> bool) \<Rightarrow> string \<Rightarrow> nat \<Rightarrow> nat" where
  "run_len P s i = length (takeWhile P (drop i s))"

definition cap :: "nat \<Rightarrow> nat option \<Rightarrow> nat" where
  "cap n hi = (case hi of None \<Rightarrow> n | Some h \<Rightarrow> min n h)"

text \<open>Greedy backtracking of a repetition: \<open>k\<close> at \<open>lo + d\<close>, \<open>lo + d - 1\<close>, \dots, \<open>lo\<close>.\<close>

primrec try_down :: "(nat \<Rightarrow> 'b option) \<Rightarrow> nat \<Rightarrow> nat \<Rightarrow> 'b option" where
  "try_down k lo 0 = k lo"
| "try_down k lo (Suc d) = (case k (lo + Suc d) of Some x \<Rightarrow> Some x | None \<Rightarrow> try_down k lo d)"

primrec mt :: "re \<Rightarrow> string \<Rightarrow> nat \<Rightarrow> (nat \<Rightarrow> 'b option) \<Rightarrow> 'b option" where
  "mt (Cls P) s i k = (if i < length s \<and> P (s ! i) then k (Suc i) else None)"
| "mt (Seq a b) s i k = mt a s i (\<lambda>j. mt b s j k)"
| "mt (Alt a b) s i k = (case mt a s i k of Some x \<Rightarrow> Some x | None \<Rightarrow> mt b s i k)"
| "mt (Rep P lo hi) s i k =
     (let n = cap (run_len P s i) hi in if n < lo then None else try_down k (i + lo) (n - lo))"
| "mt WordB s i k = (if at_boundary s i then k i else None)"

section \<open>The reference semantics: end positions in backtracking order\<close>

fun first_some :: "(nat \<Rightarrow> 'b option) \<Rightarrow> nat list \<Rightarrow> 'b option" where
  "first_some k [] = None"
| "first_some k (x # xs) = (case k x of Some y \<Rightarrow> Some y | None \<Rightarrow> first_some k xs)"

primrec ends :: "re \<Rightarrow> string \<Rightarrow> nat \<Rightarrow> nat list" where
  "ends (Cls P) s i = (if i < length s \<and> P (s ! i) then [Suc i] else [])"
| "ends (Seq a b) s i = concat (map (\<lambda>j. ends b s j) (ends a s i))"
| "ends (Alt a b) s i = ends a s i @ ends b s i"
| "ends (Rep P lo hi) s i =
     (let n = cap (run_len P s i) hi in if n < lo then [] else rev [i + lo ..< Suc (i + n)])"
| "ends WordB s i = (if at_boundary s i then [i] else [])"

section \<open>The relational semantics\<close>

inductive matches :: "re \<Rightarrow> string \<Rightarrow> nat \<Rightarrow> nat \<Rightarrow> bool" where
  m_cls: "i < length s \<Longrightarrow> P (s ! i) \<Longrightarrow> matches (Cls P) s i (Suc i)"
| m_seq: "matches a s i j \<Longrightarrow> matches b s j l \<Longrightarrow> matches (Seq a b) s i l"
| m_alt1: "matches a s i j \<Longrightarrow> matches (Alt a b) s i j"
| m_alt2: "matches b s i j \<Longrightarrow> matches (Alt a b) s i j"
| m_rep: "(\<forall>m < n. i + m < length s \<and> P (s ! (i + m))) \<Longrightarrow> lo \<le> n \<Longrightarrow>
          (case hi of None \<Rightarrow> True | Some h \<Rightarrow> n \<le> h) \<Longrightarrow> matches (Rep P lo hi) s i (i + n)"
| m_wordb: "at_boundary s i \<Longrightarrow> matches WordB s i i"

inductive_cases matches_ClsE: "matches (Cls P) s i j"
inductive_cases matches_SeqE: "matches (Seq a b) s i j"
inductive_cases matches_AltE: "matches (Alt a b) s i j"
inductive_cases matches_RepE: "matches (Rep P lo hi) s i j"
inductive_cases matches_WordBE: "matches WordB s i j"

section \<open>The matcher visits the reference order\<close>

lemma first_some_Some_ex: "first_some k xs = Some y \<Longrightarrow> \<exists>j \<in> set xs. k j = Some y"
  by (induction xs) (auto split: option.splits)

lemma try_down_first_some: "try_down k lo d = first_some k (rev [lo ..< Suc (lo + d)])"
proof (induction d)
  case (Suc d)
  have "rev [lo ..< Suc (lo + Suc d)] = (lo + Suc d) # rev [lo ..< Suc (lo + d)]"
    by simp
  with Suc show ?case by (simp split: option.split)
qed (simp split: option.split)

lemma first_some_append:
  "first_some k (xs @ ys) = (case first_some k xs of Some y \<Rightarrow> Some y | None \<Rightarrow> first_some k ys)"
  by (induction xs) (auto split: option.splits)

lemma first_some_concat_map:
  "first_some k (concat (map f xs)) = first_some (\<lambda>j. first_some k (f j)) xs"
  by (induction xs) (auto simp: first_some_append split: option.splits)

lemma mt_ends: "mt r s i k = first_some k (ends r s i)"
proof (induction r arbitrary: i k)
  case (Seq a b)
  then show ?case by (simp add: first_some_concat_map)
next
  case (Alt a b)
  then show ?case by (simp add: first_some_append split: option.split)
next
  case (Rep P lo hi)
  then show ?case by (simp add: Let_def try_down_first_some)
qed (simp_all split: option.split)

lemma ends_ge: "j \<in> set (ends r s i) \<Longrightarrow> i \<le> j"
  by (induction r arbitrary: i j) (fastforce simp: Let_def split: if_splits)+

lemma mt_ge: "mt r s i k = Some x \<Longrightarrow> \<exists>j \<ge> i. k j = Some x"
  by (auto simp: mt_ends dest!: first_some_Some_ex dest: ends_ge)

section \<open>The three semantics agree\<close>

lemma le_length_takeWhile_iff:
  "n \<le> length (takeWhile P xs) \<longleftrightarrow> (\<forall>m < n. m < length xs \<and> P (xs ! m))"
proof
  assume "n \<le> length (takeWhile P xs)"
  then show "\<forall>m < n. m < length xs \<and> P (xs ! m)"
    by (metis length_takeWhile_le nth_mem order.strict_trans2 set_takeWhileD takeWhile_nth)
next
  assume all: "\<forall>m < n. m < length xs \<and> P (xs ! m)"
  show "n \<le> length (takeWhile P xs)"
  proof (rule ccontr)
    assume "\<not> n \<le> length (takeWhile P xs)"
    then have lt: "length (takeWhile P xs) < n" by simp
    with all have "length (takeWhile P xs) < length xs" by blast
    then have "\<not> P (xs ! length (takeWhile P xs))" by (rule nth_length_takeWhile)
    with all lt show False by blast
  qed
qed

lemma le_run_len_iff:
  "n \<le> run_len P s i \<longleftrightarrow> (\<forall>m < n. i + m < length s \<and> P (s ! (i + m)))"
  by (auto simp: run_len_def le_length_takeWhile_iff)

lemma le_cap_iff:
  "n \<le> cap r hi \<longleftrightarrow> n \<le> r \<and> (case hi of None \<Rightarrow> True | Some h \<Rightarrow> n \<le> h)"
  by (simp add: cap_def split: option.split)

lemma set_ends_Rep:
  "j \<in> set (ends (Rep P lo hi) s i) \<longleftrightarrow>
     (\<exists>n. j = i + n \<and> lo \<le> n \<and> n \<le> cap (run_len P s i) hi)"
  by (auto simp: Let_def) presburger

lemmas matches_elims = matches_ClsE matches_SeqE matches_AltE matches_RepE matches_WordBE

lemma set_ends: "j \<in> set (ends r s i) \<longleftrightarrow> matches r s i j"
proof (induction r arbitrary: i j)
  case (Cls P)
  then show ?case by (auto intro: matches.intros elim!: matches_elims)
next
  case (Seq a b)
  then show ?case by (auto intro: matches.intros elim!: matches_elims)
next
  case (Alt a b)
  then show ?case by (auto intro: matches.intros elim!: matches_elims)
next
  case (Rep P lo hi)
  show ?case
    unfolding set_ends_Rep le_cap_iff le_run_len_iff
    by (auto intro: matches.intros elim!: matches_elims)
next
  case WordB
  then show ?case by (auto intro: matches.intros elim!: matches_elims)
qed

lemma first_some_complete:
  "j \<in> set xs \<Longrightarrow> k j = Some x \<Longrightarrow> \<exists>y. first_some k xs = Some y"
  by (induction xs) (auto split: option.split)

lemma mt_sound:
  "mt r s i k = Some x \<Longrightarrow> \<exists>j. matches r s i j \<and> k j = Some x"
  by (auto simp: mt_ends set_ends [symmetric] dest: first_some_Some_ex)

lemma mt_complete:
  "matches r s i j \<Longrightarrow> k j = Some x \<Longrightarrow> \<exists>y. mt r s i k = Some y"
  by (auto simp: mt_ends set_ends [symmetric] intro: first_some_complete)

lemma matches_ge: "matches r s i j \<Longrightarrow> i \<le> j"
  by (induction rule: matches.induct) simp_all

section \<open>The substring a match spans\<close>

definition span :: "string \<Rightarrow> nat \<Rightarrow> nat \<Rightarrow> string" where
  "span s a b = take (b - a) (drop a s)"

lemma span_split: "a \<le> j \<Longrightarrow> j \<le> b \<Longrightarrow> span s a b = span s a j @ span s j b"
proof -
  assume "a \<le> j" "j \<le> b"
  then have "b - a = (j - a) + (b - j)" and "drop (j - a) (drop a s) = drop j s" by auto
  then show ?thesis by (simp add: span_def take_add)
qed

lemma span_empty [simp]: "span s a a = []"
  by (simp add: span_def)

lemma matches_Cls_span:
  "matches (Cls P) s a b \<Longrightarrow> b = Suc a \<and> span s a b = [s ! a] \<and> P (s ! a)"
  by (erule matches_ClsE) (simp add: span_def take_Suc_conv_app_nth)

lemma matches_Rep_span:
  assumes "matches (Rep P lo hi) s a b"
  shows "length (span s a b) = b - a \<and> lo \<le> b - a \<and>
         (case hi of None \<Rightarrow> True | Some h \<Rightarrow> b - a \<le> h) \<and> (\<forall>c \<in> set (span s a b). P c)"
  using assms
proof (rule matches_RepE)
  fix n
  assume b: "b = a + n" and all: "\<forall>m < n. a + m < length s \<and> P (s ! (a + m))"
    and lo: "lo \<le> n" and hi: "case hi of None \<Rightarrow> True | Some h \<Rightarrow> n \<le> h"
  have len: "length (span s a b) = n"
  proof (cases n)
    case (Suc n')
    with all have "a + n' < length s" by blast
    with b Suc show ?thesis by (simp add: span_def)
  qed (simp add: b span_def)
  have "\<forall>c \<in> set (span s a b). P c"
  proof
    fix c assume "c \<in> set (span s a b)"
    then obtain m where m: "m < length (span s a b)" and c: "c = span s a b ! m"
      by (metis in_set_conv_nth)
    with len all have "a + m < length s" and "P (s ! (a + m))" by auto
    with m c b show "P c" by (simp add: span_def len)
  qed
  with len lo hi b show ?thesis by (cases hi) simp_all
qed

lemma matches_Seq_spanE:
  assumes "matches (Seq x y) s a b"
  obtains j where "matches x s a j" "matches y s j b" "span s a b = span s a j @ span s j b"
  using assms by (rule matches_SeqE) (metis matches_ge span_split)

lemma matches_WordB_eq: "matches WordB s a b \<Longrightarrow> b = a"
  by (erule matches_WordBE) simp

section \<open>Scanning: \<open>re.findall\<close>\<close>

text \<open>
  \<open>findall_from r s i adv\<close>: the matches from position \<open>i\<close> on; \<open>adv\<close> is \<open>sre\<close>'s
  \<open>must_advance\<close> flag, set after an empty match, which rejects a second empty match
  at the same place.
\<close>

definition next_cont :: "nat \<Rightarrow> bool \<Rightarrow> nat \<Rightarrow> nat option" where
  "next_cont i adv j = (if adv \<and> j = i then None else Some j)"

function findall_from :: "re \<Rightarrow> string \<Rightarrow> nat \<Rightarrow> bool \<Rightarrow> string list" where
  "findall_from r s i adv =
     (if length s < i then []
      else case mt r s i (next_cont i adv) of
        None \<Rightarrow> findall_from r s (Suc i) False
      | Some j \<Rightarrow> take (j - i) (drop i s) # findall_from r s j (j = i))"
  by pat_completeness auto
termination
proof (relation "measure (\<lambda>(r, s, i, adv). 2 * (Suc (length s) - i) + (if adv then 0 else 1))")
  show "wf (measure (\<lambda>(r, s, i, adv). 2 * (Suc (length s) - i) + (if adv then 0 else 1)))"
    by (rule wf_measure)
next
  fix r s i adv
  assume "\<not> length s < i"
  then show "((r, s, Suc i, False), r, s, i, adv) \<in>
      measure (\<lambda>(r, s, i, adv). 2 * (Suc (length s) - i) + (if adv then 0 else 1))"
    by (simp add: Suc_diff_le)
next
  fix r s i adv x2
  assume le: "\<not> length s < i" and m: "mt r s i (next_cont i adv) = Some x2"
  from mt_ge [OF m] obtain j' where j': "i \<le> j'" "next_cont i adv j' = Some x2"
    by blast
  from j'(2) have "x2 = j'" and adv: "adv \<longrightarrow> x2 \<noteq> i"
    by (simp_all add: next_cont_def split: if_split_asm)
  with j'(1) have ij: "i \<le> x2" by simp
  show "((r, s, x2, x2 = i), r, s, i, adv) \<in>
      measure (\<lambda>(r, s, i, adv). 2 * (Suc (length s) - i) + (if adv then 0 else 1))"
  proof (cases "x2 = i")
    case True
    with adv have "\<not> adv" by blast
    with True show ?thesis by simp
  next
    case False
    with ij le have "Suc (length s) - x2 < Suc (length s) - i" by linarith
    then show ?thesis by auto
  qed
qed

declare findall_from.simps [simp del]

definition findall :: "re \<Rightarrow> string \<Rightarrow> string list" where
  "findall r s = findall_from r s 0 False"

text \<open>Every string \<open>findall\<close> returns is the span of a match, at or after the start.\<close>

lemma findall_from_sound:
  "m \<in> set (findall_from r s i adv) \<Longrightarrow>
     \<exists>a b. i \<le> a \<and> matches r s a b \<and> m = take (b - a) (drop a s)"
proof (induction r s i adv rule: findall_from.induct)
  case (1 r s i adv)
  note eq = findall_from.simps [of r s i adv]
  show ?case
  proof (cases "length s < i")
    case True
    with "1.prems" show ?thesis by (simp add: eq)
  next
    case False
    show ?thesis
    proof (cases "mt r s i (next_cont i adv)")
      case None
      with False "1.prems" have mem: "m \<in> set (findall_from r s (Suc i) False)"
        by (simp add: eq)
      have "\<exists>a b. Suc i \<le> a \<and> matches r s a b \<and> m = take (b - a) (drop a s)"
        by (rule "1.IH"(1) [OF False None mem])
      then obtain a b where "Suc i \<le> a" "matches r s a b" "m = take (b - a) (drop a s)"
        by (elim exE conjE)
      then show ?thesis by (intro exI [of _ a] exI [of _ b]) simp
    next
      case (Some j)
      from mt_sound [OF Some] obtain j' where mj: "matches r s i j'" and "next_cont i adv j' = Some j"
        by (elim exE conjE)
      then have jj: "j' = j" by (simp add: next_cont_def split: if_split_asm)
      from False Some "1.prems" have
        "m = take (j - i) (drop i s) \<or> m \<in> set (findall_from r s j (j = i))"
        by (simp add: eq)
      then show ?thesis
      proof
        assume "m = take (j - i) (drop i s)"
        with mj jj show ?thesis by (intro exI [of _ i] exI [of _ j]) simp
      next
        assume mem: "m \<in> set (findall_from r s j (j = i))"
        have "\<exists>a b. j \<le> a \<and> matches r s a b \<and> m = take (b - a) (drop a s)"
          by (rule "1.IH"(2) [OF False Some mem])
        then obtain a b where "j \<le> a" "matches r s a b" "m = take (b - a) (drop a s)"
          by (elim exE conjE)
        moreover have "i \<le> j" using matches_ge [OF mj] jj by simp
        ultimately show ?thesis by (intro exI [of _ a] exI [of _ b]) simp
      qed
    qed
  qed
qed

lemma findall_sound:
  "m \<in> set (findall r s) \<Longrightarrow> \<exists>a b. matches r s a b \<and> m = span s a b"
proof -
  assume "m \<in> set (findall r s)"
  then have "\<exists>a b. 0 \<le> a \<and> matches r s a b \<and> m = take (b - a) (drop a s)"
    unfolding findall_def by (rule findall_from_sound)
  then show ?thesis by (simp add: span_def)
qed

lemma findall_sublist: "m \<in> set (findall r s) \<Longrightarrow> sublist m s"
proof -
  assume "m \<in> set (findall r s)"
  then obtain a b where "m = span s a b"
    by (blast dest: findall_sound)
  moreover have "sublist (take n (drop a s)) s" for n
    by (metis append_take_drop_id sublist_appendI)
  ultimately show ?thesis by (simp add: span_def)
qed

lemma matches_le: "matches r s i j \<Longrightarrow> i \<le> length s \<Longrightarrow> j \<le> length s"
proof (induction rule: matches.induct)
  case (m_rep n i s P lo hi)
  show ?case
  proof (cases n)
    case 0
    then show ?thesis using m_rep.prems by simp
  next
    case (Suc k)
    with m_rep.hyps(1) have "i + k < length s" by simp
    with Suc show ?thesis by simp
  qed
qed auto

lemma findall_from_mt_le:
  "mt r s i (next_cont i adv) = Some j \<Longrightarrow> i \<le> length s \<Longrightarrow> i \<le> j \<and> j \<le> length s \<and> (adv \<longrightarrow> j \<noteq> i)"
  by (auto simp: mt_ends set_ends next_cont_def dest!: first_some_Some_ex split: if_splits
      dest: matches_le matches_ge)

text \<open>
  The scan loop terminates from every position and either state of the must-advance
  flag: the function's domain is everything.  The measure is the one of its
  termination proof; \<open>matches_le\<close> keeps every match inside the string.
\<close>

lemma findall_from_terminates: "findall_from_dom (r, s, i, adv)"
proof (induction "2 * (Suc (length s) - i) + (if adv then 0 else 1)" arbitrary: i adv rule: less_induct)
  case less
  show ?case
  proof (rule accpI)
    fix y
    assume "findall_from_rel y (r, s, i, adv)"
    then show "findall_from_dom y"
      by (cases rule: findall_from_rel.cases)
         (auto intro!: less dest!: findall_from_mt_le simp: not_less)
  qed
qed

text \<open>How many matches the loop can return from a position.\<close>

lemma findall_from_length:
  "length (findall_from r s i adv) \<le>
     (if length s < i then 0 else 2 * (length s - i) + (if adv then 0 else 1))"
proof (induction r s i adv rule: findall_from.induct)
  case (1 r s i adv)
  note eq = findall_from.simps [of r s i adv]
  show ?case
  proof (cases "length s < i")
    case True
    then show ?thesis by (simp add: eq)
  next
    case False
    show ?thesis
    proof (cases "mt r s i (next_cont i adv)")
      case None
      then show ?thesis unfolding eq using False "1.IH"(1) [OF False None] by (cases adv) (auto split: if_splits)
    next
      case (Some j)
      with False have j: "i \<le> j" "j \<le> length s" "adv \<longrightarrow> j \<noteq> i"
        using findall_from_mt_le by auto
      then show ?thesis unfolding eq using False "1.IH"(2) [OF False Some] Some by (cases adv) (auto split: if_splits)
    qed
  qed
qed
text \<open>
  \<open>re.findall\<close> returns at most \<open>2 * len(s) + 1\<close> matches: an empty match at each
  position, and a non-empty one between two positions.
\<close>

lemma findall_length: "length (findall r s) \<le> 2 * length s + 1"
  using findall_from_length [of r s 0 False] by (simp add: findall_def)

text \<open>The bound is reached: \<open>re.findall('|a', 'aa')\<close> is \<open>['', 'a', '', 'a', '']\<close>.\<close>

lemma findall_length_reached:
  "findall (Alt (Rep (\<lambda>c. False) 0 None) (Cls (\<lambda>c. c = CHR ''a''))) ''aa'' = ['''', ''a'', '''', ''a'', '''']"
  by code_simp

end
