(* ===== verification/Scraper.thy ===== *)
theory Scraper
  imports Html Regex Models
begin

text \<open>
  The class \<open>ShopifyScraper\<close> of \<open>src/scraper.py\<close>.  The world it talks to is the
  web, a function from a URL to the response a GET receives (\<open>None\<close>: the request
  raised, by a connection error or the ten-second timeout).  A response has its status
  code, the tree BeautifulSoup parses from its body and the value \<open>response.json()\<close>
  decodes (\<open>None\<close>: the body is no JSON, which requests reports as its
  \<open>JSONDecodeError\<close>, a \<open>RequestException\<close>).  The web is a snapshot: the same URL
  gives the same response throughout one scrape.

  Every method is a computation of type \<open>'a io\<close>: it extends the trace of events
  (the GETs it issues, the pauses it takes) and returns a value or raises.  The trace
  makes the order of the requests, which the spec requires to be sequential, a value the
  theorems can speak about.
\<close>

datatype event = Get url | Sleep nat

type_synonym trace = "event list"

type_synonym 'a io = "trace \<Rightarrow> 'a res \<times> trace"

record response =
  status_code :: nat
  page :: doc
  json_body :: "json option"

type_synonym web = "url \<Rightarrow> response option"

definition ret_io :: "'a \<Rightarrow> 'a io" where
  "ret_io x = (\<lambda>t. (Inr x, t))"

definition lift_io :: "'a res \<Rightarrow> 'a io" where
  "lift_io r = (\<lambda>t. (r, t))"

definition bind_io :: "'a io \<Rightarrow> ('a \<Rightarrow> 'b io) \<Rightarrow> 'b io" where
  "bind_io m f = (\<lambda>t. case m t of (Inl e, t') \<Rightarrow> (Inl e, t') | (Inr x, t') \<Rightarrow> f x t')"

lemma io_simps [simp]:
  "ret_io x t = (Inr x, t)"
  "lift_io r t = (r, t)"
  "m t = (Inr x, t') \<Longrightarrow> bind_io m f t = f x t'"
  "m t = (Inl e, t') \<Longrightarrow> bind_io m f t = (Inl e, t')"
  by (simp_all add: ret_io_def lift_io_def bind_io_def)

section \<open>The scraper object and \<open>fetch_page\<close>\<close>

record scraper =
  base_url :: url

text \<open>\<open>__init__\<close>: the root without trailing slashes; the session only sets a header.\<close>

definition new_scraper :: "url \<Rightarrow> scraper" where
  "new_scraper u = \<lparr>base_url = py_rstrip ''/'' u\<rparr>"

text \<open>\<open>response.raise_for_status()\<close> raises for the client and server errors 400--599.\<close>

definition http_error :: "nat \<Rightarrow> bool" where
  "http_error n \<longleftrightarrow> 400 \<le> n \<and> n < 600"

definition fetch_page :: "web \<Rightarrow> url \<Rightarrow> doc option io" where
  "fetch_page w u t =
     ((case w u of None \<Rightarrow> Inr None
       | Some r \<Rightarrow> if http_error (status_code r) then Inr None else Inr (Some (page r))),
      t @ [Get u])"

section \<open>Product catalog\<close>

text \<open>One item of \<open>products\<close>: the keyword arguments are evaluated left to right, then
  \<open>Product\<close> validates.\<close>

definition catalog_item :: "pyd \<Rightarrow> url \<Rightarrow> json \<Rightarrow> product res" where
  "catalog_item pv base item =
     bind_res (json_get item ''id'' JNull) (\<lambda>i.
     bind_res (json_get item ''title'' (JStr '''')) (\<lambda>ti.
     bind_res (json_get item ''variants'' (JArr [JObj []])) (\<lambda>vs.
     bind_res (py_index0 vs) (\<lambda>v0.
     bind_res (json_get v0 ''price'' (JStr '''')) (\<lambda>pr.
     bind_res (json_get item ''body_html'' (JStr '''')) (\<lambda>bh.
     bind_res (json_get item ''handle'' (JStr '''')) (\<lambda>h.
       mk_product pv (JStr (py_str i)) ti (JStr (py_str pr)) bh
         (JStr (base @ ''/products/'' @ py_str h)))))))))"

definition catalog_items :: "pyd \<Rightarrow> url \<Rightarrow> json \<Rightarrow> product list res" where
  "catalog_items pv base d =
     bind_res (json_get d ''products'' (JArr [])) (\<lambda>ps.
     bind_res (py_iter ps) (\<lambda>items. map_res (catalog_item pv base) items))"

text \<open>Only a \<open>RequestException\<close> is caught: a transport error, an HTTP error status,
  a body that is no JSON.  Anything the loop raises propagates.\<close>

definition get_product_catalog :: "web \<Rightarrow> pyd \<Rightarrow> scraper \<Rightarrow> product list io" where
  "get_product_catalog w pv sc t =
     (let u = base_url sc @ ''/products.json'' in
      ((case w u of None \<Rightarrow> Inr []
        | Some r \<Rightarrow>
            if http_error (status_code r) then Inr []
            else (case json_body r of None \<Rightarrow> Inr []
                  | Some d \<Rightarrow> catalog_items pv (base_url sc) d)),
       t @ [Get u]))"

section \<open>Hero products\<close>

definition sel_product_card :: selector where
  "sel_product_card = [SelClass ''product-card'', SelClass ''featured-product'']"

text \<open>\<open>a or b\<close> on two \<open>select_one\<close> results: a tag is always true.\<close>

definition or_else :: "'a option \<Rightarrow> 'a option \<Rightarrow> 'a option" where
  "or_else a b = (case a of Some x \<Rightarrow> Some x | None \<Rightarrow> b)"

definition text_or_empty :: "node option \<Rightarrow> string" where
  "text_or_empty n = (case n of Some x \<Rightarrow> py_strip (node_text x) | None \<Rightarrow> '''')"

definition hero_item :: "pyd \<Rightarrow> url \<Rightarrow> node \<Rightarrow> product res" where
  "hero_item pv base pd =
     (let cs = children pd;
          ti = or_else (select_one [SelClass ''product-title''] cs) (select_one [SelTag ''h3''] cs);
          pr = or_else (select_one [SelClass ''product-price''] cs) (select_one [SelClass ''price''] cs);
          a = select_one [SelAttrContains ''a'' ''href'' ''/products/''] cs
      in bind_res (case a of None \<Rightarrow> Inr JNull
                   | Some l \<Rightarrow> bind_res (node_attr l ''href'') (\<lambda>h.
                                 bind_res (urljoin base h) (\<lambda>u. Inr (JStr u)))) (\<lambda>u.
           mk_product pv JNull (JStr (text_or_empty ti)) (JStr (text_or_empty pr)) JNull u))"

definition get_hero_products :: "web \<Rightarrow> pyd \<Rightarrow> scraper \<Rightarrow> product list io" where
  "get_hero_products w pv sc =
     bind_io (fetch_page w (base_url sc)) (\<lambda>so.
       case so of None \<Rightarrow> ret_io []
       | Some d \<Rightarrow> lift_io (map_res (hero_item pv (base_url sc)) (select sel_product_card d)))"

section \<open>Policies and the brand description\<close>

text \<open>\<open>content.text.strip() if content else None\<close> over the first match of a selector.\<close>

definition content_text :: "selector \<Rightarrow> doc \<Rightarrow> string option" where
  "content_text sel d = map_option (\<lambda>c. py_strip (node_text c)) (select_one sel d)"

definition sel_policy :: selector where
  "sel_policy = [SelClass ''policy-content'', SelClass ''main-content'']"

definition get_privacy_policy :: "web \<Rightarrow> scraper \<Rightarrow> string option io" where
  "get_privacy_policy w sc =
     bind_io (fetch_page w (base_url sc @ ''/policies/privacy-policy'')) (\<lambda>so.
       ret_io (case so of None \<Rightarrow> None | Some d \<Rightarrow> content_text sel_policy d))"

definition get_return_policy :: "web \<Rightarrow> scraper \<Rightarrow> string option io" where
  "get_return_policy w sc =
     bind_io (fetch_page w (base_url sc @ ''/policies/refunded-policy'')) (\<lambda>so.
       ret_io (case so of None \<Rightarrow> None | Some d \<Rightarrow> content_text sel_policy d))"

definition get_brand_description :: "web \<Rightarrow> scraper \<Rightarrow> string option io" where
  "get_brand_description w sc =
     bind_io (fetch_page w (base_url sc @ ''/pages/about'')) (\<lambda>so.
       ret_io (case so of None \<Rightarrow> None
               | Some d \<Rightarrow> content_text [SelClass ''about-content'', SelClass ''main-content''] d))"

section \<open>FAQs\<close>

definition sel_faq_item :: selector where
  "sel_faq_item = [SelClass ''faq-item'', SelClass ''accordion'']"

definition sel_faq_question :: selector where
  "sel_faq_question = [SelClass ''faq-question'', SelClass ''accordion-title'']"

definition sel_faq_answer :: selector where
  "sel_faq_answer = [SelClass ''faq-answer'', SelClass ''accordion-content'']"

text \<open>A container yields a FAQ only when it has both a question and an answer.\<close>

definition faq_of :: "node \<Rightarrow> faq option" where
  "faq_of it =
     (case (select_one sel_faq_question (children it), select_one sel_faq_answer (children it)) of
        (Some q, Some a) \<Rightarrow> Some \<lparr>question = py_strip (node_text q), answer = py_strip (node_text a)\<rparr>
      | _ \<Rightarrow> None)"

definition get_faqs :: "web \<Rightarrow> scraper \<Rightarrow> faq list io" where
  "get_faqs w sc =
     bind_io (fetch_page w (base_url sc @ ''/pages/faq'')) (\<lambda>so.
       ret_io (case so of None \<Rightarrow> [] | Some d \<Rightarrow> List.map_filter faq_of (select sel_faq_item d)))"

section \<open>Social handles\<close>

definition sel_social :: selector where
  "sel_social = [SelAttrContains ''a'' ''href'' ''instagram.com'',
                 SelAttrContains ''a'' ''href'' ''facebook.com'',
                 SelAttrContains ''a'' ''href'' ''tiktok.com'']"

text \<open>The platform test as written in the source: the second substring is
  \<open>"facebook Xcom"\<close>, with a space and an \<open>X\<close>.\<close>

definition classify_platform :: "string \<Rightarrow> string" where
  "classify_platform h =
     (if py_contains h ''instagram.com'' then ''instagram''
      else if py_contains h ''facebook Xcom'' then ''facebook'' else ''tiktok'')"

definition social_of :: "pyd \<Rightarrow> node \<Rightarrow> social_handle res" where
  "social_of pv l = bind_res (node_attr l ''href'') (\<lambda>h. mk_social_handle pv (classify_platform h) h)"

definition get_social_handles :: "web \<Rightarrow> pyd \<Rightarrow> scraper \<Rightarrow> social_handle list io" where
  "get_social_handles w pv sc =
     bind_io (fetch_page w (base_url sc)) (\<lambda>so.
       case so of None \<Rightarrow> ret_io []
       | Some d \<Rightarrow> lift_io (map_res (social_of pv) (select sel_social d)))"

section \<open>Contact details\<close>

text \<open>\<open>[a-zA-Z0-9._%+-]+@[a-zA-Z0-9.-]+\.[a-zA-Z]{2,}\<close>\<close>

definition email_local_char :: "char \<Rightarrow> bool" where
  "email_local_char c \<longleftrightarrow> is_ascii_alpha c \<or> is_ascii_digit c \<or> c \<in> set ''._%+-''"

definition email_domain_char :: "char \<Rightarrow> bool" where
  "email_domain_char c \<longleftrightarrow> is_ascii_alpha c \<or> is_ascii_digit c \<or> c \<in> set ''.-''"

definition email_re :: re where
  "email_re =
     Seq (Rep email_local_char 1 None)
      (Seq (Cls (\<lambda>c. c = CHR ''@''))
        (Seq (Rep email_domain_char 1 None)
          (Seq (Cls (\<lambda>c. c = CHR ''.'')) (Rep is_ascii_alpha 2 None))))"

text \<open>\<open>\b\d{10}\b|\+\d{1,3}\s?\d{10}\b\<close>\<close>

definition phone_re :: re where
  "phone_re =
     Alt (Seq WordB (Seq (Rep is_ascii_digit 10 (Some 10)) WordB))
       (Seq (Cls (\<lambda>c. c = CHR ''+''))
         (Seq (Rep is_ascii_digit 1 (Some 3))
           (Seq (Rep py_isspace 0 (Some 1)) (Seq (Rep is_ascii_digit 10 (Some 10)) WordB))))"

definition get_contact_details :: "web \<Rightarrow> pyd \<Rightarrow> scraper \<Rightarrow> contact_detail io" where
  "get_contact_details w pv sc =
     bind_io (fetch_page w (base_url sc @ ''/pages/contact'')) (\<lambda>so.
       lift_io (case so of None \<Rightarrow> mk_contact_detail pv [] []
                | Some d \<Rightarrow> mk_contact_detail pv (findall email_re (get_text d))
                                               (findall phone_re (get_text d))))"

section \<open>Important links\<close>

definition sel_links :: selector where
  "sel_links = [SelAttrContains ''a'' ''href'' ''/pages/'', SelAttrContains ''a'' ''href'' ''track'',
                SelAttrContains ''a'' ''href'' ''contact'', SelAttrContains ''a'' ''href'' ''blog'']"

definition link_names :: "string list" where
  "link_names = [''order tracking'', ''contact us'', ''blogs'']"

text \<open>\<open>link.text.strip().lower()\<close>\<close>

definition link_label :: "node \<Rightarrow> string" where
  "link_label l = py_lower (py_strip (node_text l))"

text \<open>The loop over the selected anchors, with the dictionary it fills.\<close>

fun links_loop :: "url \<Rightarrow> node list \<Rightarrow> (string \<times> string) list \<Rightarrow> (string \<times> string) list res" where
  "links_loop base [] acc = Inr acc"
| "links_loop base (l # ls) acc =
     (let name = link_label l in
      if name \<in> set link_names
      then bind_res (node_attr l ''href'') (\<lambda>h.
             bind_res (urljoin base h) (\<lambda>u. links_loop base ls (dict_set acc name u)))
      else links_loop base ls acc)"

definition get_important_links :: "web \<Rightarrow> scraper \<Rightarrow> (string \<times> string) list io" where
  "get_important_links w sc =
     bind_io (fetch_page w (base_url sc)) (\<lambda>so.
       case so of None \<Rightarrow> ret_io []
       | Some d \<Rightarrow> lift_io (links_loop (base_url sc) (select sel_links d) []))"

section \<open>\<open>scrape\<close>\<close>

text \<open>The keyword arguments of \<open>BrandContext(...)\<close> in order, then its validation.\<close>

definition scrape :: "web \<Rightarrow> pyd \<Rightarrow> scraper \<Rightarrow> brand_context io" where
  "scrape w pv sc =
     bind_io (get_product_catalog w pv sc) (\<lambda>cat.
     bind_io (get_hero_products w pv sc) (\<lambda>hero.
     bind_io (get_privacy_policy w sc) (\<lambda>pp.
     bind_io (get_return_policy w sc) (\<lambda>rp.
     bind_io (get_faqs w sc) (\<lambda>fq.
     bind_io (get_social_handles w pv sc) (\<lambda>sh.
     bind_io (get_contact_details w pv sc) (\<lambda>cd.
     bind_io (get_brand_description w sc) (\<lambda>bd.
     bind_io (get_important_links w sc) (\<lambda>links.
       lift_io (mk_brand_context pv (base_url sc) cat hero pp rp fq sh cd bd links))))))))))"

section \<open>Facts about the extractors\<close>

text \<open>What \<open>fetch_page\<close> returns for a URL of the web.\<close>

definition page_at :: "web \<Rightarrow> url \<Rightarrow> doc option" where
  "page_at w u = (case w u of None \<Rightarrow> None
     | Some r \<Rightarrow> if http_error (status_code r) then None else Some (page r))"

lemma fetch_page_eq: "fetch_page w u t = (Inr (page_at w u), t @ [Get u])"
  by (simp add: fetch_page_def page_at_def split: option.split)

lemma bind_io_Inr_D:
  "bind_io m f t = (Inr y, t'') \<Longrightarrow> \<exists>x t'. m t = (Inr x, t') \<and> f x t' = (Inr y, t'')"
  by (auto simp: bind_io_def split: prod.splits sum.splits)

lemma bind_io_fetch:
  "bind_io (fetch_page w u) f t = f (page_at w u) (t @ [Get u])"
  by (simp add: fetch_page_eq)

lemma bind_io_InrE:
  assumes "bind_io m f t = (Inr y, t'')"
  obtains x t' where "m t = (Inr x, t')" and "t' = snd (m t)" and "f x t' = (Inr y, t'')"
  using assms by (auto simp: bind_io_def split: prod.splits sum.splits)

lemma get_product_catalog_trace:
  "snd (get_product_catalog w pv sc t) = t @ [Get (base_url sc @ ''/products.json'')]"
  by (simp add: get_product_catalog_def Let_def)

lemma get_hero_products_trace:
  "snd (get_hero_products w pv sc t) = t @ [Get (base_url sc)]"
  by (simp add: get_hero_products_def bind_io_fetch split: option.split)


lemma io_trace_simps:
  "snd (get_privacy_policy w sc t) = t @ [Get (base_url sc @ ''/policies/privacy-policy'')]"
  "snd (get_return_policy w sc t) = t @ [Get (base_url sc @ ''/policies/refunded-policy'')]"
  "snd (get_brand_description w sc t) = t @ [Get (base_url sc @ ''/pages/about'')]"
  "snd (get_faqs w sc t) = t @ [Get (base_url sc @ ''/pages/faq'')]"
  "snd (get_social_handles w pv sc t) = t @ [Get (base_url sc)]"
  "snd (get_contact_details w pv sc t) = t @ [Get (base_url sc @ ''/pages/contact'')]"
  "snd (get_important_links w sc t) = t @ [Get (base_url sc)]"
  by (simp_all add: get_privacy_policy_def get_return_policy_def get_brand_description_def
      get_faqs_def get_social_handles_def get_contact_details_def get_important_links_def
      bind_io_fetch split: option.split)

text \<open>
  C1: a \<open>scrape\<close> that returns issues exactly nine GETs, one after the other, in the
  order of the keyword arguments of \<open>BrandContext\<close>: the catalog JSON, the root, the
  privacy policy, the return policy at the misspelled path \<open>/policies/refunded-policy\<close>,
  the FAQ page, the root again, the contact page, the about page and the root a third time.
\<close>

theorem scrape_requests:
  assumes "scrape w pv sc t = (Inr bc, t')"
  shows "t' = t @ map Get [base_url sc @ ''/products.json'', base_url sc,
      base_url sc @ ''/policies/privacy-policy'', base_url sc @ ''/policies/refunded-policy'',
      base_url sc @ ''/pages/faq'', base_url sc, base_url sc @ ''/pages/contact'',
      base_url sc @ ''/pages/about'', base_url sc]"
  using assms unfolding scrape_def
  by (elim bind_io_InrE)
     (simp add: get_product_catalog_trace get_hero_products_trace io_trace_simps lift_io_def)

lemma mk_brand_context_Inr:
  "mk_brand_context pv su cat hero pp rp fq sh cd bd links = Inr bc \<Longrightarrow>
     v_url pv su = Some (store_url bc) \<and> product_catalog bc = cat \<and> hero_products bc = hero \<and>
     faqs bc = fq \<and> social_handles bc = sh \<and> contact_details bc = cd \<and>
     map fst (important_links bc) = map fst links"
  by (auto simp: mk_brand_context_def split: option.splits if_splits)

text \<open>
  C2: when \<open>scrape\<close> returns, the store URL of the record is the validated form of
  the input with its trailing slashes removed.
\<close>

theorem scrape_store_url:
  assumes "scrape w pv (new_scraper u) t = (Inr bc, t')"
  shows "v_url pv (py_rstrip ''/'' u) = Some (store_url bc)"
  using assms unfolding scrape_def
  by (fastforce dest!: bind_io_Inr_D mk_brand_context_Inr simp: new_scraper_def)

text \<open>
  C4: when the catalog is read from a \<open>products\<close> array, it has one product per entry of
  the array: no entry is skipped or duplicated.
\<close>

theorem get_product_catalog_length:
  assumes "get_product_catalog w pv sc t = (Inr ps, t')"
    and "w (base_url sc @ ''/products.json'') = Some r" and "\<not> http_error (status_code r)"
    and "json_body r = Some (JObj kvs)" and "map_of kvs ''products'' = Some (JArr items)"
  shows "length ps = length items"
  using assms
  by (auto simp: get_product_catalog_def catalog_items_def Let_def dest: map_res_length)

text \<open>
  C5: a transport failure, an HTTP error status or a body that is not JSON makes the
  catalog empty, without an exception, after exactly one request.
\<close>

theorem get_product_catalog_degrades:
  assumes "w (base_url sc @ ''/products.json'') = None \<or>
    (\<exists>r. w (base_url sc @ ''/products.json'') = Some r \<and>
         (http_error (status_code r) \<or> json_body r = None))"
  shows "get_product_catalog w pv sc t = (Inr [], t @ [Get (base_url sc @ ''/products.json'')])"
  using assms by (auto simp: get_product_catalog_def Let_def)

lemma catalog_item_empty_variants:
  "map_of kvs ''variants'' = Some (JArr []) \<Longrightarrow> catalog_item pv base (JObj kvs) = Inl IndexError"
  by (simp add: catalog_item_def)

text \<open>
  C6: an item whose \<open>variants\<close> is an empty list raises \<open>IndexError\<close> at
  \<open>[0]\<close>, and the exception escapes \<open>get_product_catalog\<close> (only
  \<open>RequestException\<close> is caught): one such item, after items that convert, fails the
  whole catalog.
\<close>

theorem get_product_catalog_empty_variants:
  assumes "w (base_url sc @ ''/products.json'') = Some r" and "\<not> http_error (status_code r)"
    and "json_body r = Some (JObj kvs)" and "map_of kvs ''products'' = Some (JArr (pre @ JObj ikvs # post))"
    and "map_of ikvs ''variants'' = Some (JArr [])"
    and "\<forall>it \<in> set pre. \<exists>p. catalog_item pv (base_url sc) it = Inr p"
  shows "fst (get_product_catalog w pv sc t) = Inl IndexError"
  using assms
  by (simp add: get_product_catalog_def catalog_items_def Let_def map_res_Inl_first
      catalog_item_empty_variants)

definition faq_complete :: "node \<Rightarrow> bool" where
  "faq_complete it \<longleftrightarrow>
     select_one sel_faq_question (children it) \<noteq> None \<and> select_one sel_faq_answer (children it) \<noteq> None"

lemma faq_complete_iff: "faq_complete it \<longleftrightarrow> (\<exists>f. faq_of it = Some f)"
  by (auto simp: faq_of_def faq_complete_def split: option.splits)

text \<open>
  C7: a FAQ page yields one FAQ per container that has both a question and an answer
  element; a container missing either contributes nothing.
\<close>

theorem get_faqs_complete_only:
  assumes "page_at w (base_url sc @ ''/pages/faq'') = Some d"
  shows "\<exists>fs. get_faqs w sc t = (Inr fs, t @ [Get (base_url sc @ ''/pages/faq'')]) \<and>
           length fs = length (filter faq_complete (select sel_faq_item d)) \<and>
           (\<forall>f \<in> set fs. \<exists>it \<in> set (select sel_faq_item d). faq_complete it \<and> faq_of it = Some f)"
proof -
  have "\<forall>f \<in> set (List.map_filter faq_of xs). \<exists>it \<in> set xs. faq_complete it \<and> faq_of it = Some f"
    for xs
    by (auto simp: map_filter_def faq_complete_iff)
  moreover have "length (List.map_filter faq_of xs) = length (filter faq_complete xs)" for xs
  proof -
    have "(\<lambda>x. faq_of x \<noteq> None) = faq_complete" by (auto simp: fun_eq_iff faq_complete_iff)
    then show ?thesis by (simp add: map_filter_def)
  qed
  ultimately show ?thesis
    using assms by (simp add: get_faqs_def bind_io_fetch)
qed

text \<open>The dictionary the links loop fills keeps distinct keys from the allow-list.\<close>

lemma links_loop_keys:
  "links_loop base ls acc = Inr d \<Longrightarrow> distinct (map fst acc) \<Longrightarrow>
     set (map fst acc) \<subseteq> set link_names \<Longrightarrow>
     distinct (map fst d) \<and> set (map fst d) \<subseteq> set link_names"
proof (induction ls arbitrary: acc)
  case (Cons l ls)
  show ?case
  proof (cases "link_label l \<in> set link_names")
    case True
    with Cons.prems(1) obtain h u where
      rec: "links_loop base ls (dict_set acc (link_label l) u) = Inr d"
      by (auto simp: Let_def split: sum.splits)
    have "distinct (map fst (dict_set acc (link_label l) u))"
      using Cons.prems(2) by (rule distinct_dict_set)
    moreover have "set (map fst (dict_set acc (link_label l) u)) \<subseteq> set link_names"
      using Cons.prems(3) True by (auto split: if_splits)
    ultimately show ?thesis using rec by (rule Cons.IH [rotated])
  next
    case False
    with Cons.prems(1) have "links_loop base ls acc = Inr d" by (simp add: Let_def)
    then show ?thesis using Cons.prems(2,3) by (rule Cons.IH)
  qed
qed simp

text \<open>
  C8: the important-links dictionary has distinct keys, all from the allow-list
  \<open>order tracking\<close>, \<open>contact us\<close>, \<open>blogs\<close>, so at most three entries.
\<close>

theorem get_important_links_keys:
  assumes "get_important_links w sc t = (Inr links, t')"
  shows "distinct (map fst links) \<and> set (map fst links) \<subseteq> set link_names \<and> length links \<le> 3"
proof -
  from assms have "links = [] \<or> (\<exists>d. links_loop (base_url sc) (select sel_links d) [] = Inr links)"
    by (auto simp: get_important_links_def bind_io_fetch split: option.splits)
  then have dk: "distinct (map fst links) \<and> set (map fst links) \<subseteq> set link_names"
  proof (elim disjE exE)
    fix d assume "links_loop (base_url sc) (select sel_links d) [] = Inr links"
    then show ?thesis by (rule links_loop_keys) simp_all
  qed simp
  then have "card (set (map fst links)) \<le> card (set link_names)"
    by (simp add: card_mono)
  also have "\<dots> = 3" by (simp add: link_names_def)
  finally show ?thesis using dk distinct_card [of "map fst links"] by simp
qed

lemma links_loop_last:
  "links_loop base ls acc = Inr d \<Longrightarrow> map_of d k = Some u \<Longrightarrow>
     (\<exists>pre l post h. ls = pre @ l # post \<and> link_label l = k \<and> node_attr l ''href'' = Inr h \<and>
        urljoin base h = Inr u \<and> (\<forall>l' \<in> set post. link_label l' \<noteq> k)) \<or>
     (map_of acc k = Some u \<and> (\<forall>l' \<in> set ls. link_label l' = k \<longrightarrow> k \<notin> set link_names))"
proof (induction ls arbitrary: acc)
  case Nil
  then show ?case by simp
next
  case (Cons l ls)
  show ?case
  proof (cases "link_label l \<in> set link_names")
    case True
    with Cons.prems(1) obtain h u0 where h: "node_attr l ''href'' = Inr h" and j: "urljoin base h = Inr u0"
      and rec: "links_loop base ls (dict_set acc (link_label l) u0) = Inr d"
      by (auto simp: Let_def split: sum.splits)
    from Cons.IH [OF rec Cons.prems(2)] show ?thesis
    proof (elim disjE exE conjE)
      fix pre l' post h'
      assume "ls = pre @ l' # post" "link_label l' = k" "node_attr l' ''href'' = Inr h'"
        "urljoin base h' = Inr u" "\<forall>l'' \<in> set post. link_label l'' \<noteq> k"
      moreover from \<open>ls = pre @ l' # post\<close> have "l # ls = (l # pre) @ l' # post" by simp
      ultimately show ?thesis by blast
    next
      assume m: "map_of (dict_set acc (link_label l) u0) k = Some u"
        and none: "\<forall>l' \<in> set ls. link_label l' = k \<longrightarrow> k \<notin> set link_names"
      show ?thesis
      proof (cases "k = link_label l")
        case True
        with m have "u = u0" by simp
        with True h j none \<open>link_label l \<in> set link_names\<close> show ?thesis
          by (metis append_Nil)
      next
        case False
        with m none show ?thesis by auto
      qed
    qed
  next
    case False
    with Cons.prems(1) have rec: "links_loop base ls acc = Inr d" by (simp add: Let_def)
    from Cons.IH [OF rec Cons.prems(2)] show ?thesis
    proof (elim disjE exE conjE)
      fix pre l' post h'
      assume "ls = pre @ l' # post" "link_label l' = k" "node_attr l' ''href'' = Inr h'"
        "urljoin base h' = Inr u" "\<forall>l'' \<in> set post. link_label l'' \<noteq> k"
      moreover from \<open>ls = pre @ l' # post\<close> have "l # ls = (l # pre) @ l' # post" by simp
      ultimately show ?thesis by blast
    next
      assume "map_of acc k = Some u" "\<forall>l' \<in> set ls. link_label l' = k \<longrightarrow> k \<notin> set link_names"
      with False show ?thesis by auto
    qed
  qed
qed

text \<open>
  C9: the URL stored under a label is the resolved \<open>href\<close> of the last selected anchor
  with that label: a later anchor with the same label overwrites an earlier one.
\<close>

theorem important_links_last_wins:
  assumes "links_loop base ls [] = Inr d" and "map_of d k = Some u"
  shows "\<exists>pre l post h. ls = pre @ l # post \<and> link_label l = k \<and> node_attr l ''href'' = Inr h \<and>
           urljoin base h = Inr u \<and> (\<forall>l' \<in> set post. link_label l' \<noteq> k)"
  using links_loop_last [OF assms] by simp

text \<open>
  C11: when the root page is fetched and the hero products convert, there is one product
  per matched card: a card missing a title, a price or a link is not skipped.
\<close>

theorem get_hero_products_count:
  assumes "page_at w (base_url sc) = Some d" and "get_hero_products w pv sc t = (Inr ps, t')"
  shows "length ps = length (select sel_product_card d)"
  using assms by (auto simp: get_hero_products_def bind_io_fetch dest: map_res_length)

lemma phone_match_shape:
  assumes "matches phone_re s a b"
  shows "(length (span s a b) = 10 \<and> (\<forall>c \<in> set (span s a b). is_ascii_digit c)) \<or>
         (\<exists>d1 sp d2. span s a b = CHR ''+'' # d1 @ sp @ d2 \<and>
            1 \<le> length d1 \<and> length d1 \<le> 3 \<and> length sp \<le> 1 \<and> length d2 = 10 \<and>
            (\<forall>c \<in> set d1. is_ascii_digit c) \<and> (\<forall>c \<in> set sp. py_isspace c) \<and>
            (\<forall>c \<in> set d2. is_ascii_digit c))"
  using assms unfolding phone_re_def
proof (rule matches_AltE)
  assume "matches (Seq WordB (Seq (Rep is_ascii_digit 10 (Some 10)) WordB)) s a b"
  then obtain j1 where w1: "matches WordB s a j1"
    and m1: "matches (Seq (Rep is_ascii_digit 10 (Some 10)) WordB) s j1 b"
    and sp1: "span s a b = span s a j1 @ span s j1 b"
    by (rule matches_Seq_spanE)
  from m1 obtain j2 where r: "matches (Rep is_ascii_digit 10 (Some 10)) s j1 j2"
    and w2: "matches WordB s j2 b" and sp2: "span s j1 b = span s j1 j2 @ span s j2 b"
    by (rule matches_Seq_spanE)
  note sp = sp1 sp2
  from w1 w2 have "j1 = a" "b = j2" by (simp_all add: matches_WordB_eq)
  with sp matches_Rep_span [OF r] show ?thesis by simp
next
  assume "matches (Seq (Cls (\<lambda>c. c = CHR ''+''))
         (Seq (Rep is_ascii_digit 1 (Some 3))
           (Seq (Rep py_isspace 0 (Some 1)) (Seq (Rep is_ascii_digit 10 (Some 10)) WordB)))) s a b"
  then obtain j1 where c: "matches (Cls (\<lambda>c. c = CHR ''+'')) s a j1"
    and m1: "matches (Seq (Rep is_ascii_digit 1 (Some 3))
           (Seq (Rep py_isspace 0 (Some 1)) (Seq (Rep is_ascii_digit 10 (Some 10)) WordB))) s j1 b"
    and sp1: "span s a b = span s a j1 @ span s j1 b"
    by (rule matches_Seq_spanE)
  from m1 obtain j2 where r1: "matches (Rep is_ascii_digit 1 (Some 3)) s j1 j2"
    and m2: "matches (Seq (Rep py_isspace 0 (Some 1)) (Seq (Rep is_ascii_digit 10 (Some 10)) WordB)) s j2 b"
    and sp2: "span s j1 b = span s j1 j2 @ span s j2 b"
    by (rule matches_Seq_spanE)
  from m2 obtain j3 where r2: "matches (Rep py_isspace 0 (Some 1)) s j2 j3"
    and m3: "matches (Seq (Rep is_ascii_digit 10 (Some 10)) WordB) s j3 b"
    and sp3: "span s j2 b = span s j2 j3 @ span s j3 b"
    by (rule matches_Seq_spanE)
  from m3 obtain j4 where r3: "matches (Rep is_ascii_digit 10 (Some 10)) s j3 j4"
    and w: "matches WordB s j4 b" and sp4: "span s j3 b = span s j3 j4 @ span s j4 b"
    by (rule matches_Seq_spanE)
  note sp = sp1 sp2 sp3 sp4
  from w have "b = j4" by (rule matches_WordB_eq)
  moreover have "span s a j1 = [CHR ''+'']"
    using matches_Cls_span [OF c] by (elim conjE) simp
  ultimately have eq: "span s a b = CHR ''+'' # span s j1 j2 @ span s j2 j3 @ span s j3 j4"
    using sp by simp
  from matches_Rep_span [OF r1] matches_Rep_span [OF r2] matches_Rep_span [OF r3]
  have "1 \<le> length (span s j1 j2)" "length (span s j1 j2) \<le> 3" "length (span s j2 j3) \<le> 1"
    "length (span s j3 j4) = 10" "\<forall>c \<in> set (span s j1 j2). is_ascii_digit c"
    "\<forall>c \<in> set (span s j2 j3). py_isspace c" "\<forall>c \<in> set (span s j3 j4). is_ascii_digit c"
    by simp_all
  with eq show ?thesis
    by (intro disjI2 exI [of _ "span s j1 j2"] exI [of _ "span s j2 j3"] exI [of _ "span s j3 j4"]
        conjI) simp_all
qed

text \<open>
  C12: every phone number the contact regex extracts has between 10 and 15 characters,
  each a digit, a plus sign or whitespace.
\<close>

theorem phone_numbers_bounds:
  assumes "p \<in> set (findall phone_re s)"
  shows "10 \<le> length p \<and> length p \<le> 15 \<and>
         (\<forall>c \<in> set p. is_ascii_digit c \<or> c = CHR ''+'' \<or> py_isspace c)"
proof -
  from assms obtain a b where m: "matches phone_re s a b" and p: "p = span s a b"
    by (blast dest: findall_sound)
  from phone_match_shape [OF m] show ?thesis
    unfolding p by (elim disjE exE conjE) auto
qed

text \<open>
  C13: every email the contact regex extracts is a non-empty local part, one \<open>@\<close>,
  a non-empty domain, a dot and a top-level domain of at least two letters.
\<close>

theorem emails_shape:
  assumes "e \<in> set (findall email_re s)"
  shows "\<exists>l d t. e = l @ CHR ''@'' # d @ CHR ''.'' # t \<and>
            l \<noteq> [] \<and> (\<forall>c \<in> set l. email_local_char c) \<and>
            d \<noteq> [] \<and> (\<forall>c \<in> set d. email_domain_char c) \<and>
            2 \<le> length t \<and> (\<forall>c \<in> set t. is_ascii_alpha c)"
proof -
  from assms obtain a b where m: "matches email_re s a b" and e: "e = span s a b"
    by (blast dest: findall_sound)
  from m obtain j1 where r1: "matches (Rep email_local_char 1 None) s a j1"
    and m1: "matches (Seq (Cls (\<lambda>c. c = CHR ''@'')) (Seq (Rep email_domain_char 1 None)
          (Seq (Cls (\<lambda>c. c = CHR ''.'')) (Rep is_ascii_alpha 2 None)))) s j1 b"
    and sp1: "span s a b = span s a j1 @ span s j1 b"
    unfolding email_re_def by (rule matches_Seq_spanE)
  from m1 obtain j2 where c1: "matches (Cls (\<lambda>c. c = CHR ''@'')) s j1 j2"
    and m2: "matches (Seq (Rep email_domain_char 1 None)
          (Seq (Cls (\<lambda>c. c = CHR ''.'')) (Rep is_ascii_alpha 2 None))) s j2 b"
    and sp2: "span s j1 b = span s j1 j2 @ span s j2 b"
    by (rule matches_Seq_spanE)
  from m2 obtain j3 where r2: "matches (Rep email_domain_char 1 None) s j2 j3"
    and m3: "matches (Seq (Cls (\<lambda>c. c = CHR ''.'')) (Rep is_ascii_alpha 2 None)) s j3 b"
    and sp3: "span s j2 b = span s j2 j3 @ span s j3 b"
    by (rule matches_Seq_spanE)
  from m3 obtain j4 where c2: "matches (Cls (\<lambda>c. c = CHR ''.'')) s j3 j4"
    and r3: "matches (Rep is_ascii_alpha 2 None) s j4 b"
    and sp4: "span s j3 b = span s j3 j4 @ span s j4 b"
    by (rule matches_Seq_spanE)
  note sp = sp1 sp2 sp3 sp4
  have "span s j1 j2 = [CHR ''@'']" "span s j3 j4 = [CHR ''.'']"
    using matches_Cls_span [OF c1] matches_Cls_span [OF c2] by (elim conjE, simp)+
  with sp have eq: "e = span s a j1 @ CHR ''@'' # span s j2 j3 @ CHR ''.'' # span s j4 b"
    unfolding e by simp
  from matches_Rep_span [OF r1] matches_Rep_span [OF r2] matches_Rep_span [OF r3]
  have "span s a j1 \<noteq> []" "\<forall>c \<in> set (span s a j1). email_local_char c"
    "span s j2 j3 \<noteq> []" "\<forall>c \<in> set (span s j2 j3). email_domain_char c"
    "2 \<le> length (span s j4 b)" "\<forall>c \<in> set (span s j4 b). is_ascii_alpha c"
    by (auto simp del: length_greater_0_conv simp: length_greater_0_conv [symmetric])
  with eq show ?thesis
    by (intro exI [of _ "span s a j1"] exI [of _ "span s j2 j3"] exI [of _ "span s j4 b"] conjI)
      simp_all
qed

text \<open>
  The example of the specification: contact extraction over the text
  \<open>reach us at a@b.co or 1234567890\<close> yields exactly the email \<open>a@b.co\<close> and the
  phone number \<open>1234567890\<close>, after one request to the contact page.
\<close>

lemma contact_details_example:
  "get_contact_details
     (\<lambda>u. if u = ''https://s.com/pages/contact''
          then Some \<lparr>status_code = 200, page = [Elem ''p'' [] [Text ''reach us at a@b.co or 1234567890'']], json_body = None\<rparr> else None)
     pyd_example (new_scraper ''https://s.com'') [] =
   (Inr \<lparr>emails = [''a@b.co''], phone_numbers = [''1234567890'']\<rparr>,
    [Get ''https://s.com/pages/contact''])"
  by code_simp

lemma scrape_Inr_social:
  "scrape w pv sc t = (Inr bc, t') \<Longrightarrow>
     \<exists>t1 t2. get_social_handles w pv sc t1 = (Inr (social_handles bc), t2)"
  unfolding scrape_def by (fastforce dest!: bind_io_Inr_D mk_brand_context_Inr)

lemma get_social_handles_links:
  "get_social_handles w pv sc t = (Inr sh, t') \<Longrightarrow> page_at w (base_url sc) = Some d \<Longrightarrow>
     list_all2 (\<lambda>l h. social_of pv l = Inr h) (select sel_social d) sh"
  by (simp add: get_social_handles_def bind_io_fetch map_res_Inr_iff)

lemma social_of_invalid:
  "node_attr l ''href'' = Inr h \<Longrightarrow> v_url pv h = None \<Longrightarrow> social_of pv l = Inl ValidationError"
  by (simp add: social_of_def mk_social_handle_def)

text \<open>
  C3: a store whose root page is reachable makes the whole scrape raise, instead of
  degrading the social handles to an empty list, as soon as one social link of the root
  page has an \<open>href\<close> that \<open>HttpUrl\<close> rejects (a relative or protocol-relative URL, say):
  \<open>SocialHandle(url=link['href'])\<close> validates the raw \<open>href\<close> and nothing catches it.
\<close>

theorem scrape_social_invalid_raises:
  assumes "page_at w (base_url sc) = Some d" and "l \<in> set (select sel_social d)"
    and "node_attr l ''href'' = Inr h" and "v_url pv h = None"
  shows "isl (fst (scrape w pv sc t))"
proof (rule ccontr)
  assume n: "\<not> isl (fst (scrape w pv sc t))"
  obtain r t' where e: "scrape w pv sc t = (r, t')" by fastforce
  with n obtain bc where "scrape w pv sc t = (Inr bc, t')" by (cases r) auto
  from scrape_Inr_social [OF this] obtain t1 t2 where
    "get_social_handles w pv sc t1 = (Inr (social_handles bc), t2)" by blast
  from get_social_handles_links [OF this assms(1)] assms(2) obtain y where "social_of pv l = Inr y"
    by (auto simp: list_all2_conv_all_nth in_set_conv_nth)
  with social_of_invalid [OF assms(3,4)] show False by simp
qed

lemma classify_platform_cases:
  "classify_platform h \<in> {''instagram'', ''facebook'', ''tiktok''}"
  by (simp add: classify_platform_def)

lemma social_of_Inr:
  "social_of pv l = Inr h \<Longrightarrow>
     \<exists>u. v_url pv u = Some (handle_url h) \<and> platform h = classify_platform u"
  by (auto simp: social_of_def mk_social_handle_def split: sum.splits option.splits) blast

lemma get_social_handles_Inr:
  assumes "get_social_handles w pv sc t = (Inr sh, t')" and "h \<in> set sh"
  shows "\<exists>u. v_url pv u = Some (handle_url h) \<and> platform h = classify_platform u"
proof -
  from assms(1) have "sh = [] \<or> (\<exists>d. map_res (social_of pv) (select sel_social d) = Inr sh)"
    by (auto simp: get_social_handles_def bind_io_fetch split: option.splits)
  with assms(2) obtain d where "map_res (social_of pv) (select sel_social d) = Inr sh"
    by auto
  then have "list_all2 (\<lambda>x y. social_of pv x = Inr y) (select sel_social d) sh"
    by (simp add: map_res_Inr_iff)
  with assms(2) obtain l where "social_of pv l = Inr h"
    by (auto simp: list_all2_conv_all_nth in_set_conv_nth)
  then show ?thesis by (rule social_of_Inr)
qed

text \<open>
  C31: the social handles of a context \<open>scrape\<close> returns are well typed: each platform
  is one of the three names the classifier produces, and each URL is the value
  \<open>HttpUrl\<close> validation gave for an \<open>href\<close> classified as that platform.
\<close>

theorem scrape_social_handles_typed:
  assumes "scrape w pv sc t = (Inr bc, t')"
  shows "\<forall>h \<in> set (social_handles bc). platform h \<in> {''instagram'', ''facebook'', ''tiktok''} \<and>
           (\<exists>u. v_url pv u = Some (handle_url h) \<and> platform h = classify_platform u)"
proof -
  from assms obtain sh t1 t2 where sh: "get_social_handles w pv sc t1 = (Inr sh, t2)"
    and eq: "social_handles bc = sh"
    unfolding scrape_def by (fastforce dest!: bind_io_Inr_D mk_brand_context_Inr)
  show ?thesis
    using get_social_handles_Inr [OF sh] classify_platform_cases eq by metis
qed

text \<open>
  C10: the social handles of a returned context are, in order, one per social link of
  the root page, each with the validated \<open>href\<close> as its URL; a link to \<open>facebook.com\<close>
  (and not to \<open>instagram.com\<close>) is labelled \<open>tiktok\<close> unless its \<open>href\<close> contains the
  literal \<open>facebook Xcom\<close> the source tests for, so no ordinary Facebook URL is
  classified \<open>facebook\<close>.
\<close>

theorem scrape_facebook_links_tiktok:
  assumes "scrape w pv sc t = (Inr bc, t')" and "page_at w (base_url sc) = Some d"
  shows "list_all2 (\<lambda>l sh. \<exists>h. node_attr l ''href'' = Inr h \<and> v_url pv h = Some (handle_url sh) \<and>
      (py_contains h ''facebook.com'' \<and> \<not> py_contains h ''instagram.com'' \<and>
       \<not> py_contains h ''facebook Xcom'' \<longrightarrow> platform sh = ''tiktok''))
    (select sel_social d) (social_handles bc)"
proof -
  from scrape_Inr_social [OF assms(1)] obtain t1 t2 where
    "get_social_handles w pv sc t1 = (Inr (social_handles bc), t2)" by blast
  from get_social_handles_links [OF this assms(2)] show ?thesis
    by (rule list_all2_mono)
       (auto simp: social_of_def mk_social_handle_def classify_platform_def
         split: sum.splits option.splits)
qed

section \<open>An example storefront and the witnesses\<close>

text \<open>
  A small store at \<open>https://s.com\<close>: a root page with one product card, two social
  links and two anchors labelled \<open>contact us\<close>, a catalog of two items (the second
  without \<open>variants\<close>), a FAQ page with one complete and one partial container, a
  missing about page (404) and no other page.
\<close>

definition demo_root :: doc where
  "demo_root =
     [Elem ''div'' [(''class'', ''product-card'')]
        [Elem ''h3'' [] [Text '' Shirt ''], Elem ''span'' [(''class'', ''price'')] [Text ''$5''],
         Elem ''a'' [(''href'', ''/products/shirt'')] [Text ''view'']],
      Elem ''a'' [(''href'', ''https://instagram.com/shop'')] [Text ''ig''],
      Elem ''a'' [(''href'', ''https://facebook.com/shop'')] [Text ''fb''],
      Elem ''a'' [(''href'', ''/pages/contact'')] [Text '' Contact Us ''],
      Elem ''a'' [(''href'', ''/pages/contact-form'')] [Text ''contact us'']]"

definition demo_faq :: doc where
  "demo_faq =
     [Elem ''div'' [(''class'', ''faq-item'')]
        [Elem ''h4'' [(''class'', ''faq-question'')] [Text ''Ship?''],
         Elem ''p'' [(''class'', ''faq-answer'')] [Text '' Yes. '']],
      Elem ''div'' [(''class'', ''accordion'')]
        [Elem ''h4'' [(''class'', ''accordion-title'')] [Text ''Returns?'']]]"

definition demo_items :: "json list" where
  "demo_items =
     [JObj [(''id'', JInt 7), (''title'', JStr ''Shirt''),
            (''variants'', JArr [JObj [(''price'', JStr ''5.00'')]]), (''handle'', JStr ''shirt'')],
      JObj [(''id'', JInt 8), (''title'', JStr ''Hat''), (''handle'', JStr ''hat'')]]"

definition demo_products :: json where
  "demo_products = JObj [(''products'', JArr demo_items)]"

definition demo_web :: web where
  "demo_web u =
     (if u = ''https://s.com'' then Some \<lparr>status_code = 200, page = demo_root, json_body = None\<rparr>
      else if u = ''https://s.com/products.json''
      then Some \<lparr>status_code = 200, page = [], json_body = Some demo_products\<rparr>
      else if u = ''https://s.com/pages/faq''
      then Some \<lparr>status_code = 200, page = demo_faq, json_body = None\<rparr>
      else if u = ''https://s.com/pages/about''
      then Some \<lparr>status_code = 404, page = [], json_body = None\<rparr>
      else None)"

text \<open>A store whose only social link is protocol-relative.\<close>

definition relative_social_web :: web where
  "relative_social_web u =
     (if u = ''https://s.com''
      then Some \<lparr>status_code = 200,
                 page = [Elem ''a'' [(''href'', ''//instagram.com/shop'')] [Text ''ig'']], json_body = None\<rparr>
      else None)"

lemma res_Inr_pair: "\<not> isl (fst p) \<Longrightarrow> p = (Inr (projr (fst p)), snd p)"
  by (cases p, rename_tac r t, case_tac r) simp_all

lemma demo_base: "base_url (new_scraper ''https://s.com'') = ''https://s.com''"
  by (simp add: new_scraper_def py_rstrip_def)

theorem scrape_requests_witness:
  "\<not> isl (fst (scrape demo_web pyd_example (new_scraper ''https://s.com'') [])) \<and>
   snd (scrape demo_web pyd_example (new_scraper ''https://s.com'') []) =
     map Get [''https://s.com/products.json'', ''https://s.com'',
       ''https://s.com/policies/privacy-policy'', ''https://s.com/policies/refunded-policy'',
       ''https://s.com/pages/faq'', ''https://s.com'', ''https://s.com/pages/contact'',
       ''https://s.com/pages/about'', ''https://s.com'']"
proof -
  have h: "\<not> isl (fst (scrape demo_web pyd_example (new_scraper ''https://s.com'') []))"
    by code_simp
  from scrape_requests [OF res_Inr_pair [OF h]] h show ?thesis by (simp add: demo_base)
qed

theorem scrape_store_url_witness:
  "\<not> isl (fst (scrape demo_web pyd_example (new_scraper ''https://s.com/'') [])) \<and>
   v_url pyd_example (py_rstrip ''/'' ''https://s.com/'') =
     Some (store_url (projr (fst (scrape demo_web pyd_example (new_scraper ''https://s.com/'') []))))"
proof -
  have h: "\<not> isl (fst (scrape demo_web pyd_example (new_scraper ''https://s.com/'') []))"
    by code_simp
  from scrape_store_url [OF res_Inr_pair [OF h]] h show ?thesis by simp
qed

theorem get_product_catalog_length_witness:
  "length (projr (fst (get_product_catalog demo_web pyd_example (new_scraper ''https://s.com'') []))) = 2"
proof -
  let ?p = "get_product_catalog demo_web pyd_example (new_scraper ''https://s.com'') []"
  have h: "\<not> isl (fst ?p)" by code_simp
  have "length (projr (fst ?p)) = length demo_items"
    by (rule get_product_catalog_length [OF res_Inr_pair [OF h],
          where r = "\<lparr>status_code = 200, page = [], json_body = Some demo_products\<rparr>"
            and kvs = "[(''products'', JArr demo_items)]" and items = demo_items])
       (simp_all add: demo_base demo_web_def http_error_def demo_products_def)
  then show ?thesis by (simp add: demo_items_def)
qed

theorem get_product_catalog_degrades_witness:
  "get_product_catalog (\<lambda>u. None) pyd_example (new_scraper ''https://s.com'') [] =
     (Inr [], [Get ''https://s.com/products.json''])"
  using get_product_catalog_degrades [where w = "\<lambda>u. None" and sc = "new_scraper ''https://s.com''"
      and pv = pyd_example and t = "[]"]
  by (simp add: demo_base)

theorem get_product_catalog_empty_variants_witness:
  "fst (get_product_catalog
     (\<lambda>u. Some \<lparr>status_code = 200, page = [],
        json_body = Some (JObj [(''products'', JArr [JObj [(''variants'', JArr [])]])])\<rparr>)
     pyd_example (new_scraper ''https://s.com'') []) = Inl IndexError"
  by (rule get_product_catalog_empty_variants [where pre = "[]" and post = "[]"
        and ikvs = "[(''variants'', JArr [])]" and kvs = "[(''products'', JArr [JObj [(''variants'', JArr [])]])]"
        and r = "\<lparr>status_code = 200, page = [],
          json_body = Some (JObj [(''products'', JArr [JObj [(''variants'', JArr [])]])])\<rparr>"])
     (simp_all add: http_error_def)

theorem get_faqs_complete_only_witness:
  "length (filter faq_complete (select sel_faq_item demo_faq)) = 1 \<and>
   (\<exists>fs. get_faqs demo_web (new_scraper ''https://s.com'') [] =
          (Inr fs, [Get ''https://s.com/pages/faq'']) \<and>
        length fs = length (filter faq_complete (select sel_faq_item demo_faq)) \<and>
        (\<forall>f \<in> set fs. \<exists>it \<in> set (select sel_faq_item demo_faq). faq_complete it \<and> faq_of it = Some f))"
proof -
  have p: "page_at demo_web (base_url (new_scraper ''https://s.com'') @ ''/pages/faq'') = Some demo_faq"
    by (simp add: demo_base demo_web_def page_at_def http_error_def)
  have one: "length (filter faq_complete (select sel_faq_item demo_faq)) = 1"
    by code_simp
  from get_faqs_complete_only [OF p, where t = "[]"] one show ?thesis by (simp add: demo_base)
qed

theorem get_important_links_keys_witness:
  "\<not> isl (fst (get_important_links demo_web (new_scraper ''https://s.com'') [])) \<and>
   length (projr (fst (get_important_links demo_web (new_scraper ''https://s.com'') []))) \<le> 3"
proof -
  have h: "\<not> isl (fst (get_important_links demo_web (new_scraper ''https://s.com'') []))"
    by code_simp
  from get_important_links_keys [OF res_Inr_pair [OF h]] h show ?thesis by simp
qed

theorem important_links_last_wins_witness:
  "map_of (projr (links_loop ''https://s.com'' (select sel_links demo_root) [])) ''contact us'' =
     Some ''https://s.com/pages/contact-form'' \<and>
   (\<exists>pre l post h. select sel_links demo_root = pre @ l # post \<and> link_label l = ''contact us'' \<and>
      node_attr l ''href'' = Inr h \<and> urljoin ''https://s.com'' h = Inr ''https://s.com/pages/contact-form'' \<and>
      (\<forall>l' \<in> set post. link_label l' \<noteq> ''contact us''))"
proof -
  have h: "\<not> isl (links_loop ''https://s.com'' (select sel_links demo_root) [])" by code_simp
  have m: "map_of (projr (links_loop ''https://s.com'' (select sel_links demo_root) [])) ''contact us'' =
     Some ''https://s.com/pages/contact-form''" by code_simp
  have e: "links_loop ''https://s.com'' (select sel_links demo_root) [] =
      Inr (projr (links_loop ''https://s.com'' (select sel_links demo_root) []))"
    using h by (cases "links_loop ''https://s.com'' (select sel_links demo_root) []") simp_all
  from important_links_last_wins [OF e m] m show ?thesis by simp
qed

theorem get_hero_products_count_witness:
  "length (projr (fst (get_hero_products demo_web pyd_example (new_scraper ''https://s.com'') []))) = 1"
proof -
  let ?p = "get_hero_products demo_web pyd_example (new_scraper ''https://s.com'') []"
  have h: "\<not> isl (fst ?p)" by code_simp
  have pg: "page_at demo_web (base_url (new_scraper ''https://s.com'')) = Some demo_root"
    by (simp add: demo_base demo_web_def page_at_def http_error_def)
  have c: "length (select sel_product_card demo_root) = 1" by code_simp
  from get_hero_products_count [OF pg res_Inr_pair [OF h]] c show ?thesis by simp
qed

theorem phone_numbers_bounds_witness:
  "''+91 9876543210'' \<in> set (findall phone_re ''call +91 9876543210'') \<and>
   10 \<le> length ''+91 9876543210'' \<and> length ''+91 9876543210'' \<le> 15"
proof -
  have h: "''+91 9876543210'' \<in> set (findall phone_re ''call +91 9876543210'')" by code_simp
  from phone_numbers_bounds [OF h] h show ?thesis by simp
qed

theorem emails_shape_witness:
  "''a@b.co'' \<in> set (findall email_re ''mail a@b.co now'') \<and>
   (\<exists>l d t. ''a@b.co'' = l @ CHR ''@'' # d @ CHR ''.'' # t \<and> 2 \<le> length t)"
proof -
  have h: "''a@b.co'' \<in> set (findall email_re ''mail a@b.co now'')" by code_simp
  from emails_shape [OF h] h show ?thesis by blast
qed

theorem scrape_social_handles_typed_witness:
  "social_handles (projr (fst (scrape demo_web pyd_example (new_scraper ''https://s.com'') []))) =
     [\<lparr>platform = ''instagram'', handle_url = ''https://instagram.com/shop''\<rparr>,
      \<lparr>platform = ''tiktok'', handle_url = ''https://facebook.com/shop''\<rparr>] \<and>
   (\<exists>u. v_url pyd_example u = Some ''https://facebook.com/shop'' \<and> classify_platform u = ''tiktok'')"
proof -
  have h: "\<not> isl (fst (scrape demo_web pyd_example (new_scraper ''https://s.com'') []))"
    by code_simp
  have s: "social_handles (projr (fst (scrape demo_web pyd_example (new_scraper ''https://s.com'') []))) =
     [\<lparr>platform = ''instagram'', handle_url = ''https://instagram.com/shop''\<rparr>,
      \<lparr>platform = ''tiktok'', handle_url = ''https://facebook.com/shop''\<rparr>]"
    by code_simp
  from scrape_social_handles_typed [OF res_Inr_pair [OF h]] s show ?thesis by (simp add: eq_commute)
qed

theorem scrape_facebook_links_tiktok_witness:
  "platform (social_handles (projr (fst (scrape demo_web pyd_example (new_scraper ''https://s.com'') []))) ! 1) =
     ''tiktok'' \<and>
   handle_url (social_handles (projr (fst (scrape demo_web pyd_example (new_scraper ''https://s.com'') []))) ! 1) =
     ''https://facebook.com/shop''"
proof -
  have h: "\<not> isl (fst (scrape demo_web pyd_example (new_scraper ''https://s.com'') []))"
    by code_simp
  have p: "page_at demo_web (base_url (new_scraper ''https://s.com'')) = Some demo_root"
    by (simp add: demo_base page_at_def demo_web_def http_error_def)
  have sel: "select sel_social demo_root =
      [Elem ''a'' [(''href'', ''https://instagram.com/shop'')] [Text ''ig''],
       Elem ''a'' [(''href'', ''https://facebook.com/shop'')] [Text ''fb'']]"
    by code_simp
  have c: "py_contains ''https://facebook.com/shop'' ''facebook.com'' \<and>
      \<not> py_contains ''https://facebook.com/shop'' ''instagram.com'' \<and>
      \<not> py_contains ''https://facebook.com/shop'' ''facebook Xcom''"
    by code_simp
  have v: "v_url pyd_example ''https://facebook.com/shop'' = Some ''https://facebook.com/shop''"
    by code_simp
  let ?sh = "social_handles (projr (fst (scrape demo_web pyd_example (new_scraper ''https://s.com'') []))) ! 1"
  let ?l = "Elem ''a'' [(''href'', ''https://facebook.com/shop'')] [Text ''fb'']"
  have n: "node_attr ?l ''href'' = Inr ''https://facebook.com/shop''" by (simp add: attr_def)
  from list_all2_nthD [OF scrape_facebook_links_tiktok [OF res_Inr_pair [OF h] p], of 1] sel
  obtain x where x: "node_attr ?l ''href'' = Inr x" and vx: "v_url pyd_example x = Some (handle_url ?sh)"
    and imp: "py_contains x ''facebook.com'' \<and> \<not> py_contains x ''instagram.com'' \<and>
        \<not> py_contains x ''facebook Xcom'' \<longrightarrow> platform ?sh = ''tiktok''"
    by auto
  from x n have hx: "x = ''https://facebook.com/shop''" by simp
  from imp c have "platform ?sh = ''tiktok''" unfolding hx by blast
  moreover from vx v have "handle_url ?sh = ''https://facebook.com/shop''" unfolding hx by simp
  ultimately show ?thesis by simp
qed

theorem scrape_social_invalid_raises_witness:
  "isl (fst (scrape relative_social_web pyd_example (new_scraper ''https://s.com'') []))"
proof -
  have p: "page_at relative_social_web (base_url (new_scraper ''https://s.com'')) =
      Some [Elem ''a'' [(''href'', ''//instagram.com/shop'')] [Text ''ig'']]"
    by (simp add: demo_base page_at_def relative_social_web_def http_error_def)
  have l: "Elem ''a'' [(''href'', ''//instagram.com/shop'')] [Text ''ig''] \<in>
      set (select sel_social [Elem ''a'' [(''href'', ''//instagram.com/shop'')] [Text ''ig'']])"
    by code_simp
  have v: "v_url pyd_example ''//instagram.com/shop'' = None"
    by code_simp
  show ?thesis
    by (rule scrape_social_invalid_raises [OF p l _ v]) (simp add: attr_def)
qed

end
