(* ===== verification/Competitor.thy ===== *)
theory Competitor
  imports Scraper
begin

text \<open>
  \<open>fetch_competitors\<close> of \<open>src/competitor.py\<close>: one search request through \<open>aiohttp\<close>
  (a transport error raises \<open>aiohttp.ClientError\<close>, which is not caught; the status is
  not checked with \<open>raise_for_status\<close>, only compared with 200), the first three
  result links that mention \<open>.myshopify.com\<close>, of which those starting with \<open>http\<close> are
  scraped one after the other with \<open>ShopifyScraper(url).scrape()\<close>, each followed by
  \<open>asyncio.sleep(1)\<close>.  The search URL is built with \<open>urllib.parse.quote\<close>, modelled
  from CPython 3.11 (UTF-8, \<open>safe='/'\<close>).  The sleeps are events of the trace, so the
  order of requests and pauses is part of what is proved.
\<close>

section \<open>\<open>urllib.parse.quote\<close>\<close>

definition quote_safe :: "char \<Rightarrow> bool" where
  "quote_safe c \<longleftrightarrow> is_ascii_alpha c \<or> is_ascii_digit c \<or> c \<in> set ''_.-~/''"

text \<open>The UTF-8 bytes of a Latin-1 character.\<close>

definition utf8_bytes :: "char \<Rightarrow> nat list" where
  "utf8_bytes c =
     (let n = of_char c :: nat in if n < 128 then [n] else [192 + n div 64, 128 + n mod 64])"

definition hex_upper :: "nat \<Rightarrow> char" where
  "hex_upper n = (if n < 10 then char_of (48 + n) else char_of (55 + n))"

definition pct_byte :: "nat \<Rightarrow> string" where
  "pct_byte b = [CHR ''%'', hex_upper (b div 16), hex_upper (b mod 16)]"

definition py_quote :: "string \<Rightarrow> string" where
  "py_quote s = concat (map (\<lambda>c. if quote_safe c then [c] else concat (map pct_byte (utf8_bytes c))) s)"

section \<open>The search\<close>

definition search_url :: "string \<Rightarrow> url" where
  "search_url brand_name =
     ''https://www.google.com/search?q='' @ py_quote (''site:*.myshopify.com '' @ brand_name @ '' competitors'')"

text \<open>\<open>session.get(url)\<close> of \<open>aiohttp\<close>: the response whatever its status.\<close>

definition search_get :: "web \<Rightarrow> url \<Rightarrow> response io" where
  "search_get w u t = ((case w u of None \<Rightarrow> Inl ClientError | Some r \<Rightarrow> Inr r), t @ [Get u])"

definition sel_myshopify :: selector where
  "sel_myshopify = [SelAttrContains ''a'' ''href'' ''.myshopify.com'']"

text \<open>\<open>tag.get(k)\<close>: \<open>None\<close> when the attribute is missing; a text node has no \<open>get\<close>.\<close>

fun node_get :: "node \<Rightarrow> string \<Rightarrow> string option res" where
  "node_get (Elem t as cs) k = Inr (attr as k)"
| "node_get (Text s) k = Inl AttributeError"

text \<open>The loop over \<open>soup.select(...)[:3]\<close>: \<open>href.startswith("http")\<close> on \<open>None\<close> raises.\<close>

fun competitor_urls :: "node list \<Rightarrow> url list res" where
  "competitor_urls [] = Inr []"
| "competitor_urls (l # ls) =
     bind_res (node_get l ''href'') (\<lambda>h.
       case h of None \<Rightarrow> Inl AttributeError
       | Some href \<Rightarrow>
           bind_res (competitor_urls ls) (\<lambda>us. Inr (if py_startswith href ''http'' then href # us else us)))"

definition sleep_io :: "nat \<Rightarrow> unit io" where
  "sleep_io n t = (Inr (), t @ [Sleep n])"

text \<open>The second loop: scrape, then sleep one second; an exception ends the loop.\<close>

fun scrape_all :: "web \<Rightarrow> pyd \<Rightarrow> url list \<Rightarrow> brand_context list io" where
  "scrape_all w pv [] = ret_io []"
| "scrape_all w pv (u # us) =
     bind_io (scrape w pv (new_scraper u)) (\<lambda>bc.
     bind_io (sleep_io 1) (\<lambda>_.
     bind_io (scrape_all w pv us) (\<lambda>bcs. ret_io (bc # bcs))))"

definition fetch_competitors :: "web \<Rightarrow> pyd \<Rightarrow> string \<Rightarrow> url \<Rightarrow> brand_context list io" where
  "fetch_competitors w pv brand_name base =
     bind_io (search_get w (search_url brand_name)) (\<lambda>r.
       if status_code r \<noteq> 200 then ret_io []
       else bind_io (lift_io (competitor_urls (take 3 (select sel_myshopify (page r))))) (\<lambda>urls.
              scrape_all w pv urls))"

section \<open>Requests only\<close>

text \<open>An operation that only issues GETs: its trace extends the trace before by requests.\<close>

definition gets_only :: "'a io \<Rightarrow> bool" where
  "gets_only m \<longleftrightarrow> (\<forall>t. \<exists>us. snd (m t) = t @ map Get us)"

lemma gets_only_one: "(\<And>t. snd (m t) = t @ [Get u]) \<Longrightarrow> gets_only m"
  unfolding gets_only_def by (metis list.simps(8,9))

lemma gets_only_lift [simp]: "gets_only (lift_io r)"
  unfolding gets_only_def lift_io_def by (metis append_Nil2 list.simps(8) snd_conv)

lemma gets_only_bind:
  assumes "gets_only m" and "\<And>x. gets_only (f x)"
  shows "gets_only (bind_io m f)"
  unfolding gets_only_def
proof
  fix t
  obtain us where m: "snd (m t) = t @ map Get us"
    using assms(1) by (auto simp: gets_only_def)
  show "\<exists>vs. snd (bind_io m f t) = t @ map Get vs"
  proof (cases "fst (m t)")
    case (Inl e)
    then show ?thesis using m by (auto simp: bind_io_def split: prod.split)
  next
    case (Inr x)
    obtain vs where "snd (f x (snd (m t))) = snd (m t) @ map Get vs"
      using assms(2) by (auto simp: gets_only_def)
    then show ?thesis using Inr m
      by (auto simp: bind_io_def split: prod.split intro: exI [of _ "us @ vs"])
  qed
qed

lemma gets_only_scrape: "gets_only (scrape w pv sc)"
  unfolding scrape_def
  by (intro gets_only_bind gets_only_lift gets_only_one)
     (simp_all add: get_product_catalog_trace get_hero_products_trace io_trace_simps)

section \<open>The loops\<close>

lemma competitor_urls_length: "competitor_urls ls = Inr us \<Longrightarrow> length us \<le> length ls"
proof (induction ls arbitrary: us)
  case Nil
  then show ?case by simp
next
  case (Cons l ls)
  then show ?case
    by (auto split: option.splits if_splits dest!: Cons.IH)
qed

lemma scrape_all_Inr:
  "scrape_all w pv us t = (Inr bcs, t') \<Longrightarrow>
     length bcs = length us \<and>
     (\<exists>gs. length gs = length us \<and> t' = t @ concat (map (\<lambda>g. map Get g @ [Sleep 1]) gs))"
proof (induction us arbitrary: t bcs t')
  case Nil
  then show ?case by simp
next
  case (Cons u us)
  from Cons.prems obtain bc t1 bcs' t2 t3 where
      s: "scrape w pv (new_scraper u) t = (Inr bc, t1)" and t1: "t1 = snd (scrape w pv (new_scraper u) t)"
    and sl: "t2 = t1 @ [Sleep 1]"
    and r: "scrape_all w pv us t2 = (Inr bcs', t3)" and e: "bcs = bc # bcs'" "t' = t3"
    by (auto simp: sleep_io_def elim!: bind_io_InrE)
  obtain g where g: "t1 = t @ map Get g"
    using gets_only_scrape [of w pv "new_scraper u"] t1 by (auto simp: gets_only_def)
  from Cons.IH [OF r] obtain gs where "length bcs' = length us" "length gs = length us"
      "t3 = t2 @ concat (map (\<lambda>g. map Get g @ [Sleep 1]) gs)"
    by blast
  then show ?case
    using e g sl by (auto intro!: exI [of _ "g # gs"])
qed

lemma fetch_competitors_Inr:
  assumes "fetch_competitors w pv b base t = (Inr bcs, t')"
  shows "length bcs \<le> 3 \<and>
    (\<exists>gs. length gs = length bcs \<and>
       t' = t @ Get (search_url b) # concat (map (\<lambda>g. map Get g @ [Sleep 1]) gs))"
proof -
  from assms obtain r t1 where r: "search_get w (search_url b) t = (Inr r, t1)"
    and t1: "t1 = t @ [Get (search_url b)]"
    and rest: "(if status_code r \<noteq> 200 then ret_io []
       else bind_io (lift_io (competitor_urls (take 3 (select sel_myshopify (page r))))) (\<lambda>urls.
              scrape_all w pv urls)) t1 = (Inr bcs, t')"
    unfolding fetch_competitors_def by (elim bind_io_InrE) (simp add: search_get_def)
  show ?thesis
  proof (cases "status_code r \<noteq> 200")
    case True
    then show ?thesis using rest t1 by auto
  next
    case False
    with rest obtain urls where
        u: "competitor_urls (take 3 (select sel_myshopify (page r))) = Inr urls"
      and s: "scrape_all w pv urls t1 = (Inr bcs, t')"
      by (auto simp: lift_io_def elim!: bind_io_InrE)
    have "length urls \<le> 3"
      using competitor_urls_length [OF u] by simp
    with scrape_all_Inr [OF s] t1 show ?thesis by auto
  qed
qed

text \<open>
  C18: \<open>fetch_competitors\<close> returns at most three brand contexts.
\<close>

theorem fetch_competitors_at_most_three:
  assumes "fetch_competitors w pv b base t = (Inr bcs, t')"
  shows "length bcs \<le> 3"
  using fetch_competitors_Inr [OF assms] by blast

text \<open>
  C19: a \<open>fetch_competitors\<close> that returns has issued the search request, then for each
  competitor its scrape's requests followed by one pause of one second, the last
  competitor included: one sleep per competitor, none before the first and one after
  the last (the specification asks for a pause between successive scrapes only).
\<close>

theorem fetch_competitors_trace:
  assumes "fetch_competitors w pv b base t = (Inr bcs, t')"
  shows "\<exists>gs. length gs = length bcs \<and>
           t' = t @ Get (search_url b) # concat (map (\<lambda>g. map Get g @ [Sleep 1]) gs)"
  using fetch_competitors_Inr [OF assms] by blast

text \<open>
  C20: a search response with a status other than 200 (a 2xx one included) yields no
  competitors, after the search request alone and without a pause.
\<close>

theorem fetch_competitors_not_ok:
  assumes "w (search_url b) = Some r" and "status_code r \<noteq> 200"
  shows "fetch_competitors w pv b base t = (Inr [], t @ [Get (search_url b)])"
  using assms by (simp add: fetch_competitors_def search_get_def bind_io_def)

lemma hex_upper_range: "n < 16 \<Longrightarrow> hex_upper n \<in> set ''%0123456789ABCDEF''"
proof -
  have "list_all (\<lambda>n. hex_upper n \<in> set ''%0123456789ABCDEF'') [0..<16]" by code_simp
  moreover assume "n < 16"
  ultimately show ?thesis by (simp add: list_all_iff)
qed

lemma utf8_bytes_lt: "b \<in> set (utf8_bytes c) \<Longrightarrow> b < 256"
proof -
  have "(of_char c :: nat) < 4 * 64" using nat_of_char_less_256 [of c] by simp
  then have "(of_char c :: nat) div 64 < 4" by (rule less_mult_imp_div_less)
  then show "b \<in> set (utf8_bytes c) \<Longrightarrow> b < 256"
    by (auto simp: utf8_bytes_def Let_def split: if_splits)
qed

lemma py_quote_chars:
  "set (py_quote s) \<subseteq> {c. quote_safe c} \<union> set ''%0123456789ABCDEF''"
proof
  fix c assume "c \<in> set (py_quote s)"
  then obtain x where "x \<in> set s" and c: "c \<in> set (if quote_safe x then [x] else concat (map pct_byte (utf8_bytes x)))"
    unfolding py_quote_def set_concat set_map by blast
  show "c \<in> {c. quote_safe c} \<union> set ''%0123456789ABCDEF''"
  proof (cases "quote_safe x")
    case True
    then show ?thesis using c by simp
  next
    case False
    with c obtain b where b: "b \<in> set (utf8_bytes x)" and cb: "c \<in> set (pct_byte b)" by auto
    from utf8_bytes_lt [OF b] have "b div 16 < 16" "b mod 16 < 16" by simp_all
    then have h: "hex_upper (b div 16) \<in> set ''%0123456789ABCDEF''"
        "hex_upper (b mod 16) \<in> set ''%0123456789ABCDEF''"
      by (simp_all only: hex_upper_range)
    from cb have "c = CHR ''%'' \<or> c = hex_upper (b div 16) \<or> c = hex_upper (b mod 16)"
      by (simp add: pct_byte_def)
    then show ?thesis using h
      by (elim disjE) (simp_all only: Un_iff list.set_intros(1) simp_thms)
  qed
qed

text \<open>
  C21: the search URL is the fixed prefix followed by a query of unreserved characters,
  \<open>/\<close>, \<open>%\<close> and upper-case hex digits only: a brand name cannot add a parameter
  (\<open>&\<close>), a fragment (\<open>#\<close>) or a space to the search request.
\<close>

theorem search_url_query_chars:
  "\<exists>q. search_url b = ''https://www.google.com/search?q='' @ q \<and>
       set q \<subseteq> {c. quote_safe c} \<union> set ''%0123456789ABCDEF''"
  unfolding search_url_def using py_quote_chars by blast

lemma competitor_urls_relative:
  "\<forall>l \<in> set ls. \<exists>h. node_get l ''href'' = Inr (Some h) \<and> \<not> py_startswith h ''http'' \<Longrightarrow>
     competitor_urls ls = Inr []"
  by (induction ls) auto

text \<open>
  C22: the result links are sliced to three before the \<open>http\<close> filter: when the first
  three store links of a 200 search page all have relative \<open>href\<close>s, no competitor is
  scraped, whatever links follow them, and the search is the only request.
\<close>

theorem fetch_competitors_slice_first:
  assumes "w (search_url b) = Some r" and "status_code r = 200"
    and "\<forall>l \<in> set (take 3 (select sel_myshopify (page r))).
           \<exists>h. node_get l ''href'' = Inr (Some h) \<and> \<not> py_startswith h ''http''"
  shows "fetch_competitors w pv b base t = (Inr [], t @ [Get (search_url b)])"
  using assms competitor_urls_relative [OF assms(3)]
  by (simp add: fetch_competitors_def search_get_def lift_io_def)

section \<open>Example\<close>

text \<open>A search result with one absolute store link; the competitor store serves no page.\<close>

definition demo_search_web :: web where
  "demo_search_web u =
     (if u = search_url ''shop''
      then Some \<lparr>status_code = 200, page = [Elem ''a'' [(''href'', ''https://c.myshopify.com'')] []],
                 json_body = None\<rparr>
      else None)"

text \<open>
  A search page whose first three store links are relative and whose two later ones are
  absolute store URLs.
\<close>

definition relative_search_web :: web where
  "relative_search_web u =
     (if u = search_url ''shop'' then Some \<lparr>status_code = 200, page =
        [Elem ''a'' [(''href'', ''/url?q=https://a.myshopify.com'')] [],
         Elem ''a'' [(''href'', ''/url?q=https://b.myshopify.com'')] [],
         Elem ''a'' [(''href'', ''/url?q=https://c.myshopify.com'')] [],
         Elem ''a'' [(''href'', ''https://d.myshopify.com'')] [],
         Elem ''a'' [(''href'', ''https://e.myshopify.com'')] []], json_body = None\<rparr> else None)"

lemma demo_search_ok:
  "\<not> isl (fst (fetch_competitors demo_search_web pyd_example ''shop'' ''https://shop.com'' []))"
  by code_simp

theorem fetch_competitors_at_most_three_witness:
  "\<not> isl (fst (fetch_competitors demo_search_web pyd_example ''shop'' ''https://shop.com'' [])) \<and>
   length (projr (fst (fetch_competitors demo_search_web pyd_example ''shop'' ''https://shop.com'' []))) \<le> 3"
  using fetch_competitors_at_most_three [OF res_Inr_pair [OF demo_search_ok]] demo_search_ok by simp

theorem fetch_competitors_trace_witness:
  "\<not> isl (fst (fetch_competitors demo_search_web pyd_example ''shop'' ''https://shop.com'' [])) \<and>
   (\<exists>gs. length gs = length (projr (fst (fetch_competitors demo_search_web pyd_example ''shop'' ''https://shop.com'' []))) \<and>
      snd (fetch_competitors demo_search_web pyd_example ''shop'' ''https://shop.com'' []) =
        [Get (search_url ''shop'')] @ concat (map (\<lambda>g. map Get g @ [Sleep 1]) gs))"
  using fetch_competitors_trace [OF res_Inr_pair [OF demo_search_ok]] demo_search_ok by simp

theorem fetch_competitors_not_ok_witness:
  "fetch_competitors (\<lambda>u. Some \<lparr>status_code = 204, page = [], json_body = None\<rparr>)
     pyd_example ''shop'' ''https://shop.com'' [] = (Inr [], [Get (search_url ''shop'')])"
  using fetch_competitors_not_ok [where r = "\<lparr>status_code = 204, page = [], json_body = None\<rparr>"
      and t = "[]"] by simp

section \<open>Every candidate is scraped\<close>

lemma bind_io_gets_after:
  assumes "\<And>x. gets_only (f x)"
  shows "\<exists>vs. snd (bind_io m f t) = snd (m t) @ map Get vs"
proof (cases "m t")
  case (Pair r t1)
  show ?thesis
  proof (cases r)
    case (Inl e)
    then show ?thesis using Pair by (auto simp: bind_io_def intro: exI [of _ "[]"])
  next
    case (Inr x)
    then show ?thesis using Pair assms [of x] by (auto simp: bind_io_def gets_only_def)
  qed
qed

lemma scrape_first_request:
  "\<exists>us. snd (scrape w pv sc t) = t @ Get (base_url sc @ ''/products.json'') # map Get us"
proof -
  have "\<exists>vs. snd (scrape w pv sc t) = snd (get_product_catalog w pv sc t) @ map Get vs"
    unfolding scrape_def
    by (rule bind_io_gets_after, intro gets_only_bind gets_only_lift gets_only_one)
       (simp_all add: get_hero_products_trace io_trace_simps)
  then show ?thesis by (simp add: get_product_catalog_trace)
qed

lemma scrape_all_requests:
  "scrape_all w pv us t = (Inr bcs, t') \<Longrightarrow>
     \<forall>u \<in> set us. Get (base_url (new_scraper u) @ ''/products.json'') \<in> set t'"
proof (induction us arbitrary: t bcs t')
  case Nil
  then show ?case by simp
next
  case (Cons u us)
  from Cons.prems obtain bc t1 bcs' t3 where
      t1: "t1 = snd (scrape w pv (new_scraper u) t)"
    and r: "scrape_all w pv us (t1 @ [Sleep 1]) = (Inr bcs', t3)" and e: "t' = t3"
    by (auto simp: sleep_io_def elim!: bind_io_InrE)
  obtain vs where "t1 = t @ Get (base_url (new_scraper u) @ ''/products.json'') # map Get vs"
    using scrape_first_request t1 by blast
  moreover obtain gs where "t3 = (t1 @ [Sleep 1]) @ concat (map (\<lambda>g. map Get g @ [Sleep 1]) gs)"
    using scrape_all_Inr [OF r] by blast
  ultimately have "Get (base_url (new_scraper u) @ ''/products.json'') \<in> set t'"
    using e by simp
  with Cons.IH [OF r] e show ?case by simp
qed

text \<open>
  C29: when the search succeeds with candidate URLs, a returning \<open>fetch_competitors\<close> has
  scraped every candidate: one brand context per candidate, and each candidate's catalog
  requested.
\<close>

theorem fetch_competitors_scrapes_all:
  assumes "w (search_url b) = Some r" and "status_code r = 200"
    and "competitor_urls (take 3 (select sel_myshopify (page r))) = Inr urls"
    and "fetch_competitors w pv b base t = (Inr bcs, t')"
  shows "length bcs = length urls \<and>
         (\<forall>u \<in> set urls. Get (py_rstrip ''/'' u @ ''/products.json'') \<in> set t')"
proof -
  have s: "scrape_all w pv urls (t @ [Get (search_url b)]) = (Inr bcs, t')"
    using assms by (simp add: fetch_competitors_def search_get_def bind_io_def lift_io_def)
  show ?thesis
    using scrape_all_Inr [OF s] scrape_all_requests [OF s] by (simp add: new_scraper_def)
qed

theorem fetch_competitors_slice_first_witness:
  "fetch_competitors relative_search_web pyd_example ''shop'' ''https://shop.com'' [] =
     (Inr [], [Get (search_url ''shop'')])"
proof -
  let ?r = "the (relative_search_web (search_url ''shop''))"
  have r: "relative_search_web (search_url ''shop'') = Some ?r"
    by (simp add: relative_search_web_def)
  have s: "status_code ?r = 200"
    by (simp add: relative_search_web_def)
  have sel: "take 3 (select sel_myshopify (page ?r)) =
      [Elem ''a'' [(''href'', ''/url?q=https://a.myshopify.com'')] [],
       Elem ''a'' [(''href'', ''/url?q=https://b.myshopify.com'')] [],
       Elem ''a'' [(''href'', ''/url?q=https://c.myshopify.com'')] []]"
    by code_simp
  have rel: "\<not> py_startswith ''/url?q=https://a.myshopify.com'' ''http'' \<and>
      \<not> py_startswith ''/url?q=https://b.myshopify.com'' ''http'' \<and>
      \<not> py_startswith ''/url?q=https://c.myshopify.com'' ''http''"
    by code_simp
  have l: "\<forall>l \<in> set (take 3 (select sel_myshopify (page ?r))).
      \<exists>h. node_get l ''href'' = Inr (Some h) \<and> \<not> py_startswith h ''http''"
    unfolding sel using rel by (simp add: attr_def)
  from fetch_competitors_slice_first [where w = relative_search_web, OF r s l] show ?thesis by simp
qed

theorem fetch_competitors_scrapes_all_witness:
  "Get ''https://c.myshopify.com/products.json'' \<in>
     set (snd (fetch_competitors demo_search_web pyd_example ''shop'' ''https://shop.com'' []))"
proof -
  have r: "demo_search_web (search_url ''shop'') = Some \<lparr>status_code = 200,
      page = [Elem ''a'' [(''href'', ''https://c.myshopify.com'')] []], json_body = None\<rparr>"
    by (simp add: demo_search_web_def)
  have u: "competitor_urls (take 3 (select sel_myshopify
      [Elem ''a'' [(''href'', ''https://c.myshopify.com'')] []])) = Inr [''https://c.myshopify.com'']"
    by code_simp
  have "py_rstrip ''/'' ''https://c.myshopify.com'' = ''https://c.myshopify.com''" by code_simp
  with fetch_competitors_scrapes_all [OF r _ _ res_Inr_pair [OF demo_search_ok]] u show ?thesis
    by simp
qed

end
