(* ===== verification/App.thy ===== *)
theory App
  imports Persistence Competitor
begin

text \<open>
  The endpoint \<open>POST /fetch-insights\<close> of \<open>src/main.py\<close>: \<open>fetch_insights\<close> with its
  state, the database session that \<open>get_db\<close> gives it and the trace of requests and
  pauses.  The body raises \<open>HTTPException(401)\<close> when the root page cannot be fetched,
  re-raises any \<open>HTTPException\<close> and turns every other exception into
  \<open>HTTPException(500)\<close>; commits made before an exception stay in the store.  The
  request body is already validated by \<open>URLInput\<close> (FastAPI answers 422 otherwise), so
  the handler receives the validated URL.
\<close>

section \<open>The response model and the handler's state\<close>

record api_response =
  status :: string
  data :: "brand_context option"
  error :: "string option"
  error_code :: "nat option"

record app_state =
  a_session :: session
  a_trace :: trace

type_synonym 'a app = "app_state \<Rightarrow> 'a res \<times> app_state"

definition ret_app :: "'a \<Rightarrow> 'a app" where
  "ret_app x st = (Inr x, st)"

definition raise_app :: "py_exc \<Rightarrow> 'a app" where
  "raise_app e st = (Inl e, st)"

definition bind_app :: "'a app \<Rightarrow> ('a \<Rightarrow> 'b app) \<Rightarrow> 'b app" where
  "bind_app m f st = (case m st of (Inl e, st') \<Rightarrow> (Inl e, st') | (Inr x, st') \<Rightarrow> f x st')"

text \<open>A network operation and a database operation inside the handler.\<close>

definition on_io :: "'a io \<Rightarrow> 'a app" where
  "on_io m st = (case m (a_trace st) of (r, t) \<Rightarrow> (r, st\<lparr>a_trace := t\<rparr>))"

definition on_db :: "'a st \<Rightarrow> 'a app" where
  "on_db m st = (case m (a_session st) of (r, s) \<Rightarrow> (r, st\<lparr>a_session := s\<rparr>))"

section \<open>\<open>fetch_insights\<close>\<close>

text \<open>\<open>for competitor in competitors: save_to_db(db, competitor)\<close>\<close>

fun save_all :: "brand_context list \<Rightarrow> unit app" where
  "save_all [] = ret_app ()"
| "save_all (c # cs) = bind_app (on_db (save_to_db c)) (\<lambda>_. save_all cs)"

text \<open>\<open>input.website_url.host.split(".")[0]\<close>: \<open>split\<close> gives at least one field.\<close>

definition brand_name_of :: "pyd \<Rightarrow> url \<Rightarrow> string" where
  "brand_name_of pv u = hd (split_on CHR ''.'' (url_host pv u))"

text \<open>
  The body of the \<open>try\<close>: \<open>ShopifyScraper(input.website_url)\<close> calls \<open>rstrip\<close> on the
  \<open>HttpUrl\<close>, which only a \<open>str\<close> has; then the pre-check fetch of the URL as given, the
  scrape, the save, the competitors and their saves.
\<close>

definition fetch_insights_body :: "web \<Rightarrow> pyd \<Rightarrow> url \<Rightarrow> api_response app" where
  "fetch_insights_body w pv u =
     bind_app (if url_is_str pv then ret_app (new_scraper u) else raise_app AttributeError) (\<lambda>sc.
     bind_app (on_io (fetch_page w u)) (\<lambda>soup.
       case soup of None \<Rightarrow> raise_app (HTTPException 401)
       | Some d \<Rightarrow>
     bind_app (on_io (scrape w pv sc)) (\<lambda>bc.
     bind_app (on_db (save_to_db bc)) (\<lambda>_.
     bind_app (on_io (fetch_competitors w pv (brand_name_of pv u) u)) (\<lambda>cs.
     bind_app (save_all cs) (\<lambda>_.
       ret_app \<lparr>status = ''success'', data = Some bc, error = None, error_code = None\<rparr>))))))"

text \<open>The two \<open>except\<close> clauses.\<close>

definition fetch_insights :: "web \<Rightarrow> pyd \<Rightarrow> url \<Rightarrow> api_response app" where
  "fetch_insights w pv u st =
     (case fetch_insights_body w pv u st of
        (Inl (HTTPException n), st') \<Rightarrow> (Inl (HTTPException n), st')
      | (Inl e, st') \<Rightarrow> (Inl (HTTPException 500), st')
      | (Inr r, st') \<Rightarrow> (Inr r, st'))"

section \<open>Facts about the handler's combinators\<close>

lemma app_simps [simp]:
  "ret_app x st = (Inr x, st)"
  "raise_app e st = (Inl e, st)"
  "on_io m st = (fst (m (a_trace st)), st\<lparr>a_trace := snd (m (a_trace st))\<rparr>)"
  "on_db md st = (fst (md (a_session st)), st\<lparr>a_session := snd (md (a_session st))\<rparr>)"
  by (simp_all add: ret_app_def raise_app_def on_io_def on_db_def split: prod.split)

lemma bind_app_InrE:
  assumes "bind_app m f st = (Inr y, st'')"
  obtains x st' where "m st = (Inr x, st')" and "f x st' = (Inr y, st'')"
  using assms by (auto simp: bind_app_def split: prod.splits sum.splits)

lemma bind_app_Inl [simp]: "m st = (Inl e, st') \<Longrightarrow> bind_app m f st = (Inl e, st')"
  by (simp add: bind_app_def)

lemma bind_app_Inr [simp]: "m st = (Inr x, st') \<Longrightarrow> bind_app m f st = f x st'"
  by (simp add: bind_app_def)

section \<open>The scrape does not depend on the requests made before\<close>

definition same_result :: "'a io \<Rightarrow> bool" where
  "same_result m \<longleftrightarrow> (\<forall>t. fst (m t) = fst (m []))"

lemma same_result_bind:
  assumes "same_result m" and "\<And>x. same_result (f x)"
  shows "same_result (bind_io m f)"
  unfolding same_result_def
proof
  fix t
  obtain r1 t1 where 1: "m t = (r1, t1)" by fastforce
  obtain r2 t2 where 2: "m [] = (r2, t2)" by fastforce
  have "r1 = r2" using assms(1) 1 2 unfolding same_result_def by (metis fst_conv)
  moreover have "fst (f x t') = fst (f x t'')" for x t' t''
    using assms(2) unfolding same_result_def by metis
  ultimately show "fst (bind_io m f t) = fst (bind_io m f [])"
    by (cases r2) (simp_all add: bind_io_def 1 2)
qed

lemma same_result_basic [simp]:
  "same_result (lift_io r)" "same_result (ret_io x)" "same_result (fetch_page w u)"
  by (simp_all add: same_result_def lift_io_def fetch_page_eq)

lemma same_result_extractors:
  "same_result (get_product_catalog w pv sc)" "same_result (get_hero_products w pv sc)"
  "same_result (get_privacy_policy w sc)" "same_result (get_return_policy w sc)"
  "same_result (get_faqs w sc)" "same_result (get_social_handles w pv sc)"
  "same_result (get_contact_details w pv sc)" "same_result (get_brand_description w sc)"
  "same_result (get_important_links w sc)"
  by (simp_all add: same_result_def get_product_catalog_def Let_def get_hero_products_def
      get_privacy_policy_def get_return_policy_def get_faqs_def get_social_handles_def
      get_contact_details_def get_brand_description_def get_important_links_def bind_io_fetch
      split: option.split)

lemma scrape_same_result: "fst (scrape w pv sc t) = fst (scrape w pv sc t')"
proof -
  have "same_result (scrape w pv sc)"
    unfolding scrape_def
    by (intro same_result_bind same_result_extractors same_result_basic)
  then show ?thesis unfolding same_result_def by metis
qed

section \<open>Saving\<close>

lemma save_to_db_Inr:
  assumes "s_pending s = []" and "save_to_db bc s = (Inr u, s')"
  shows "store_url bc \<notin> set (stored_urls (s_db s)) \<and> s_pending s' = [] \<and>
         stored_urls (s_db s') = stored_urls (s_db s) @ [store_url bc]"
proof (cases "store_url bc \<in> set (stored_urls (s_db s))")
  case True
  then show ?thesis using assms by (simp add: save_to_db_eq)
next
  case False
  let ?d1 = "(s_db s)\<lparr>t_brands := t_brands (s_db s) @ [new_brand_row (s_db s) bc]\<rparr>"
  let ?cs = "child_rows (brand_pk (new_brand_row (s_db s) bc)) bc"
  have "s' = \<lparr>s_db = foldl insert_child ?d1 ?cs, s_pending = []\<rparr>"
    using assms False by (simp add: save_to_db_eq)
  moreover have "t_brands (foldl insert_child ?d1 ?cs) = t_brands ?d1"
    using foldl_insert_child_cols by blast
  ultimately show ?thesis using False by (simp add: stored_urls_def)
qed

lemma on_db_InrD:
  "on_db md st = (Inr x, st') \<Longrightarrow> md (a_session st) = (Inr x, a_session st') \<and> a_trace st' = a_trace st"
  by (cases "md (a_session st)") auto

lemma save_all_Inr:
  "save_all cs st = (Inr u, st') \<Longrightarrow> s_pending (a_session st) = [] \<Longrightarrow>
     s_pending (a_session st') = [] \<and> a_trace st' = a_trace st \<and>
     set (stored_urls (s_db (a_session st))) \<subseteq> set (stored_urls (s_db (a_session st')))"
proof (induction cs arbitrary: st)
  case Nil
  then show ?case by simp
next
  case (Cons c cs)
  from Cons.prems(1) obtain x st1 where 1: "on_db (save_to_db c) st = (Inr x, st1)"
    and 2: "save_all cs st1 = (Inr u, st')"
    by (auto elim: bind_app_InrE)
  from on_db_InrD [OF 1] have s: "save_to_db c (a_session st) = (Inr x, a_session st1)"
    and tr: "a_trace st1 = a_trace st" by simp_all
  from save_to_db_Inr [OF Cons.prems(2) s] have "s_pending (a_session st1) = []"
    "set (stored_urls (s_db (a_session st))) \<subseteq> set (stored_urls (s_db (a_session st1)))" by auto
  with Cons.IH [OF 2] tr show ?case by auto
qed

lemma save_all_abs:
  "save_all cs st = (Inr u, st') \<Longrightarrow> db_ok (s_db (a_session st)) \<Longrightarrow> s_pending (a_session st) = [] \<Longrightarrow>
     db_ok (s_db (a_session st')) \<and> s_pending (a_session st') = [] \<and>
     abs_db (s_db (a_session st')) = abs_db (s_db (a_session st)) @ map stored_of cs"
proof (induction cs arbitrary: st)
  case Nil
  then show ?case by simp
next
  case (Cons c cs)
  from Cons.prems(1) obtain x st1 where 1: "on_db (save_to_db c) st = (Inr x, st1)"
    and 2: "save_all cs st1 = (Inr u, st')"
    by (auto elim: bind_app_InrE)
  from on_db_InrD [OF 1] have s: "save_to_db c (a_session st) = (Inr x, a_session st1)" by simp
  from save_to_db_Inr [OF Cons.prems(3) s] have "store_url c \<notin> set (stored_urls (s_db (a_session st)))"
    by simp
  from save_to_db_abs [OF Cons.prems(2,3) this] s
  have "s_pending (a_session st1) = [] \<and>
    abs_db (s_db (a_session st1)) = abs_db (s_db (a_session st)) @ [stored_of c]" by auto
  moreover have "db_ok (s_db (a_session st1))"
    using save_to_db_keeps_ok [OF Cons.prems(2,3), of c] s by simp
  ultimately show ?case using Cons.IH [OF 2] by auto
qed

section \<open>The handler\<close>

lemma fetch_insights_body_eq:
  "fetch_insights_body w pv u st =
     (if \<not> url_is_str pv then (Inl AttributeError, st) else
      case page_at w u of
        None \<Rightarrow> (Inl (HTTPException 401), st\<lparr>a_trace := a_trace st @ [Get u]\<rparr>)
      | Some d \<Rightarrow>
          (case scrape w pv (new_scraper u) (a_trace st @ [Get u]) of
             (Inl e, t1) \<Rightarrow> (Inl e, st\<lparr>a_trace := t1\<rparr>)
           | (Inr bc, t1) \<Rightarrow>
               (case save_to_db bc (a_session st) of
                  (Inl e, s1) \<Rightarrow> (Inl e, st\<lparr>a_session := s1, a_trace := t1\<rparr>)
                | (Inr _, s1) \<Rightarrow>
                    (case fetch_competitors w pv (brand_name_of pv u) u t1 of
                       (Inl e, t2) \<Rightarrow> (Inl e, st\<lparr>a_session := s1, a_trace := t2\<rparr>)
                     | (Inr cs, t2) \<Rightarrow>
                         (case save_all cs (st\<lparr>a_session := s1, a_trace := t2\<rparr>) of
                            (Inl e, st3) \<Rightarrow> (Inl e, st3)
                          | (Inr _, st3) \<Rightarrow>
                              (Inr \<lparr>status = ''success'', data = Some bc, error = None,
                                    error_code = None\<rparr>, st3))))))"
  by (simp add: fetch_insights_body_def bind_app_def fetch_page_eq
      split: prod.split sum.split option.split)

lemma fetch_insights_body_Inr:
  assumes "fetch_insights_body w pv u st = (Inr r, st')"
  shows "\<exists>bc cs s1 t1 t2. url_is_str pv \<and> page_at w u \<noteq> None \<and>
     scrape w pv (new_scraper u) (a_trace st @ [Get u]) = (Inr bc, t1) \<and>
     save_to_db bc (a_session st) = (Inr (), s1) \<and>
     fetch_competitors w pv (brand_name_of pv u) u t1 = (Inr cs, t2) \<and>
     save_all cs (st\<lparr>a_session := s1, a_trace := t2\<rparr>) = (Inr (), st') \<and>
     r = \<lparr>status = ''success'', data = Some bc, error = None, error_code = None\<rparr>"
  using assms unfolding fetch_insights_body_eq
  by (auto split: if_splits option.splits prod.splits sum.splits)

lemma fetch_insights_snd: "snd (fetch_insights w pv u st) = snd (fetch_insights_body w pv u st)"
  by (simp add: fetch_insights_def split: prod.split sum.split py_exc.split)

lemma fetch_insights_Inr:
  "fetch_insights w pv u st = (Inr r, st') \<longleftrightarrow> fetch_insights_body w pv u st = (Inr r, st')"
  by (simp add: fetch_insights_def split: prod.split sum.split py_exc.split)

text \<open>
  A property of the store that every \<open>save_to_db\<close> keeps, whatever its outcome, is kept
  by the competitor loop and by the whole handler.  It is used for \<open>db_ok\<close> and for
  \<open>db_inv\<close>.
\<close>

lemma save_all_keeps:
  assumes keep: "\<And>bc s r s'. save_to_db bc s = (r, s') \<Longrightarrow> P (s_db s) \<Longrightarrow> s_pending s = [] \<Longrightarrow>
      P (s_db s') \<and> s_pending s' = []"
  shows "save_all cs st = (r, st') \<Longrightarrow> P (s_db (a_session st)) \<Longrightarrow> s_pending (a_session st) = [] \<Longrightarrow>
     P (s_db (a_session st')) \<and> s_pending (a_session st') = []"
proof (induction cs arbitrary: st)
  case Nil
  then show ?case by auto
next
  case (Cons c cs)
  obtain r1 s1 where s: "save_to_db c (a_session st) = (r1, s1)" by fastforce
  from keep [OF s Cons.prems(2,3)] have ok: "P (s_db s1)" "s_pending s1 = []"
    by simp_all
  show ?case
  proof (cases r1)
    case (Inl e)
    then show ?thesis using Cons.prems(1) s ok by (auto simp: bind_app_def)
  next
    case (Inr x)
    then have "save_all cs (st\<lparr>a_session := s1\<rparr>) = (r, st')"
      using Cons.prems(1) s by (simp add: bind_app_def)
    from Cons.IH [OF this] ok show ?thesis by simp
  qed
qed

lemma fetch_insights_keeps:
  assumes keep: "\<And>bc s r s'. save_to_db bc s = (r, s') \<Longrightarrow> P (s_db s) \<Longrightarrow> s_pending s = [] \<Longrightarrow>
      P (s_db s') \<and> s_pending s' = []"
    and ok: "P (s_db (a_session st))" "s_pending (a_session st) = []"
  shows "P (s_db (a_session (snd (fetch_insights w pv u st)))) \<and>
         s_pending (a_session (snd (fetch_insights w pv u st))) = []"
proof (cases "url_is_str pv \<and> page_at w u \<noteq> None")
  case False
  then show ?thesis using ok
    by (auto simp: fetch_insights_snd fetch_insights_body_eq split: option.split)
next
  case True
  then obtain d where str: "url_is_str pv" and pg: "page_at w u = Some d" by auto
  obtain r1 t1 where sc: "scrape w pv (new_scraper u) (a_trace st @ [Get u]) = (r1, t1)" by fastforce
  show ?thesis
  proof (cases r1)
    case (Inl e)
    then show ?thesis using str pg sc ok by (simp add: fetch_insights_snd fetch_insights_body_eq)
  next
    case (Inr bc)
    obtain r2 s1 where sv: "save_to_db bc (a_session st) = (r2, s1)" by fastforce
    have k1: "P (s_db s1) \<and> s_pending s1 = []" by (rule keep [OF sv ok])
    show ?thesis
    proof (cases r2)
      case (Inl e)
      then show ?thesis using str pg sc Inr sv k1 by (simp add: fetch_insights_snd fetch_insights_body_eq)
    next
      case (Inr x)
      note r2 = this
      obtain r3 t2 where fc: "fetch_competitors w pv (brand_name_of pv u) u t1 = (r3, t2)" by fastforce
      show ?thesis
      proof (cases r3)
        case (Inl e)
        then show ?thesis using str pg sc \<open>r1 = Inr bc\<close> sv r2 fc k1
          by (simp add: fetch_insights_snd fetch_insights_body_eq)
      next
        case (Inr cs)
        obtain r4 st3 where sa: "save_all cs (st\<lparr>a_session := s1, a_trace := t2\<rparr>) = (r4, st3)" by fastforce
        have "P (s_db (a_session st3)) \<and> s_pending (a_session st3) = []"
          using save_all_keeps [OF keep sa] k1 by simp
        then show ?thesis using str pg sc \<open>r1 = Inr bc\<close> sv r2 fc Inr sa
          by (simp add: fetch_insights_snd fetch_insights_body_eq split: sum.split)
      qed
    qed
  qed
qed

lemma save_all_prefix:
  "save_all cs st = (r, st') \<Longrightarrow> db_ok (s_db (a_session st)) \<Longrightarrow> s_pending (a_session st) = [] \<Longrightarrow>
     prefix (abs_db (s_db (a_session st))) (abs_db (s_db (a_session st')))"
proof (induction cs arbitrary: st)
  case Nil
  then show ?case by (simp add: ret_app_def)
next
  case (Cons c cs)
  obtain r1 s1 where s: "save_to_db c (a_session st) = (r1, s1)" by fastforce
  from save_to_db_ok_any [OF s Cons.prems(2,3)] have ok: "db_ok (s_db s1)" "s_pending s1 = []"
    by simp_all
  have p1: "prefix (abs_db (s_db (a_session st))) (abs_db (s_db s1))"
    using save_to_db_prefix [OF s Cons.prems(2,3)] .
  show ?case
  proof (cases r1)
    case (Inl e)
    then show ?thesis using Cons.prems(1) s p1 by (auto simp: bind_app_def)
  next
    case (Inr x)
    then have "save_all cs (st\<lparr>a_session := s1\<rparr>) = (r, st')"
      using Cons.prems(1) s by (simp add: bind_app_def)
    from Cons.IH [OF this] ok p1 show ?thesis by (auto intro: prefix_order.trans)
  qed
qed

lemma save_all_after_save_prefix:
  "save_all cs (st\<lparr>a_session := s1, a_trace := t\<rparr>) = (r, st') \<Longrightarrow>
     save_to_db bc (a_session st) = (x, s1) \<Longrightarrow>
     db_ok (s_db (a_session st)) \<Longrightarrow> s_pending (a_session st) = [] \<Longrightarrow>
     prefix (abs_db (s_db (a_session st))) (abs_db (s_db (a_session st')))"
  using save_to_db_ok_any save_to_db_prefix save_all_prefix [of cs "st\<lparr>a_session := s1, a_trace := t\<rparr>" r st']
  by (fastforce intro: prefix_order.trans)

lemma fetch_insights_prefix:
  assumes "db_ok (s_db (a_session st))" and "s_pending (a_session st) = []"
  shows "prefix (abs_db (s_db (a_session st))) (abs_db (s_db (a_session (snd (fetch_insights w pv u st)))))"
  using assms unfolding fetch_insights_snd fetch_insights_body_eq
  by (auto split: option.split prod.split sum.split dest: save_to_db_prefix save_all_after_save_prefix)

lemma scrape_Inr_store_url:
  "scrape w pv sc t = (Inr bc, t') \<Longrightarrow> v_url pv (base_url sc) = Some (store_url bc)"
  unfolding scrape_def by (fastforce dest!: bind_io_Inr_D mk_brand_context_Inr)

lemma scrape_Inr_catalog:
  "scrape w pv sc t = (Inr bc, t') \<Longrightarrow> \<exists>t1 t2. get_product_catalog w pv sc t1 = (Inr (product_catalog bc), t2)"
  unfolding scrape_def by (fastforce dest!: bind_io_Inr_D mk_brand_context_Inr)

lemma get_product_catalog_items:
  assumes "get_product_catalog w pv sc t = (Inr ps, t')"
    and "w (base_url sc @ ''/products.json'') = Some r" and "\<not> http_error (status_code r)"
    and "json_body r = Some (JObj kvs)" and "map_of kvs ''products'' = Some (JArr items)"
  shows "length ps = length items"
  using assms
  by (auto simp: get_product_catalog_def catalog_items_def Let_def dest: map_res_length)

text \<open>
  C23: when the URL's root page cannot be fetched, the handler answers 401 after that one
  request and leaves the store untouched.
\<close>

theorem fetch_insights_unreachable:
  assumes "url_is_str pv" and "page_at w u = None"
  shows "fetch_insights w pv u st = (Inl (HTTPException 401), st\<lparr>a_trace := a_trace st @ [Get u]\<rparr>)"
  using assms by (simp add: fetch_insights_def fetch_insights_body_eq)

text \<open>
  C24: with a pydantic version whose \<open>HttpUrl\<close> is not a \<open>str\<close> (v2),
  \<open>ShopifyScraper(input.website_url)\<close> raises \<open>AttributeError\<close> on \<open>rstrip\<close>, so every
  request is answered 500 before any request is made.
\<close>

theorem fetch_insights_url_not_str:
  assumes "\<not> url_is_str pv"
  shows "fetch_insights w pv u st = (Inl (HTTPException 500), st)"
  using assms by (simp add: fetch_insights_def fetch_insights_body_eq)

text \<open>
  C25: a second request for a store that was fetched successfully is answered 500 and
  does not change the store: the brand row of the first request makes the first commit
  of the second fail on the unique \<open>store_url\<close>.
\<close>

theorem fetch_insights_repeat:
  assumes "s_pending (a_session st) = []" and "fetch_insights w pv u st = (Inr r, st1)"
  shows "\<exists>t'. fetch_insights w pv u st1 = (Inl (HTTPException 500), st1\<lparr>a_trace := t'\<rparr>)"
proof -
  from assms(2) have "fetch_insights_body w pv u st = (Inr r, st1)"
    by (simp add: fetch_insights_Inr)
  from fetch_insights_body_Inr [OF this] obtain bc cs s1 t1 t2 where
      str: "url_is_str pv" and pg: "page_at w u \<noteq> None"
    and sc: "scrape w pv (new_scraper u) (a_trace st @ [Get u]) = (Inr bc, t1)"
    and sv: "save_to_db bc (a_session st) = (Inr (), s1)"
    and sa: "save_all cs (st\<lparr>a_session := s1, a_trace := t2\<rparr>) = (Inr (), st1)"
    by blast
  from save_to_db_Inr [OF assms(1) sv] have p1: "s_pending s1 = []"
    and u1: "store_url bc \<in> set (stored_urls (s_db s1))" by simp_all
  from save_all_Inr [OF sa] p1 u1 have p2: "s_pending (a_session st1) = []"
    and u2: "store_url bc \<in> set (stored_urls (s_db (a_session st1)))" by auto
  have "fst (scrape w pv (new_scraper u) (a_trace st1 @ [Get u])) = Inr bc"
    using sc scrape_same_result by (metis fst_conv)
  then obtain t3 where sc2: "scrape w pv (new_scraper u) (a_trace st1 @ [Get u]) = (Inr bc, t3)"
    by (cases "scrape w pv (new_scraper u) (a_trace st1 @ [Get u])") auto
  have "save_to_db bc (a_session st1) = (Inl IntegrityError, a_session st1)"
    by (rule save_to_db_dup [OF p2 u2])
  with str pg sc2 show ?thesis
    by (intro exI [of _ t3]) (auto simp: fetch_insights_def fetch_insights_body_eq)
qed

text \<open>
  C26: every request, answered or failed, leaves a consistent store with nothing
  pending.
\<close>

theorem fetch_insights_keeps_ok:
  assumes "db_ok (s_db (a_session st))" and "s_pending (a_session st) = []"
  shows "db_ok (s_db (a_session (snd (fetch_insights w pv u st)))) \<and>
         s_pending (a_session (snd (fetch_insights w pv u st))) = []"
  using fetch_insights_keeps [where P = db_ok, OF save_to_db_ok_any assms] .

text \<open>
  C27: a successful request answers with the scraped brand context, whose \<open>store_url\<close> is
  the validated, right-stripped input URL, and the store afterwards reads back as before
  followed by that context and at most three competitors.
\<close>

theorem fetch_insights_success:
  assumes "db_ok (s_db (a_session st))" and "s_pending (a_session st) = []"
    and "fetch_insights w pv u st = (Inr r, st')"
  shows "\<exists>bc cs. status r = ''success'' \<and> data r = Some bc \<and>
           v_url pv (py_rstrip ''/'' u) = Some (store_url bc) \<and> length cs \<le> 3 \<and>
           abs_db (s_db (a_session st')) = abs_db (s_db (a_session st)) @ stored_of bc # map stored_of cs"
proof -
  from assms(3) have "fetch_insights_body w pv u st = (Inr r, st')"
    by (simp add: fetch_insights_Inr)
  from fetch_insights_body_Inr [OF this] obtain bc cs s1 t1 t2 where
      sc: "scrape w pv (new_scraper u) (a_trace st @ [Get u]) = (Inr bc, t1)"
    and sv: "save_to_db bc (a_session st) = (Inr (), s1)"
    and fc: "fetch_competitors w pv (brand_name_of pv u) u t1 = (Inr cs, t2)"
    and sa: "save_all cs (st\<lparr>a_session := s1, a_trace := t2\<rparr>) = (Inr (), st')"
    and r: "r = \<lparr>status = ''success'', data = Some bc, error = None, error_code = None\<rparr>"
    by blast
  from save_to_db_Inr [OF assms(2) sv] have "store_url bc \<notin> set (stored_urls (s_db (a_session st)))"
    by simp
  from save_to_db_abs [OF assms(1,2) this] sv
  have p1: "s_pending s1 = []" and a1: "abs_db (s_db s1) = abs_db (s_db (a_session st)) @ [stored_of bc]"
    by auto
  have ok1: "db_ok (s_db s1)"
    using save_to_db_ok_any [OF sv assms(1,2)] by simp
  from save_all_abs [OF sa] ok1 p1 a1
  have "abs_db (s_db (a_session st')) = abs_db (s_db (a_session st)) @ stored_of bc # map stored_of cs"
    by simp
  moreover have "length cs \<le> 3"
    using fetch_competitors_Inr [OF fc] by simp
  moreover have "v_url pv (py_rstrip ''/'' u) = Some (store_url bc)"
    using scrape_Inr_store_url [OF sc] by (simp add: new_scraper_def)
  ultimately show ?thesis using r by auto
qed

text \<open>
  C30: end to end, a successful request answers with a context whose \<open>store_url\<close> is the
  validated submitted URL without trailing slashes and whose catalog has one product per
  entry of the store's \<open>products.json\<close> \<open>products\<close> array.
\<close>

theorem fetch_insights_end_to_end:
  assumes "fetch_insights w pv u st = (Inr r, st')"
    and "w (py_rstrip ''/'' u @ ''/products.json'') = Some resp" and "\<not> http_error (status_code resp)"
    and "json_body resp = Some (JObj kvs)" and "map_of kvs ''products'' = Some (JArr items)"
  shows "\<exists>bc. status r = ''success'' \<and> data r = Some bc \<and>
           v_url pv (py_rstrip ''/'' u) = Some (store_url bc) \<and> length (product_catalog bc) = length items"
proof -
  from assms(1) have "fetch_insights_body w pv u st = (Inr r, st')"
    by (simp add: fetch_insights_Inr)
  from fetch_insights_body_Inr [OF this] obtain bc t1 where
      sc: "scrape w pv (new_scraper u) (a_trace st @ [Get u]) = (Inr bc, t1)"
    and r: "r = \<lparr>status = ''success'', data = Some bc, error = None, error_code = None\<rparr>"
    by blast
  from scrape_Inr_catalog [OF sc] obtain t2 t3 where
    "get_product_catalog w pv (new_scraper u) t2 = (Inr (product_catalog bc), t3)" by blast
  from get_product_catalog_items [OF this] assms(2-5)
  have "length (product_catalog bc) = length items" by (simp add: new_scraper_def)
  moreover have "v_url pv (py_rstrip ''/'' u) = Some (store_url bc)"
    using scrape_Inr_store_url [OF sc] by (simp add: new_scraper_def)
  ultimately show ?thesis using r by simp
qed

lemma save_all_Inr_new:
  "save_all cs st = (Inr u, st') \<Longrightarrow> s_pending (a_session st) = [] \<Longrightarrow>
     \<forall>c \<in> set cs. store_url c \<notin> set (stored_urls (s_db (a_session st)))"
proof (induction cs arbitrary: st)
  case Nil
  then show ?case by simp
next
  case (Cons c cs)
  from Cons.prems(1) obtain x st1 where 1: "on_db (save_to_db c) st = (Inr x, st1)"
    and 2: "save_all cs st1 = (Inr u, st')"
    by (auto elim: bind_app_InrE)
  from on_db_InrD [OF 1] have s: "save_to_db c (a_session st) = (Inr x, a_session st1)" by simp
  from save_to_db_Inr [OF Cons.prems(2) s] Cons.IH [OF 2] show ?case by auto
qed

lemma save_all_Inl:
  "save_all cs st = (Inl e, st') \<Longrightarrow> s_pending (a_session st) = [] \<Longrightarrow> e = IntegrityError"
proof (induction cs arbitrary: st)
  case Nil
  then show ?case by simp
next
  case (Cons c cs)
  obtain r1 s1 where s: "save_to_db c (a_session st) = (r1, s1)" by fastforce
  show ?case
  proof (cases r1)
    case (Inl e1)
    with s Cons.prems show ?thesis
      by (auto simp: bind_app_def save_to_db_eq split: if_splits)
  next
    case (Inr x)
    with s Cons.prems(1) have "save_all cs (st\<lparr>a_session := s1\<rparr>) = (Inl e, st')"
      by (simp add: bind_app_def)
    moreover from save_to_db_Inr [OF Cons.prems(2)] s Inr have "s_pending s1 = []" by simp
    ultimately show ?thesis using Cons.IH by simp
  qed
qed

text \<open>
  C28: the brand is committed before the competitors are saved: when a competitor that is
  the store itself or a store already stored comes back from the search, its save fails,
  the request is answered 500, and yet the brand stays stored, the store being the one
  before followed by the brand and possibly some competitors.
\<close>

theorem fetch_insights_partial_commit:
  assumes ok: "db_ok (s_db (a_session st))" "s_pending (a_session st) = []"
    and str: "url_is_str pv" and pg: "page_at w u \<noteq> None"
    and sc: "scrape w pv (new_scraper u) (a_trace st @ [Get u]) = (Inr bc, t1)"
    and new: "store_url bc \<notin> set (stored_urls (s_db (a_session st)))"
    and fc: "fetch_competitors w pv (brand_name_of pv u) u t1 = (Inr cs, t2)"
    and c: "c \<in> set cs"
    and dup: "store_url c = store_url bc \<or> store_url c \<in> set (stored_urls (s_db (a_session st)))"
  shows "fst (fetch_insights w pv u st) = Inl (HTTPException 500) \<and>
    prefix (abs_db (s_db (a_session st)) @ [stored_of bc])
      (abs_db (s_db (a_session (snd (fetch_insights w pv u st)))))"
proof -
  from save_to_db_abs [OF ok new] obtain s1 where sv: "save_to_db bc (a_session st) = (Inr (), s1)"
    and p1: "s_pending s1 = []" and a1: "abs_db (s_db s1) = abs_db (s_db (a_session st)) @ [stored_of bc]"
    by blast
  have ok1: "db_ok (s_db s1)" using save_to_db_ok_any [OF sv ok] by simp
  from save_to_db_Inr [OF ok(2) sv]
  have u1: "stored_urls (s_db s1) = stored_urls (s_db (a_session st)) @ [store_url bc]" by simp
  let ?st2 = "st\<lparr>a_session := s1, a_trace := t2\<rparr>"
  obtain r3 st3 where sa: "save_all cs ?st2 = (r3, st3)" by fastforce
  obtain e where r3: "r3 = Inl e"
  proof (cases r3)
    case (Inr x)
    with save_all_Inr_new [of cs ?st2 x st3] sa p1 c have "store_url c \<notin> set (stored_urls (s_db s1))"
      by auto
    with dup u1 show ?thesis by auto
  qed
  from save_all_Inl [of cs ?st2 e st3] sa r3 p1 have e: "e = IntegrityError" by simp
  have f: "fetch_insights w pv u st = (Inl (HTTPException 500), st3)"
    using str pg sc sv fc sa r3 e
    by (simp add: fetch_insights_def fetch_insights_body_eq split: option.split)
  from save_all_prefix [of cs ?st2 r3 st3] sa ok1 p1 a1
  have "prefix (abs_db (s_db (a_session st)) @ [stored_of bc]) (abs_db (s_db (a_session st3)))"
    by simp
  with f show ?thesis by simp
qed

section \<open>Examples\<close>

definition demo_app_state :: app_state where
  "demo_app_state = \<lparr>a_session = demo_session, a_trace = []\<rparr>"

text \<open>A store whose search result lists the store itself as a competitor.\<close>

definition self_web :: web where
  "self_web u =
     (if u = ''https://shop.myshopify.com'' then Some \<lparr>status_code = 200, page = [], json_body = None\<rparr>
      else if u = search_url ''shop''
      then Some \<lparr>status_code = 200,
                 page = [Elem ''a'' [(''href'', ''https://shop.myshopify.com'')] []], json_body = None\<rparr>
      else None)"

text \<open>A store whose search request is answered 503.\<close>

definition alone_web :: web where
  "alone_web u =
     (if u = ''https://shop.myshopify.com'' then Some \<lparr>status_code = 200, page = [], json_body = None\<rparr>
      else if u = search_url ''shop'' then Some \<lparr>status_code = 503, page = [], json_body = None\<rparr>
      else None)"

text \<open>The example store of \<open>Scraper\<close>, whose competitor search is answered 503.\<close>

definition shop_web :: web where
  "shop_web u = (if u = search_url ''s'' then Some \<lparr>status_code = 503, page = [], json_body = None\<rparr> else demo_web u)"

lemma demo_app_state_ok:
  "db_ok (s_db (a_session demo_app_state)) \<and> s_pending (a_session demo_app_state) = []"
  using demo_session_ok by (simp add: demo_app_state_def)

lemma alone_ok:
  "\<not> isl (fst (fetch_insights alone_web pyd_example ''https://shop.myshopify.com'' demo_app_state))"
  by code_simp

theorem fetch_insights_unreachable_witness:
  "fetch_insights (\<lambda>u. None) pyd_example ''https://shop.myshopify.com'' demo_app_state =
     (Inl (HTTPException 401), demo_app_state\<lparr>a_trace := [Get ''https://shop.myshopify.com'']\<rparr>)"
proof -
  have "url_is_str pyd_example" by (simp add: pyd_example_def)
  moreover have "page_at (\<lambda>u. None) ''https://shop.myshopify.com'' = None" by (simp add: page_at_def)
  ultimately show ?thesis
    using fetch_insights_unreachable [of pyd_example "\<lambda>u. None" "''https://shop.myshopify.com''" demo_app_state]
    by (simp add: demo_app_state_def)
qed

theorem fetch_insights_url_not_str_witness:
  "fetch_insights alone_web (pyd_example\<lparr>url_is_str := False\<rparr>) ''https://shop.myshopify.com'' demo_app_state =
     (Inl (HTTPException 500), demo_app_state)"
  using fetch_insights_url_not_str [of "pyd_example\<lparr>url_is_str := False\<rparr>"] by simp

theorem fetch_insights_repeat_witness:
  "\<exists>t'. fetch_insights alone_web pyd_example ''https://shop.myshopify.com''
      (snd (fetch_insights alone_web pyd_example ''https://shop.myshopify.com'' demo_app_state)) =
    (Inl (HTTPException 500),
     (snd (fetch_insights alone_web pyd_example ''https://shop.myshopify.com'' demo_app_state))\<lparr>a_trace := t'\<rparr>)"
  using fetch_insights_repeat [OF conjunct2 [OF demo_app_state_ok] res_Inr_pair [OF alone_ok]] by simp

theorem fetch_insights_keeps_ok_witness:
  "db_ok (s_db (a_session (snd (fetch_insights self_web pyd_example ''https://shop.myshopify.com'' demo_app_state)))) \<and>
   s_pending (a_session (snd (fetch_insights self_web pyd_example ''https://shop.myshopify.com'' demo_app_state))) = []"
  using fetch_insights_keeps_ok demo_app_state_ok by blast

theorem fetch_insights_success_witness:
  "\<not> isl (fst (fetch_insights alone_web pyd_example ''https://shop.myshopify.com'' demo_app_state)) \<and>
   (\<exists>bc cs. status (projr (fst (fetch_insights alone_web pyd_example ''https://shop.myshopify.com'' demo_app_state))) = ''success'' \<and>
      data (projr (fst (fetch_insights alone_web pyd_example ''https://shop.myshopify.com'' demo_app_state))) = Some bc \<and>
      v_url pyd_example (py_rstrip ''/'' ''https://shop.myshopify.com'') = Some (store_url bc) \<and> length cs \<le> 3 \<and>
      abs_db (s_db (a_session (snd (fetch_insights alone_web pyd_example ''https://shop.myshopify.com'' demo_app_state)))) =
        abs_db (s_db (a_session demo_app_state)) @ stored_of bc # map stored_of cs)"
  using fetch_insights_success [OF conjunct1 [OF demo_app_state_ok] conjunct2 [OF demo_app_state_ok]
      res_Inr_pair [OF alone_ok]] alone_ok by simp

lemma shop_ok:
  "\<not> isl (fst (fetch_insights shop_web pyd_example ''https://s.com''
      \<lparr>a_session = \<lparr>s_db = empty_db, s_pending = []\<rparr>, a_trace = []\<rparr>))"
  by code_simp

theorem fetch_insights_end_to_end_witness:
  "\<exists>bc. status (projr (fst (fetch_insights shop_web pyd_example ''https://s.com''
          \<lparr>a_session = \<lparr>s_db = empty_db, s_pending = []\<rparr>, a_trace = []\<rparr>))) = ''success'' \<and>
     data (projr (fst (fetch_insights shop_web pyd_example ''https://s.com''
          \<lparr>a_session = \<lparr>s_db = empty_db, s_pending = []\<rparr>, a_trace = []\<rparr>))) = Some bc \<and>
     v_url pyd_example (py_rstrip ''/'' ''https://s.com'') = Some (store_url bc) \<and>
     length (product_catalog bc) = 2"
proof -
  have w: "shop_web (py_rstrip ''/'' ''https://s.com'' @ ''/products.json'') =
      Some \<lparr>status_code = 200, page = [], json_body = Some demo_products\<rparr>"
    by code_simp
  have h: "\<not> http_error (status_code \<lparr>status_code = 200, page = [], json_body = Some demo_products\<rparr>)"
    by (simp add: http_error_def)
  have j: "json_body \<lparr>status_code = 200, page = [], json_body = Some demo_products\<rparr> =
      Some (JObj [(''products'', JArr demo_items)])"
    by (simp add: demo_products_def)
  have m: "map_of [(''products'', JArr demo_items)] ''products'' = Some (JArr demo_items)" by simp
  have "length demo_items = 2" by (simp add: demo_items_def)
  with fetch_insights_end_to_end [OF res_Inr_pair [OF shop_ok] w h j m] show ?thesis by simp
qed

theorem fetch_insights_partial_commit_witness:
  "fst (fetch_insights self_web pyd_example ''https://shop.myshopify.com'' demo_app_state) =
     Inl (HTTPException 500) \<and>
   prefix (abs_db (s_db (a_session demo_app_state)) @
       [stored_of (projr (fst (scrape self_web pyd_example (new_scraper ''https://shop.myshopify.com'')
          (a_trace demo_app_state @ [Get ''https://shop.myshopify.com'']))))])
     (abs_db (s_db (a_session (snd (fetch_insights self_web pyd_example ''https://shop.myshopify.com'' demo_app_state)))))"
proof -
  let ?sc = "scrape self_web pyd_example (new_scraper ''https://shop.myshopify.com'')
      (a_trace demo_app_state @ [Get ''https://shop.myshopify.com''])"
  let ?fc = "fetch_competitors self_web pyd_example (brand_name_of pyd_example ''https://shop.myshopify.com'')
      ''https://shop.myshopify.com'' (snd ?sc)"
  have h1: "\<not> isl (fst ?sc)" by code_simp
  have h2: "\<not> isl (fst ?fc)" by code_simp
  have str: "url_is_str pyd_example" by (simp add: pyd_example_def)
  have pg: "page_at self_web ''https://shop.myshopify.com'' \<noteq> None"
    by (simp add: page_at_def self_web_def http_error_def)
  have new: "store_url (projr (fst ?sc)) \<notin> set (stored_urls (s_db (a_session demo_app_state)))"
    by (simp add: demo_app_state_def demo_session_def empty_db_def stored_urls_def)
  have ne: "projr (fst ?fc) \<noteq> [] \<and> store_url (hd (projr (fst ?fc))) = store_url (projr (fst ?sc))"
    by code_simp
  then have c: "hd (projr (fst ?fc)) \<in> set (projr (fst ?fc))" by simp
  from ne have dup: "store_url (hd (projr (fst ?fc))) = store_url (projr (fst ?sc)) \<or>
      store_url (hd (projr (fst ?fc))) \<in> set (stored_urls (s_db (a_session demo_app_state)))" by simp
  show ?thesis
    by (rule fetch_insights_partial_commit [OF conjunct1 [OF demo_app_state_ok] conjunct2 [OF demo_app_state_ok]
        str pg res_Inr_pair [OF h1] new res_Inr_pair [OF h2] c dup])
qed

end
