(* ===== verification/Service.thy ===== *)
theory Service
  imports App
begin

text \<open>
  The running service: the tables created at start (\<open>src/main.py\<close>, line 13), each
  request validated by \<open>URLInput\<close>, given a fresh session by \<open>get_db\<close> and handled by
  \<open>fetch_insights\<close>, and the store kept from one request to the next.  The states are
  the inductive set \<open>reachable\<close>, over which the invariant is proved by rule
  induction; the explicit sequence of requests \<open>run\<close> also keeps the replies, for the
  properties that relate them to the store.  The store is the only state
  shared between requests; the main lemmas show that it stays consistent, only grows,
  and never answers success twice for one store.
\<close>

section \<open>Requests and the service\<close>

text \<open>
  \<open>URLInput(website_url=...)\<close> (\<open>src/pydantic_models.py\<close>): FastAPI validates the JSON
  body into the model before the handler runs; an invalid URL is answered 422.
\<close>

definition url_input :: "pyd \<Rightarrow> string \<Rightarrow> url res" where
  "url_input pv s = (case v_url pv s of None \<Rightarrow> Inl ValidationError | Some u \<Rightarrow> Inr u)"

text \<open>What the client receives: \<open>200\<close> with the \<open>APIResponse\<close>, or an error status.\<close>

datatype reply = Reply200 api_response | ReplyError nat

text \<open>
  \<open>Depends(get_db)\<close>: a new session on the store for each request, with nothing
  pending (\<open>database/db.py\<close> is not among the sources; this is the usual
  \<open>SessionLocal()\<close> generator).
\<close>

definition get_db :: "app_state \<Rightarrow> app_state" where
  "get_db st = st\<lparr>a_session := \<lparr>s_db = s_db (a_session st), s_pending = []\<rparr>\<rparr>"

text \<open>
  \<open>POST /fetch-insights\<close>: validation of the body, the handler on a fresh session, and
  the status of the \<open>HTTPException\<close> it raises.
\<close>

definition post_fetch_insights :: "web \<Rightarrow> pyd \<Rightarrow> string \<Rightarrow> app_state \<Rightarrow> reply \<times> app_state" where
  "post_fetch_insights w pv body st =
     (case url_input pv body of
        Inl e \<Rightarrow> (ReplyError 422, st)
      | Inr u \<Rightarrow>
          (case fetch_insights w pv u (get_db st) of
             (Inr r, st') \<Rightarrow> (Reply200 r, st')
           | (Inl (HTTPException n), st') \<Rightarrow> (ReplyError n, st')
           | (Inl e, st') \<Rightarrow> (ReplyError 500, st')))"

text \<open>The process start: \<open>Base.metadata.create_all(bind=engine)\<close> on a new database.\<close>

definition service_start :: app_state where
  "service_start = \<lparr>a_session = \<lparr>s_db = empty_db, s_pending = []\<rparr>, a_trace = []\<rparr>"

text \<open>
  The states of the service: from the start, any request with any body, answered while
  the web is in any state.
\<close>

inductive reachable :: "pyd \<Rightarrow> app_state \<Rightarrow> bool" for pv where
  start: "reachable pv service_start"
| request: "reachable pv st \<Longrightarrow> reachable pv (snd (post_fetch_insights w pv body st))"

text \<open>The same as an explicit sequence of requests, one after the other, with their replies.\<close>

fun run :: "pyd \<Rightarrow> (web \<times> string) list \<Rightarrow> app_state \<Rightarrow> reply list \<times> app_state" where
  "run pv [] st = ([], st)"
| "run pv ((w, body) # rq) st =
     (case post_fetch_insights w pv body st of
        (r, st1) \<Rightarrow> (case run pv rq st1 of (rs, st2) \<Rightarrow> (r # rs, st2)))"

text \<open>The store URLs of the successful replies of a sequence.\<close>

definition success_urls :: "reply list \<Rightarrow> string list" where
  "success_urls rs = concat (map (\<lambda>r. case r of Reply200 a \<Rightarrow> (case data a of Some bc \<Rightarrow> [store_url bc] | None \<Rightarrow> []) | ReplyError n \<Rightarrow> []) rs)"

section \<open>A request keeps the store consistent and only appends to it\<close>

lemma get_db_simps [simp]:
  "s_db (a_session (get_db st)) = s_db (a_session st)" "s_pending (a_session (get_db st)) = []"
  "a_trace (get_db st) = a_trace st"
  by (simp_all add: get_db_def)

lemma post_fetch_insights_snd:
  "snd (post_fetch_insights w pv body st) =
     (case url_input pv body of Inl e \<Rightarrow> st | Inr u \<Rightarrow> snd (fetch_insights w pv u (get_db st)))"
  by (simp add: post_fetch_insights_def split: sum.split prod.split py_exc.split)

lemma post_fetch_insights_ok:
  "db_ok (s_db (a_session st)) \<Longrightarrow> db_ok (s_db (a_session (snd (post_fetch_insights w pv body st))))"
  using fetch_insights_keeps [where P = db_ok and st = "get_db st", OF save_to_db_ok_any]
  by (simp add: post_fetch_insights_snd split: sum.split)

lemma post_fetch_insights_prefix_ok:
  "db_ok (s_db (a_session st)) \<Longrightarrow>
     prefix (abs_db (s_db (a_session st))) (abs_db (s_db (a_session (snd (post_fetch_insights w pv body st)))))"
  using fetch_insights_prefix [of "get_db st"] by (simp add: post_fetch_insights_snd split: sum.split)

lemma post_fetch_insights_success:
  assumes "post_fetch_insights w pv body st = (Reply200 r, st')"
  shows "\<exists>bc. data r = Some bc \<and> store_url bc \<notin> set (stored_urls (s_db (a_session st))) \<and>
           store_url bc \<in> set (stored_urls (s_db (a_session st')))"
proof -
  from assms obtain u where "fetch_insights w pv u (get_db st) = (Inr r, st')"
    by (auto simp: post_fetch_insights_def split: sum.splits prod.splits py_exc.splits)
  then have "fetch_insights_body w pv u (get_db st) = (Inr r, st')"
    by (simp add: fetch_insights_Inr)
  from fetch_insights_body_Inr [OF this] obtain bc cs s1 t2 where
      sv: "save_to_db bc (a_session (get_db st)) = (Inr (), s1)"
    and sa: "save_all cs ((get_db st)\<lparr>a_session := s1, a_trace := t2\<rparr>) = (Inr (), st')"
    and r: "data r = Some bc"
    by auto
  from save_to_db_Inr [OF _ sv] have "store_url bc \<notin> set (stored_urls (s_db (a_session st)))"
    and p1: "s_pending s1 = []" and u1: "store_url bc \<in> set (stored_urls (s_db s1))"
    by simp_all
  moreover from save_all_Inr [OF sa] p1 u1
  have "store_url bc \<in> set (stored_urls (s_db (a_session st')))" by auto
  ultimately show ?thesis using r by blast
qed

lemma post_fetch_insights_inv:
  "db_inv (s_db (a_session st)) \<Longrightarrow> s_pending (a_session st) = [] \<Longrightarrow>
     db_inv (s_db (a_session (snd (post_fetch_insights w pv body st)))) \<and>
     s_pending (a_session (snd (post_fetch_insights w pv body st))) = []"
  using fetch_insights_keeps [where P = db_inv and st = "get_db st", OF save_to_db_inv_any]
  by (simp add: post_fetch_insights_snd split: sum.split)

lemma service_start_inv: "db_inv (s_db (a_session service_start)) \<and> s_pending (a_session service_start) = []"
  by (simp add: service_start_def empty_db_def db_inv_def db_ok_def stored_urls_def child_pks_ok_def
      child_brand_ids_def)

lemma service_start_ok: "db_ok (s_db (a_session service_start)) \<and> s_pending (a_session service_start) = []"
  using service_start_inv by (simp add: db_inv_def)

lemma run_Cons [simp]:
  "run pv ((w, body) # rq) st =
     (fst (post_fetch_insights w pv body st) # fst (run pv rq (snd (post_fetch_insights w pv body st))),
      snd (run pv rq (snd (post_fetch_insights w pv body st))))"
  by (simp split: prod.split)

declare run.simps(2) [simp del]

lemma run_snd_Cons:
  "snd (run pv ((w, body) # rq) st) = snd (run pv rq (snd (post_fetch_insights w pv body st)))"
  by simp

text \<open>
  C32: in every reachable state of the service the store is consistent: primary keys
  and store URLs distinct, every child row's \<open>brand_id\<close> set and the key of a stored
  brand; and nothing is pending.  By rule induction over the requests.
\<close>

theorem reachable_db_ok:
  "reachable pv st \<Longrightarrow> db_inv (s_db (a_session st)) \<and> s_pending (a_session st) = []"
proof (induction rule: reachable.induct)
  case start
  then show ?case by (rule service_start_inv)
next
  case (request st w body)
  then show ?case by (simp add: post_fetch_insights_inv)
qed

text \<open>
  C33: over any sequence of requests from a consistent store, no store URL is answered
  with success twice, none that was stored before is answered with success, and every
  one answered with success is stored afterwards, as is every one stored before.
\<close>

theorem run_success_once:
  assumes "db_ok (s_db (a_session st))" and "run pv rq st = (rs, st')"
  shows "distinct (success_urls rs) \<and> set (success_urls rs) \<inter> set (stored_urls (s_db (a_session st))) = {} \<and>
         set (success_urls rs) \<subseteq> set (stored_urls (s_db (a_session st'))) \<and>
         set (stored_urls (s_db (a_session st))) \<subseteq> set (stored_urls (s_db (a_session st')))"
  using assms
proof (induction rq arbitrary: st rs st')
  case Nil
  then show ?case by (simp add: success_urls_def)
next
  case (Cons q rq)
  obtain w body where q: "q = (w, body)" by fastforce
  obtain r st1 where p: "post_fetch_insights w pv body st = (r, st1)" by fastforce
  obtain rs' where r2: "run pv rq st1 = (rs', st')" and rs: "rs = r # rs'"
    using Cons.prems(2) p q by (cases "run pv rq st1") auto
  have ok1: "db_ok (s_db (a_session st1))"
    using post_fetch_insights_ok [OF Cons.prems(1), of w pv body] p by simp
  have m1: "set (stored_urls (s_db (a_session st))) \<subseteq> set (stored_urls (s_db (a_session st1)))"
    using post_fetch_insights_prefix_ok [OF Cons.prems(1), of w pv body] p
    by (simp add: prefix_stored_urls)
  note IH = Cons.IH [OF ok1 r2]
  then have m2: "set (stored_urls (s_db (a_session st1))) \<subseteq> set (stored_urls (s_db (a_session st')))"
    by blast
  show ?case
  proof (cases r)
    case (Reply200 a)
    from post_fetch_insights_success [of w pv body st a st1] p Reply200 obtain bc where
      d: "data a = Some bc" and n: "store_url bc \<notin> set (stored_urls (s_db (a_session st)))"
      and i: "store_url bc \<in> set (stored_urls (s_db (a_session st1)))" by blast
    have su: "success_urls rs = store_url bc # success_urls rs'"
      using rs Reply200 d by (simp add: success_urls_def)
    have "store_url bc \<notin> set (success_urls rs')" using IH i by blast
    then show ?thesis using IH m1 m2 su n i by auto
  next
    case (ReplyError n)
    then have "success_urls rs = success_urls rs'" using rs by (simp add: success_urls_def)
    then show ?thesis using IH m1 m2 by auto
  qed
qed

text \<open>
  C34: the store is append-only: after any sequence of requests, answered or failed,
  the brands read back before are a prefix of the brands read back afterwards, each
  with the same rows.
\<close>

theorem run_keeps_stored:
  "db_ok (s_db (a_session st)) \<Longrightarrow> prefix (abs_db (s_db (a_session st))) (abs_db (s_db (a_session (snd (run pv rq st)))))"
proof (induction rq arbitrary: st)
  case Nil
  then show ?case by simp
next
  case (Cons q rq)
  obtain w body where q: "q = (w, body)" by fastforce
  from Cons.prems have "db_ok (s_db (a_session (snd (post_fetch_insights w pv body st))))"
    by (rule post_fetch_insights_ok)
  with Cons.IH have "prefix (abs_db (s_db (a_session (snd (post_fetch_insights w pv body st)))))
      (abs_db (s_db (a_session (snd (run pv rq (snd (post_fetch_insights w pv body st)))))))" .
  with post_fetch_insights_prefix_ok [OF Cons.prems, of w pv body] show ?case
    unfolding q run_snd_Cons by (rule prefix_order.trans)
qed

text \<open>Two requests for the same store, the second with a trailing slash.\<close>

lemma two_requests:
  "success_urls (fst (run pyd_example [(alone_web, ''https://shop.myshopify.com''), (alone_web, ''https://shop.myshopify.com/'')] service_start)) =
     [''https://shop.myshopify.com'']"
  by code_simp

theorem reachable_db_ok_witness:
  "db_inv (s_db (a_session (snd (post_fetch_insights alone_web pyd_example ''https://shop.myshopify.com'' service_start)))) \<and>
   s_pending (a_session (snd (post_fetch_insights alone_web pyd_example ''https://shop.myshopify.com'' service_start))) = []"
  by (rule reachable_db_ok [OF reachable.request [OF reachable.start]])

theorem run_success_once_witness:
  "distinct (success_urls (fst (run pyd_example [(alone_web, ''https://shop.myshopify.com''), (alone_web, ''https://shop.myshopify.com/'')] service_start))) \<and>
   success_urls (fst (run pyd_example [(alone_web, ''https://shop.myshopify.com''), (alone_web, ''https://shop.myshopify.com/'')] service_start)) =
     [''https://shop.myshopify.com'']"
  using run_success_once [OF conjunct1 [OF service_start_ok] prod.collapse [symmetric],
      of pyd_example "[(alone_web, ''https://shop.myshopify.com''), (alone_web, ''https://shop.myshopify.com/'')]"]
    two_requests by simp

theorem run_keeps_stored_witness:
  "prefix (abs_db (s_db (a_session demo_app_state)))
     (abs_db (s_db (a_session (snd (run pyd_example [(self_web, ''https://shop.myshopify.com'')] demo_app_state)))))"
  using run_keeps_stored conjunct1 [OF demo_app_state_ok] by blast

end
