(* ===== verification/Spec2Isabelle.thy ===== *)
theory Spec2Isabelle
  imports Service
begin

text \<open>
  \<^bold>\<open>Shopify Insights Fetcher.\<close>  A FastAPI service (\<open>src/main.py\<close>) takes a store
  URL, scrapes the store with \<open>ShopifyScraper\<close> (\<open>src/scraper.py\<close>), validates the result
  into the pydantic \<open>BrandContext\<close> (\<open>src/pydantic_models.py\<close>), stores it with
  SQLAlchemy (\<open>src/sqlalchemy_models.py\<close>) and scrapes up to three competitors
  (\<open>src/competitor.py\<close>).

  \<^bold>\<open>Theories.\<close>
  \<^item> \<open>Py_Prelude\<close>: Python's exceptions as the datatype \<open>py_exc\<close> and fallible results as
    \<open>'a res = py_exc + 'a\<close> (\<open>Inl\<close> the exception); \<open>bind_res\<close>, the loop \<open>map_res\<close>
    that stops at the first exception; the \<open>str\<close> methods the code calls (\<open>strip\<close>,
    \<open>rstrip\<close>, \<open>lower\<close>, \<open>startswith\<close>, \<open>in\<close>, \<open>join\<close>) on Latin-1 characters; a
    \<open>dict\<close> assignment \<open>dict_set\<close> that keeps insertion order.
  \<^item> \<open>Html\<close>: the parsed page as a tree of \<open>Elem\<close> and \<open>Text\<close> nodes and the three
    BeautifulSoup calls the scraper uses, \<open>select\<close>, \<open>select_one\<close> and \<open>get_text\<close>,
    for the selector forms that occur in the code (class, tag, \<open>[attr*=v]\<close>, groups).
  \<^item> \<open>Regex\<close>: the fragment of Python \<open>re\<close> the contact regexes use (classes, sequence,
    alternation, greedy bounded repetition, \<open>\b\<close>), as a backtracking matcher \<open>mt\<close>
    proved equal to the ordered semantics \<open>ends\<close> and to the relation \<open>matches\<close>, and
    \<open>re.findall\<close> as the scan loop \<open>findall_from\<close> with sre's rule against an empty
    match where the last one ended; the loop is a \<open>function\<close> with a termination measure.
  \<^item> \<open>Url\<close>: \<open>urllib.parse.urljoin\<close> of CPython 3.11.
  \<^item> \<open>Json\<close>: the value \<open>response.json()\<close> returns and \<open>get\<close>, iteration, \<open>[0]\<close>,
    \<open>str()\<close> on it.
  \<^item> \<open>Models\<close>: the pydantic models as records, their constructors as validating
    functions over the validator interface \<open>pyd\<close> (what pydantic accepts for \<open>str\<close>,
    \<open>HttpUrl\<close> and \<open>EmailStr\<close> depends on its version and is a parameter).
  \<^item> \<open>Scraper\<close>: \<open>ShopifyScraper\<close>.  The network is a snapshot \<open>web :: url \<Rightarrow> response option\<close>
    (\<open>None\<close> a transport error); every operation is an \<open>'a io\<close>, a function from the
    trace of requests made so far to its result and the extended trace, so the order
    of the requests is part of what is proved.  One definition per method:
    \<open>new_scraper\<close> (\<open>__init__\<close>), \<open>fetch_page\<close>, \<open>get_product_catalog\<close>,
    \<open>get_hero_products\<close>, \<open>get_privacy_policy\<close>, \<open>get_return_policy\<close>, \<open>get_faqs\<close>,
    \<open>get_social_handles\<close>, \<open>get_contact_details\<close>, \<open>get_brand_description\<close>,
    \<open>get_important_links\<close>, \<open>scrape\<close>; a loop body is a definition of its own
    (\<open>catalog_item\<close>, \<open>hero_item\<close>, \<open>faq_of\<close>, \<open>social_of\<close>, \<open>links_loop\<close>).
  \<^item> \<open>Persistence\<close>: the tables of \<open>src/sqlalchemy_models.py\<close> as records
    (\<open>brand_row\<close>, \<open>product_row\<close>, ...), the store \<open>db\<close>, a session with pending
    objects, \<open>db_add\<close> and \<open>commit\<close> (SQLite key assignment, the unique \<open>store_url\<close>,
    rollback on \<open>IntegrityError\<close>), and \<open>save_to_db\<close> of \<open>src/main.py\<close> (two commits:
    the brand, then its child rows built by \<open>child_rows\<close>).  The integrity invariant
    is \<open>db_inv\<close>, \<open>db_ok\<close> with every child row's \<open>brand_id\<close> set; the abstract
    view \<open>abs_db\<close> reads every brand back through its
    relationships.
  \<^item> \<open>Competitor\<close>: \<open>fetch_competitors\<close> of \<open>src/competitor.py\<close>: the search URL built
    with \<open>quote\<close>, the search request, the first three store links, the \<open>http\<close> filter,
    and the loop \<open>scrape_all\<close> that scrapes each and pauses one second (the
    \<open>Sleep\<close> event of the trace).
  \<^item> \<open>App\<close>: the endpoint \<open>fetch_insights\<close> of \<open>src/main.py\<close> over a state of the
    session and the trace (\<open>app_state\<close>): the pre-check fetch (401), the scrape, the
    save, the competitors and their saves, and the mapping of every other exception to
    500; \<open>api_response\<close> is \<open>APIResponse\<close>.
  \<^item> \<open>Service\<close>: the process over time: \<open>service_start\<close> (\<open>create_all\<close> on a new
    database), \<open>url_input\<close> (\<open>URLInput\<close>, 422 on an invalid URL), \<open>get_db\<close> (a fresh
    session per request, modelled from its use since \<open>database/db.py\<close> is not among the
    sources), \<open>post_fetch_insights\<close> (one request and its HTTP status), and the states
    of the service as the inductive \<open>reachable\<close> and as the request sequence \<open>run\<close>.

  \<^bold>\<open>What is proved.\<close>  Of \<open>scrape\<close>: the nine requests it makes and their order, that
  the stored URL is the validated, right-stripped input, and that for every store whose
  root page is fetched one social link with an \<open>href\<close> that \<open>HttpUrl\<close> rejects makes the
  whole scrape raise.  Of the catalog: one product per JSON entry, an empty catalog on
  any request failure, and an \<open>IndexError\<close> that escapes on an item with no variants.
  Of the FAQs, the hero products and the important links: which elements produce an
  entry, the keys of the links dictionary and that a later link overwrites an earlier
  one.  Of the social handles: one per social link of the root page, in order, with the
  validated \<open>href\<close> as URL and one of the three platform names, a \<open>facebook.com\<close> link
  being labelled \<open>tiktok\<close> because of the literal \<open>facebook Xcom\<close> of the source.  Of the
  contact regexes: the shape and length of every match \<open>re.findall\<close> returns (through
  \<open>findall_sound\<close>, every result is the span of a match); the example of the
  specification is the lemma \<open>contact_details_example\<close>.  The library lemmas behind
  these: \<open>mt_ends\<close>, \<open>set_ends\<close>, \<open>mt_sound\<close>, \<open>mt_complete\<close>, \<open>findall_sound\<close>,
  \<open>findall_from_terminates\<close> and \<open>findall_length\<close> (Regex), \<open>select_one_Some_iff\<close>
  (Html), \<open>map_res_Inl_first\<close> (Py_Prelude).  Each theorem with a hypothesis has a
  witness on a concrete input: the stores \<open>demo_web\<close> and \<open>relative_social_web\<close>
  (Scraper), the search pages \<open>demo_search_web\<close> and \<open>relative_search_web\<close>
  (Competitor), the session \<open>demo_session\<close> (Persistence), the webs \<open>self_web\<close>,
  \<open>alone_web\<close> and \<open>shop_web\<close> (App), evaluated by \<open>simp\<close> or \<open>code_simp\<close>.

  Of the store: \<open>save_to_db\<close> keeps the invariant \<open>db_inv\<close> on every branch (distinct
  keys and store URLs, every child row's \<open>brand_id\<close> set and the key of a stored brand;
  \<open>db_ok\<close> alone allows a \<open>NULL\<close> \<open>brand_id\<close>), raises \<open>IntegrityError\<close> on a stored
  \<open>store_url\<close> without changing anything, adds one row per element of each collection,
  and refines appending the context to \<open>abs_db\<close>.  Of the competitors: at most three,
  one search request, then each scrape followed by a pause (after the last one too),
  nothing but the search for a status other than 200, a query that cannot inject
  parameters, the slice taken before the \<open>http\<close> filter (for every search page whose
  first three store links are relative), and that a successful call scraped every
  candidate it found, requesting each one's catalog.  Of the handler: 401 after one
  request for an unreachable root, 500 for every request when \<open>HttpUrl\<close> is not a
  \<open>str\<close>, 500 for a second request for the same store, the store consistent after every
  request, the answer and the stored brands of a successful request, end to end the
  validated store URL and one catalog product per entry of the store's
  \<open>products.json\<close> (the spec's end-to-end property), and, whenever a competitor is the
  store itself or already stored, a 500 although the brand stays committed.  Of the
  service: every reachable state satisfies \<open>db_inv\<close> with nothing pending (by rule
  induction), the store is append-only across any sequence of requests, and no store is
  answered with success twice.  The generic lemma \<open>fetch_insights_keeps\<close> (App) carries
  any property every \<open>save_to_db\<close> keeps through the whole handler.

  \<^bold>\<open>Bounds and fuel.\<close>  No fuel is used: every loop of the code runs over a finite
  list, and \<open>findall_from\<close> terminates by the measure
  \<open>2 * (length s + 1 - i) + (if adv then 0 else 1)\<close>.

  \<^bold>\<open>Not modelled.\<close>  Timeouts, headers and sessions of \<open>requests\<close> and \<open>aiohttp\<close> (a
  response or a transport error is all the code observes); HTML parsing itself (the page
  is given as its tree); JSON floats; the internals of pydantic's validators (an
  interface); FastAPI's serialisation of the response and of its error bodies, and its
  own body parsing beyond the \<open>HttpUrl\<close> check of \<open>URLInput\<close> (a body that is no JSON
  object); of \<open>database/db.py\<close>, which is not in the repository's sources, everything
  but \<open>get_db\<close> (the engine, \<open>SessionLocal\<close>, the database URL; \<open>get_db\<close> is taken
  to give a fresh session over the shared store whose pending objects are discarded at
  the end of the request); concurrency between requests, which share only the store.
\<close>

end
